(* ===== verification/Prelude.thy ===== *)
theory Prelude
  imports Main "HOL-Library.Word" "HOL-Library.Sublist" "HOL-Library.Multiset"
begin

text \<open>
  Shared vocabulary of the development: the names of the machine types and of instants,
  two's-complement arithmetic of Go's \<open>int64\<close>, the fact collections the component
  theories fill, and the generic lemmas about tables (lists of rows with a key) that the
  storage theories use.

  An instant (Go's \<open>time.Time\<close>) is the number of nanoseconds since the zero
  \<open>time.Time\<close>, as an \<open>int\<close>; a duration is a number of nanoseconds kept in the
  range of \<open>int64\<close> by \<open>wrap64\<close>.  A Go string is its list of bytes.
\<close>

section \<open>Types and collections\<close>

type_synonym time = int
type_synonym duration = int
type_synonym u64 = "64 word"
type_synonym u32 = "32 word"

named_theorems store_defs \<open>definitions of the storage operations\<close>
named_theorems handler_defs \<open>definitions of the HTTP handlers\<close>
named_theorems inv_intros \<open>preservation of invariants, as introduction rules\<close>

section \<open>Two's-complement int64\<close>

definition wrap64 :: "int \<Rightarrow> int" where
  "wrap64 x = (x + 2 ^ 63) mod 2 ^ 64 - 2 ^ 63"

lemma wrap64_id [simp]: "- (2 ^ 63) \<le> x \<Longrightarrow> x < 2 ^ 63 \<Longrightarrow> wrap64 x = x"
  by (simp add: wrap64_def)

lemma wrap64_range: "- (2 ^ 63) \<le> wrap64 x \<and> wrap64 x < 2 ^ 63"
  by (simp add: wrap64_def)

lemma wrap64_word: "wrap64 x = sint (word_of_int x :: 64 word)"
  by (simp add: wrap64_def sint_sbintrunc' signed_take_bit_eq_take_bit_shift take_bit_eq_mod add.commute)

text \<open>\<open>time.Duration(n) * time.Second\<close> and \<open>time.Duration(n) * time.Hour\<close>.\<close>

definition Second :: int where "Second = 1000000000"
definition Minute :: int where "Minute = 60 * Second"
definition Hour :: int where "Hour = 3600 * Second"

definition seconds :: "int \<Rightarrow> duration" where
  "seconds n = wrap64 (n * Second)"

definition hours :: "int \<Rightarrow> duration" where
  "hours n = wrap64 (n * Hour)"

lemma seconds_exact: "0 \<le> n \<Longrightarrow> n \<le> 9223372036 \<Longrightarrow> seconds n = n * Second"
  by (simp add: seconds_def Second_def)

lemma hours_exact: "0 \<le> n \<Longrightarrow> n \<le> 2562047 \<Longrightarrow> hours n = n * Hour"
  by (simp add: hours_def Hour_def Second_def)

text \<open>The zero \<open>time.Time\<close>.\<close>

abbreviation IsZero :: "time \<Rightarrow> bool" where
  "IsZero t \<equiv> t = 0"

lemma in_set_enumerateD: "(i, x) \<in> set (enumerate n xs) \<Longrightarrow> x \<in> set xs"
  by (metis image_eqI map_snd_enumerate set_map snd_conv)

section \<open>Tables: rows with a key\<close>

lemma find_SomeD: "find p xs = Some x \<Longrightarrow> x \<in> set xs \<and> p x"
  by (auto simp: find_Some_iff)

text \<open>
  An SQL table is the list of its rows.  \<open>update_where p f\<close> is \<open>UPDATE ... SET f WHERE
  p\<close>, \<open>count_where p\<close> the number of rows it affects, \<open>delete_where p\<close> is
  \<open>DELETE ... WHERE p\<close>.
\<close>

definition update_where :: "('r \<Rightarrow> bool) \<Rightarrow> ('r \<Rightarrow> 'r) \<Rightarrow> 'r list \<Rightarrow> 'r list" where
  "update_where p f rs = map (\<lambda>r. if p r then f r else r) rs"

definition count_where :: "('r \<Rightarrow> bool) \<Rightarrow> 'r list \<Rightarrow> nat" where
  "count_where p rs = length (filter p rs)"

definition delete_where :: "('r \<Rightarrow> bool) \<Rightarrow> 'r list \<Rightarrow> 'r list" where
  "delete_where p rs = filter (\<lambda>r. \<not> p r) rs"

lemma update_where_Nil [simp]: "update_where p f [] = []"
  by (simp add: update_where_def)

lemma update_where_Cons [simp]:
  "update_where p f (r # rs) = (if p r then f r else r) # update_where p f rs"
  by (simp add: update_where_def)

lemma count_where_Nil [simp]: "count_where p [] = 0"
  by (simp add: count_where_def)

lemma count_where_Cons [simp]:
  "count_where p (r # rs) = (if p r then Suc (count_where p rs) else count_where p rs)"
  by (simp add: count_where_def)

lemma count_where_eq_0 [simp]: "count_where p rs = 0 \<longleftrightarrow> (\<forall>r\<in>set rs. \<not> p r)"
  by (simp add: count_where_def filter_empty_conv)

lemma delete_where_Nil [simp]: "delete_where p [] = []"
  by (simp add: delete_where_def)

lemma delete_where_Cons [simp]:
  "delete_where p (r # rs) = (if p r then delete_where p rs else r # delete_where p rs)"
  by (simp add: delete_where_def)

lemma set_delete_where [simp]: "set (delete_where p rs) = {r \<in> set rs. \<not> p r}"
  by (auto simp: delete_where_def)

lemma set_update_where: "set (update_where p f rs) = (\<lambda>r. if p r then f r else r) ` set rs"
  by (simp add: update_where_def)

lemma length_update_where [simp]: "length (update_where p f rs) = length rs"
  by (simp add: update_where_def)

lemma update_where_none [simp]: "\<forall>r\<in>set rs. \<not> p r \<Longrightarrow> update_where p f rs = rs"
  by (induction rs) auto

lemma map_update_where_same:
  assumes "\<And>r. k (f r) = k r"
  shows "map k (update_where p f rs) = map k rs"
  by (induction rs) (auto simp: assms)

lemma distinct_map_delete_where: "distinct (map k rs) \<Longrightarrow> distinct (map k (delete_where p rs))"
  by (induction rs) auto

text \<open>The first row with a key, and how the updates of a table with distinct keys change it.\<close>

definition row_with :: "('r \<Rightarrow> 'k) \<Rightarrow> 'k \<Rightarrow> 'r list \<Rightarrow> 'r option" where
  "row_with key k rs = find (\<lambda>r. key r = k) rs"

lemma row_with_Nil [simp]: "row_with key k [] = None"
  by (simp add: row_with_def)

lemma row_with_Cons [simp]:
  "row_with key k (r # rs) = (if key r = k then Some r else row_with key k rs)"
  by (simp add: row_with_def)

lemma row_with_None [simp]: "row_with key k rs = None \<longleftrightarrow> k \<notin> key ` set rs"
  by (induction rs) auto

lemma row_with_SomeD: "row_with key k rs = Some r \<Longrightarrow> r \<in> set rs \<and> key r = k"
  by (induction rs) (auto split: if_splits)

lemma row_with_append:
  "row_with key k (rs @ ss) = (case row_with key k rs of None \<Rightarrow> row_with key k ss | Some r \<Rightarrow> Some r)"
  by (induction rs) auto

lemma row_with_in: "distinct (map key rs) \<Longrightarrow> r \<in> set rs \<Longrightarrow> row_with key (key r) rs = Some r"
  by (induction rs) (auto simp: rev_image_eqI)

lemma row_with_update_where:
  assumes "\<And>r. key (f r) = key r"
  shows "row_with key k (update_where p f rs) =
    map_option (\<lambda>r. if p r then f r else r) (row_with key k rs)"
  by (induction rs) (auto simp: assms)

lemma row_with_delete_where_key:
  "row_with key k (delete_where (\<lambda>r. key r = k') rs) = (if k = k' then None else row_with key k rs)"
  by (induction rs) auto

lemma count_where_key:
  "distinct (map key rs) \<Longrightarrow> count_where (\<lambda>r. key r = k) rs = (if k \<in> key ` set rs then 1 else 0)"
  by (induction rs) auto

section \<open>ORDER BY ... DESC\<close>

text \<open>
  \<open>ORDER BY k DESC\<close>: SQLite fixes no order between rows with equal keys; the model keeps
  their table order, and no property of the development depends on that choice.
\<close>

definition order_by_desc :: "('r \<Rightarrow> int) \<Rightarrow> 'r list \<Rightarrow> 'r list" where
  "order_by_desc k rs = sort_key (\<lambda>r. - k r) rs"

lemma mset_order_by_desc [simp]: "mset (order_by_desc k rs) = mset rs"
  by (simp add: order_by_desc_def)

lemma set_order_by_desc [simp]: "set (order_by_desc k rs) = set rs"
  by (simp add: order_by_desc_def)

lemma length_order_by_desc [simp]: "length (order_by_desc k rs) = length rs"
  by (simp add: order_by_desc_def)

lemma sorted_order_by_desc: "sorted_wrt (\<lambda>a b. k b \<le> k a) (order_by_desc k rs)"
proof -
  have "sorted (map (\<lambda>r. - k r) (order_by_desc k rs))"
    by (simp add: order_by_desc_def)
  then show ?thesis by (simp add: sorted_map)
qed

end
