(* ===== verification/Go_Std.thy ===== *)
theory Go_Std
  imports Prelude
begin

text \<open>
  The functions of Go's standard library that the server's own code relies on, on strings
  as lists of bytes: \<open>strings\<close> (\<open>TrimSpace\<close>, \<open>HasPrefix\<close>, \<open>Split\<close>, \<open>SplitN\<close>,
  \<open>Join\<close>, \<open>EqualFold\<close>), \<open>strconv\<close> (\<open>Itoa\<close>, \<open>Atoi\<close>, \<open>ParseUint\<close>),
  \<open>encoding/hex\<close>, \<open>crypto/subtle\<close>, \<open>net.SplitHostPort\<close> and \<open>filepath.IsAbs\<close>.
  They model the library, not a file of the repository.
\<close>

section \<open>White space\<close>

text \<open>
  The UTF-8 encodings of the code points for which \<open>unicode.IsSpace\<close> holds.  A byte
  sequence that starts (ends) with one of them decodes there to that white space, so
  trimming code points is trimming these byte sequences.
\<close>

definition space_seqs :: "string list" where
  "space_seqs =
     [[CHR 0x20], [CHR 0x09], [CHR 0x0A], [CHR 0x0B], [CHR 0x0C], [CHR 0x0D],
      [CHR 0xC2, CHR 0x85], [CHR 0xC2, CHR 0xA0], [CHR 0xE1, CHR 0x9A, CHR 0x80],
      [CHR 0xE2, CHR 0x80, CHR 0x80], [CHR 0xE2, CHR 0x80, CHR 0x81],
      [CHR 0xE2, CHR 0x80, CHR 0x82], [CHR 0xE2, CHR 0x80, CHR 0x83],
      [CHR 0xE2, CHR 0x80, CHR 0x84], [CHR 0xE2, CHR 0x80, CHR 0x85],
      [CHR 0xE2, CHR 0x80, CHR 0x86], [CHR 0xE2, CHR 0x80, CHR 0x87],
      [CHR 0xE2, CHR 0x80, CHR 0x88], [CHR 0xE2, CHR 0x80, CHR 0x89],
      [CHR 0xE2, CHR 0x80, CHR 0x8A], [CHR 0xE2, CHR 0x80, CHR 0xA8],
      [CHR 0xE2, CHR 0x80, CHR 0xA9], [CHR 0xE2, CHR 0x80, CHR 0xAF],
      [CHR 0xE2, CHR 0x81, CHR 0x9F], [CHR 0xE3, CHR 0x80, CHR 0x80]]"

definition left_space :: "string \<Rightarrow> nat" where
  "left_space s = (case find (\<lambda>w. prefix w s) space_seqs of None \<Rightarrow> 0 | Some w \<Rightarrow> length w)"

definition right_space :: "string \<Rightarrow> nat" where
  "right_space s = (case find (\<lambda>w. suffix w s) space_seqs of None \<Rightarrow> 0 | Some w \<Rightarrow> length w)"

lemma space_seqs_nonempty: "w \<in> set space_seqs \<Longrightarrow> w \<noteq> []"
  by (auto simp: space_seqs_def)

lemma left_space_0: "left_space s = 0 \<longleftrightarrow> (\<forall>w\<in>set space_seqs. \<not> prefix w s)"
  by (auto simp: left_space_def find_None_iff split: option.split
        dest: space_seqs_nonempty find_SomeD)

lemma right_space_0: "right_space s = 0 \<longleftrightarrow> (\<forall>w\<in>set space_seqs. \<not> suffix w s)"
  by (auto simp: right_space_def find_None_iff split: option.split
        dest: space_seqs_nonempty find_SomeD)

lemma left_space_le: "left_space s \<le> length s"
  by (auto simp: left_space_def split: option.split dest!: find_SomeD prefix_length_le)

lemma right_space_le: "right_space s \<le> length s"
  by (auto simp: right_space_def split: option.split dest!: find_SomeD suffix_length_le)

function TrimLeft :: "string \<Rightarrow> string" where
  "TrimLeft s = (if left_space s = 0 then s else TrimLeft (drop (left_space s) s))"
  by pat_completeness auto
termination
proof (relation "measure length", goal_cases)
  case (2 s)
  then show ?case using left_space_le [of s] by simp
qed simp

function TrimRight :: "string \<Rightarrow> string" where
  "TrimRight s = (if right_space s = 0 then s else TrimRight (take (length s - right_space s) s))"
  by pat_completeness auto
termination
proof (relation "measure length", goal_cases)
  case (2 s)
  then show ?case using right_space_le [of s] by simp
qed simp

declare TrimLeft.simps [simp del] TrimRight.simps [simp del]

definition TrimSpace :: "string \<Rightarrow> string" where
  "TrimSpace s = TrimRight (TrimLeft s)"

lemma left_space_TrimLeft: "left_space (TrimLeft s) = 0"
  by (induction s rule: TrimLeft.induct) (subst TrimLeft.simps, simp)

lemma right_space_TrimRight: "right_space (TrimRight s) = 0"
  by (induction s rule: TrimRight.induct) (subst TrimRight.simps, simp)

lemma TrimLeft_id [simp]: "left_space s = 0 \<Longrightarrow> TrimLeft s = s"
  by (subst TrimLeft.simps) simp

lemma TrimRight_id [simp]: "right_space s = 0 \<Longrightarrow> TrimRight s = s"
  by (subst TrimRight.simps) simp

lemma prefix_TrimRight: "prefix (TrimRight s) s"
proof (induction s rule: TrimRight.induct)
  case (1 s)
  show ?case
  proof (cases "right_space s = 0")
    case False
    with 1 have "prefix (TrimRight s) (take (length s - right_space s) s)"
      by (subst TrimRight.simps) simp
    then show ?thesis using prefix_order.trans take_is_prefix by blast
  qed simp
qed

lemma suffix_TrimLeft: "suffix (TrimLeft s) s"
proof (induction s rule: TrimLeft.induct)
  case (1 s)
  show ?case
  proof (cases "left_space s = 0")
    case False
    with 1 have "suffix (TrimLeft s) (drop (left_space s) s)"
      by (subst TrimLeft.simps) simp
    then show ?thesis using suffix_order.trans suffix_drop by blast
  qed simp
qed

lemma left_space_prefix: "prefix p s \<Longrightarrow> left_space s = 0 \<Longrightarrow> left_space p = 0"
  using left_space_0 prefix_order.trans by blast

text \<open>Trimmed strings, trimming is idempotent, and what it leaves is part of the string.\<close>

definition trimmed :: "string \<Rightarrow> bool" where
  "trimmed s \<longleftrightarrow> left_space s = 0 \<and> right_space s = 0"

lemma trimmed_TrimSpace [simp, intro]: "trimmed (TrimSpace s)"
  unfolding trimmed_def TrimSpace_def
  using left_space_TrimLeft right_space_TrimRight left_space_prefix prefix_TrimRight by blast

lemma TrimSpace_trimmed [simp]: "trimmed s \<Longrightarrow> TrimSpace s = s"
  by (simp add: trimmed_def TrimSpace_def)

lemma TrimSpace_eq_self: "TrimSpace s = s \<longleftrightarrow> trimmed s"
  by (metis TrimSpace_trimmed trimmed_TrimSpace)

lemma TrimSpace_TrimSpace [simp]: "TrimSpace (TrimSpace s) = TrimSpace s"
  by simp

lemma trimmed_Nil [simp]: "trimmed []"
  by (auto simp: trimmed_def left_space_0 right_space_0 dest: space_seqs_nonempty)

lemma sublist_TrimSpace: "sublist (TrimSpace s) s"
  unfolding TrimSpace_def
  using prefix_TrimRight suffix_TrimLeft
  by (meson prefix_imp_sublist suffix_imp_sublist sublist_order.order_trans)

lemma length_TrimSpace: "length (TrimSpace s) \<le> length s"
  by (simp add: sublist_length_le sublist_TrimSpace)


section \<open>Prefixes, cutting and splitting\<close>

abbreviation HasPrefix :: "string \<Rightarrow> string \<Rightarrow> bool" where
  "HasPrefix s p \<equiv> prefix p s"

definition TrimPrefix :: "string \<Rightarrow> string \<Rightarrow> string" where
  "TrimPrefix s p = (if prefix p s then drop (length p) s else s)"

definition TrimSuffix :: "string \<Rightarrow> string \<Rightarrow> string" where
  "TrimSuffix s p = (if suffix p s then take (length s - length p) s else s)"

text \<open>\<open>strings.Cut\<close> at a one-byte separator: what stands before and after its first
  occurrence; \<open>strings.SplitN(s, sep, 2)\<close> has two parts exactly when it is \<open>Some\<close>.\<close>

fun Cut :: "char \<Rightarrow> string \<Rightarrow> (string \<times> string) option" where
  "Cut c [] = None"
| "Cut c (x # xs) =
     (if x = c then Some ([], xs)
      else case Cut c xs of None \<Rightarrow> None | Some (a, b) \<Rightarrow> Some (x # a, b))"

lemma Cut_None [simp]: "Cut c s = None \<longleftrightarrow> c \<notin> set s"
  by (induction s) (auto split: option.splits)

lemma Cut_append: "c \<notin> set a \<Longrightarrow> Cut c (a @ c # b) = Some (a, b)"
  by (induction a) auto

lemma Cut_SomeD: "Cut c s = Some (a, b) \<Longrightarrow> s = a @ c # b \<and> c \<notin> set a"
  by (induction s arbitrary: a) (auto split: if_splits option.splits)

text \<open>\<open>strings.Split\<close> at a one-byte separator, and \<open>strings.Join\<close>.\<close>

fun Split :: "char \<Rightarrow> string \<Rightarrow> string list" where
  "Split c [] = [[]]"
| "Split c (x # xs) =
     (if x = c then [] # Split c xs
      else case Split c xs of [] \<Rightarrow> [[x]] | p # ps \<Rightarrow> (x # p) # ps)"

fun Join :: "char \<Rightarrow> string list \<Rightarrow> string" where
  "Join c [] = []"
| "Join c [p] = p"
| "Join c (p # q # ps) = p @ c # Join c (q # ps)"

lemma Split_nonempty [simp]: "Split c s \<noteq> []"
  by (induction s) (auto split: list.splits)

lemma Split_no_sep: "p \<in> set (Split c s) \<Longrightarrow> c \<notin> set p"
  by (induction s arbitrary: p) (auto split: if_splits list.splits)

lemma Join_Cons: "ps \<noteq> [] \<Longrightarrow> Join c (p # ps) = p @ c # Join c ps"
  by (cases ps) auto

lemma Join_Split [simp]: "Join c (Split c s) = s"
proof (induction s)
  case (Cons x xs)
  then show ?case
    by (cases "Split c xs"; cases "tl (Split c xs)") (auto simp: Join_Cons)
qed simp

lemma Split_single: "c \<notin> set p \<Longrightarrow> Split c p = [p]"
  by (induction p) auto

lemma Split_append_sep: "c \<notin> set p \<Longrightarrow> Split c (p @ c # s) = p # Split c s"
  by (induction p) auto

lemma Split_Join:
  "ps \<noteq> [] \<Longrightarrow> \<forall>p\<in>set ps. c \<notin> set p \<Longrightarrow> Split c (Join c ps) = ps"
proof (induction ps)
  case (Cons p ps)
  then show ?case
    by (cases ps) (auto simp: Split_single Split_append_sep)
qed simp

section \<open>Letters, digits and hexadecimal\<close>

definition byte :: "char \<Rightarrow> nat" where
  "byte c = of_char c"

definition ascii_lower :: "char \<Rightarrow> char" where
  "ascii_lower c = (if 65 \<le> byte c \<and> byte c \<le> 90 then char_of (byte c + 32) else c)"

text \<open>
  \<open>strings.EqualFold(s, t)\<close> for an ASCII \<open>t\<close> without the letters \<open>k\<close> and \<open>s\<close>
  (the only ASCII letters with a non-ASCII case variant): both sides agree up to the case
  of ASCII letters.
\<close>

definition EqualFold :: "string \<Rightarrow> string \<Rightarrow> bool" where
  "EqualFold s t \<longleftrightarrow> map ascii_lower s = map ascii_lower t"

lemma EqualFold_refl [simp]: "EqualFold s s"
  by (simp add: EqualFold_def)

text \<open>\<open>subtle.ConstantTimeCompare(x, y) == 1\<close>: equal lengths and equal bytes.\<close>

definition ConstantTimeEq :: "string \<Rightarrow> string \<Rightarrow> bool" where
  "ConstantTimeEq x y \<longleftrightarrow> length x = length y \<and> list_all2 (=) x y"

lemma ConstantTimeEq_iff [simp]: "ConstantTimeEq x y \<longleftrightarrow> x = y"
  by (auto simp: ConstantTimeEq_def list.rel_eq)

definition is_digit :: "char \<Rightarrow> bool" where
  "is_digit c \<longleftrightarrow> 48 \<le> byte c \<and> byte c \<le> 57"

definition is_hex :: "char \<Rightarrow> bool" where
  "is_hex c \<longleftrightarrow> is_digit c \<or> (97 \<le> byte c \<and> byte c \<le> 102) \<or> (65 \<le> byte c \<and> byte c \<le> 70)"

text \<open>\<open>hex.DecodeString\<close> succeeds; \<open>hex.EncodeToString\<close>.\<close>

definition hex_decodable :: "string \<Rightarrow> bool" where
  "hex_decodable s \<longleftrightarrow> even (length s) \<and> list_all is_hex s"

definition hex_digit :: "nat \<Rightarrow> char" where
  "hex_digit n = ''0123456789abcdef'' ! (n mod 16)"

definition EncodeToString :: "string \<Rightarrow> string" where
  "EncodeToString s = concat (map (\<lambda>c. [hex_digit (byte c div 16), hex_digit (byte c)]) s)"

lemma length_EncodeToString [simp]: "length (EncodeToString s) = 2 * length s"
  by (induction s) (auto simp: EncodeToString_def)

lemma lt_16_cases:
  assumes "n < (16::nat)"
  shows "n \<in> {0, 1, 2, 3, 4, 5, 6, 7, 8, 9, 10, 11, 12, 13, 14, 15}"
  using assms by (simp, arith)

lemma hex_digit_is_hex: "is_hex (hex_digit n)"
proof -
  have "n mod 16 \<in> {0, 1, 2, 3, 4, 5, 6, 7, 8, 9, 10, 11, 12, 13, 14, 15}"
    by (rule lt_16_cases) simp
  then show ?thesis
    by (auto simp: hex_digit_def is_hex_def is_digit_def byte_def)
qed

lemma hex_digit_inj:
  assumes "hex_digit m = hex_digit n" shows "m mod 16 = n mod 16"
proof -
  have "distinct ''0123456789abcdef''" by simp
  then show ?thesis
    using assms by (simp add: hex_digit_def nth_eq_iff_index_eq)
qed

lemma hex_decodable_EncodeToString: "hex_decodable (EncodeToString s)"
  by (induction s) (auto simp: EncodeToString_def hex_decodable_def hex_digit_is_hex)

lemma byte_less [simp]: "byte c < 256"
  by (simp add: byte_def)

lemma byte_inj: "byte c = byte d \<Longrightarrow> c = d"
  by (simp add: byte_def)

lemma EncodeToString_Cons:
  "EncodeToString (c # s) = hex_digit (byte c div 16) # hex_digit (byte c) # EncodeToString s"
  by (simp add: EncodeToString_def)

lemma EncodeToString_inj: "EncodeToString s = EncodeToString t \<Longrightarrow> s = t"
proof (induction s arbitrary: t)
  case Nil
  then show ?case by (cases t) (auto simp: EncodeToString_def)
next
  case (Cons c s)
  then obtain d t' where t: "t = d # t'"
    by (cases t) (auto simp: EncodeToString_def)
  have eq: "hex_digit (byte c div 16) = hex_digit (byte d div 16)"
      "hex_digit (byte c) = hex_digit (byte d)" "EncodeToString s = EncodeToString t'"
    using Cons.prems t by (auto simp: EncodeToString_Cons)
  have "byte c div 16 < 16" and "byte d div 16 < 16"
    using byte_less [of c] byte_less [of d] by (simp_all add: div_less_iff_less_mult)
  then have "byte c div 16 = byte d div 16"
    using hex_digit_inj [OF eq(1)] by simp
  moreover have "byte c mod 16 = byte d mod 16"
    using hex_digit_inj [OF eq(2)] .
  ultimately have "byte c = byte d" by (metis div_mult_mod_eq)
  then show ?case using Cons.IH eq(3) t byte_inj by blast
qed


text \<open>Hexadecimal text carries no white space.\<close>

lemma space_seqs_not_hex: "\<forall>w\<in>set space_seqs. w \<noteq> [] \<and> \<not> is_hex (hd w) \<and> \<not> is_hex (last w)"
  by code_simp

lemma trimmed_hex:
  assumes "list_all is_hex s" shows "trimmed s"
proof -
  have "\<not> prefix w s \<and> \<not> suffix w s" if w: "w \<in> set space_seqs" for w
  proof -
    have "w \<noteq> []" "\<not> is_hex (hd w)" "\<not> is_hex (last w)"
      using space_seqs_not_hex w by auto
    moreover have "hd w \<in> set w" "last w \<in> set w" using \<open>w \<noteq> []\<close> by auto
    ultimately show ?thesis
      using assms by (metis list_all_iff set_mono_prefix set_mono_suffix subsetD)
  qed
  then show ?thesis by (auto simp: trimmed_def left_space_0 right_space_0)
qed

lemma trimmed_EncodeToString [simp]: "trimmed (EncodeToString s)"
  using hex_decodable_EncodeToString trimmed_hex by (auto simp: hex_decodable_def)

section \<open>Decimal numbers\<close>

definition digit_char :: "nat \<Rightarrow> char" where
  "digit_char n = ''0123456789'' ! (n mod 10)"

definition digit_val :: "char \<Rightarrow> nat" where
  "digit_val c = byte c - 48"

fun nat_string :: "nat \<Rightarrow> string" where
  "nat_string n = (if n < 10 then [digit_char n] else nat_string (n div 10) @ [digit_char n])"

declare nat_string.simps [simp del]

text \<open>\<open>strconv.Itoa\<close>.\<close>

definition Itoa :: "int \<Rightarrow> string" where
  "Itoa i = (if i < 0 then CHR ''-'' # nat_string (nat (- i)) else nat_string (nat i))"

definition digits_val :: "string \<Rightarrow> nat" where
  "digits_val s = foldl (\<lambda>n c. 10 * n + digit_val c) 0 s"

text \<open>
  \<open>strconv.ParseUint(s, 10, 64)\<close> and \<open>strconv.Atoi\<close> (64-bit \<open>int\<close>): \<open>None\<close> is the
  error, of syntax or of range.
\<close>

definition ParseUint64 :: "string \<Rightarrow> u64 option" where
  "ParseUint64 s =
     (if s \<noteq> [] \<and> list_all is_digit s \<and> digits_val s < 2 ^ 64
      then Some (word_of_nat (digits_val s)) else None)"

definition Atoi :: "string \<Rightarrow> int option" where
  "Atoi s =
     (let neg = (s \<noteq> [] \<and> hd s = CHR ''-'');
          ds = (if s \<noteq> [] \<and> (hd s = CHR ''-'' \<or> hd s = CHR ''+'') then tl s else s);
          v = (if neg then - int (digits_val ds) else int (digits_val ds))
      in if ds \<noteq> [] \<and> list_all is_digit ds \<and> - (2 ^ 63) \<le> v \<and> v < 2 ^ 63 then Some v else None)"

lemma digit_char_props: "is_digit (digit_char n) \<and> digit_val (digit_char n) = n mod 10"
proof -
  have "n mod 10 < 10" by simp
  then have "n mod 10 \<in> {0, 1, 2, 3, 4, 5, 6, 7, 8, 9}" by (simp, arith)
  then show ?thesis by (auto simp: digit_char_def is_digit_def digit_val_def byte_def)
qed

lemma nat_string_digits: "nat_string n \<noteq> [] \<and> list_all is_digit (nat_string n)"
  by (induction n rule: nat_string.induct) (subst (1 2) nat_string.simps, simp add: digit_char_props)

lemma digits_val_snoc: "digits_val (s @ [c]) = 10 * digits_val s + digit_val c"
  by (simp add: digits_val_def)

lemma digits_val_nat_string [simp]: "digits_val (nat_string n) = n"
proof (induction n rule: nat_string.induct)
  case (1 n)
  show ?case
  proof (cases "n < 10")
    case True
    then show ?thesis
      by (subst nat_string.simps) (simp add: digits_val_def digit_char_props)
  next
    case False
    with 1 show ?thesis
      by (subst nat_string.simps) (simp add: digits_val_snoc digit_char_props)
  qed
qed

lemma ParseUint64_nat_string: "n < 2 ^ 64 \<Longrightarrow> ParseUint64 (nat_string n) = Some (word_of_nat n)"
  using nat_string_digits [of n] by (simp add: ParseUint64_def)

lemma nat_string_inj: "nat_string m = nat_string n \<Longrightarrow> m = n"
  by (metis digits_val_nat_string)

section \<open>Addresses and paths\<close>

fun index_of :: "char \<Rightarrow> string \<Rightarrow> nat option" where
  "index_of c [] = None"
| "index_of c (x # xs) = (if x = c then Some 0 else map_option Suc (index_of c xs))"

definition last_index :: "char \<Rightarrow> string \<Rightarrow> nat option" where
  "last_index c s = map_option (\<lambda>i. length s - Suc i) (index_of c (rev s))"

text \<open>\<open>net.SplitHostPort\<close>: \<open>None\<close> is one of its address errors.\<close>

definition SplitHostPort :: "string \<Rightarrow> (string \<times> string) option" where
  "SplitHostPort hp =
     (case last_index (CHR '':'') hp of
        None \<Rightarrow> None
      | Some i \<Rightarrow>
          if hd hp = CHR ''['' then
            (case index_of (CHR '']'') hp of
               None \<Rightarrow> None
             | Some e \<Rightarrow>
                 if e + 1 \<noteq> i then None
                 else if CHR ''['' \<in> set (drop 1 hp) then None
                 else if CHR '']'' \<in> set (drop (e + 1) hp) then None
                 else Some (take (e - 1) (drop 1 hp), drop (i + 1) hp))
          else if CHR '':'' \<in> set (take i hp) then None
          else if CHR ''['' \<in> set hp then None
          else if CHR '']'' \<in> set hp then None
          else Some (take i hp, drop (i + 1) hp))"

lemma index_of_None [simp]: "index_of c s = None \<longleftrightarrow> c \<notin> set s"
  by (induction s) auto

lemma index_of_append: "c \<notin> set a \<Longrightarrow> index_of c (a @ c # b) = Some (length a)"
  by (induction a) auto

lemma last_index_None [simp]: "last_index c s = None \<longleftrightarrow> c \<notin> set s"
  by (simp add: last_index_def)

lemma last_index_append:
  assumes "c \<notin> set b" shows "last_index c (a @ c # b) = Some (length a)"
proof -
  have "index_of c (rev b @ c # rev a) = Some (length b)"
    using assms index_of_append [of c "rev b" "rev a"] by simp
  then show ?thesis by (simp add: last_index_def)
qed

text \<open>A host and a port without colons and brackets are put together and taken apart again.\<close>

lemma SplitHostPort_join:
  assumes "\<forall>c\<in>set h \<union> set p. c \<noteq> CHR '':'' \<and> c \<noteq> CHR ''['' \<and> c \<noteq> CHR '']''"
  shows "SplitHostPort (h @ CHR '':'' # p) = Some (h, p)"
proof -
  have "last_index (CHR '':'') (h @ CHR '':'' # p) = Some (length h)"
    using assms by (auto intro: last_index_append)
  moreover have "hd (h @ CHR '':'' # p) \<noteq> CHR ''[''"
    using assms by (cases h) auto
  ultimately show ?thesis
    using assms by (auto simp: SplitHostPort_def)
qed

text \<open>\<open>filepath.IsAbs\<close> on Unix.\<close>

definition IsAbs :: "string \<Rightarrow> bool" where
  "IsAbs p = HasPrefix p ''/''"


text \<open>\<open>filepath.Clean\<close> and \<open>filepath.Join\<close> on Unix.\<close>

fun clean_step :: "bool \<Rightarrow> string list \<Rightarrow> string \<Rightarrow> string list" where
  "clean_step rooted st c =
     (if c = [] \<or> c = ''.'' then st
      else if c = ''..'' then
        (if st \<noteq> [] \<and> hd st \<noteq> ''..'' then tl st else if rooted then st else c # st)
      else c # st)"

definition path_clean :: "string \<Rightarrow> string" where
  "path_clean p =
     (let rooted = HasPrefix p ''/'';
          body = Join CHR ''/'' (rev (foldl (clean_step rooted) [] (Split CHR ''/'' p)))
      in if rooted then CHR ''/'' # body else if body = [] then ''.'' else body)"

definition path_join :: "string list \<Rightarrow> string" where
  "path_join es = (let ne = filter (\<lambda>e. e \<noteq> []) es
                   in if ne = [] then [] else path_clean (Join CHR ''/'' ne))"


text \<open>\<open>filepath.Dir\<close> on Unix.\<close>

definition path_dir :: "string \<Rightarrow> string" where
  "path_dir p = (case last_index CHR ''/'' p of None \<Rightarrow> path_clean [] | Some i \<Rightarrow> path_clean (take (i + 1) p))"

end
