(* ===== verification/Store_Base.thy ===== *)
theory Store_Base
  imports Go_Std
begin

text \<open>
  Package \<open>internal/store\<close>: the data of \<open>models.go\<close>, the errors of \<open>store.go\<close>, and the
  life cycle of \<open>SQLiteStore\<close> in \<open>sqlite.go\<close> (\<open>Init\<close>, \<open>migrate\<close>, \<open>HealthCheck\<close>,
  \<open>Close\<close>, \<open>TableCount\<close>).  SQLite itself is third-party code: a statement is given the
  meaning its SQL text has on tables as lists of rows, and whatever else the driver may do is
  the fault oracle \<open>F\<close>, which decides for every database call of an operation whether the
  driver reports an error there.  A failed statement leaves the tables as they were.
\<close>

section \<open>Data (models.go)\<close>

definition NodeStatusActive :: string where "NodeStatusActive = ''active''"
definition NodeStatusInactive :: string where "NodeStatusInactive = ''inactive''"
definition NodeStatusSuspended :: string where "NodeStatusSuspended = ''suspended''"
definition NodeStatusDeleted :: string where "NodeStatusDeleted = ''deleted''"

definition RelayStatusActive :: string where "RelayStatusActive = ''active''"
definition RelayStatusInactive :: string where "RelayStatusInactive = ''inactive''"
definition RelayStatusUnreachable :: string where "RelayStatusUnreachable = ''unreachable''"

lemmas status_defs = NodeStatusActive_def NodeStatusInactive_def NodeStatusSuspended_def
  NodeStatusDeleted_def RelayStatusActive_def RelayStatusInactive_def RelayStatusUnreachable_def

record Node =
  Node_ID :: string
  Node_AuthKeyHash :: string
  Node_Name :: string
  Node_StorageReservedGB :: u64
  Node_StorageAvailableGB :: u64
  Node_VPNPublicKey :: string
  Node_MeshURL :: string
  Node_Status :: string
  Node_CreatedAt :: time
  Node_UpdatedAt :: time
  Node_LastSeenAt :: "time option"
  Node_DeletedAt :: "time option"

text \<open>\<open>Relay_Capabilities\<close> is a Go slice: \<open>None\<close> is the nil slice.\<close>

record Relay =
  Relay_NodeID :: string
  Relay_URL :: string
  Relay_Fingerprint :: string
  Relay_StorageReservedGB :: u64
  Relay_StorageAvailableGB :: u64
  Relay_ReplicationFactor :: u32
  Relay_Version :: string
  Relay_UptimeSecs :: u64
  Relay_Capabilities :: "string list option"
  Relay_Status :: string
  Relay_LastSeenAt :: time
  Relay_CreatedAt :: time
  Relay_UpdatedAt :: time

text \<open>
  A row of the \<open>relays\<close> table: the columns of a relay (\<open>Relay_LastSeenAt\<close> is the column
  \<open>last_seen_at\<close>, \<open>Relay_Capabilities\<close> the JSON text, \<open>None\<close> standing for the text
  \<open>null\<close> that \<open>json.Marshal\<close> writes for a nil slice) and the second column \<open>last_seen\<close>,
  which is written beside \<open>last_seen_at\<close> and never read.
\<close>

record RelayRow = Relay +
  Row_last_seen :: time

section \<open>Errors and database calls (store.go)\<close>

datatype sql_op =
    Q_Open | Q_Ping | Q_Schema | Q_Alter nat | Q_Indexes | Q_TableCount
  | Q_CreateNode | Q_GetNodeByID | Q_GetNodeByAuthKeyHash | Q_UpdateNode | Q_DeleteNode
  | Q_CountNodes | Q_ListNodes | Q_TouchNode | Q_CleanupInactiveNodes | Q_NodeCounts
  | Q_UpsertRelay | Q_GetRelay | Q_CountListed | Q_ListRelays | Q_Heartbeat | Q_UpdateRelayFull
  | Q_MarkUnreachable | Q_DeleteRelay | Q_CountActive | Q_CleanupMark | Q_CleanupDelete

text \<open>
  The calls into the driver that can fail: running a statement, asking for the number of rows
  it affected, opening a query, stepping to the i-th row (or past the last one), and scanning
  the i-th row.
\<close>

datatype db_call = Exec sql_op | Affected sql_op | Query sql_op | Next sql_op nat | Scan sql_op nat

type_synonym faults = "db_call \<Rightarrow> bool"

datatype store_error = ErrNotImplemented | ErrNodeNotFound | ErrRelayNotFound | NotInitialized | DBError db_call

section \<open>Statements\<close>

text \<open>\<open>ExecContext\<close> of an \<open>UPDATE ... WHERE p\<close> and its \<open>RowsAffected\<close>.\<close>

definition exec_update ::
  "faults \<Rightarrow> sql_op \<Rightarrow> ('r \<Rightarrow> bool) \<Rightarrow> ('r \<Rightarrow> 'r) \<Rightarrow> 'r list \<Rightarrow> 'r list \<times> (store_error + nat)" where
  "exec_update F q p f rs =
     (if F (Exec q) then (rs, Inl (DBError (Exec q)))
      else (update_where p f rs,
            if F (Affected q) then Inl (DBError (Affected q)) else Inr (count_where p rs)))"

definition exec_delete ::
  "faults \<Rightarrow> sql_op \<Rightarrow> ('r \<Rightarrow> bool) \<Rightarrow> 'r list \<Rightarrow> 'r list \<times> (store_error + nat)" where
  "exec_delete F q p rs =
     (if F (Exec q) then (rs, Inl (DBError (Exec q)))
      else (delete_where p rs,
            if F (Affected q) then Inl (DBError (Affected q)) else Inr (count_where p rs)))"

text \<open>The code's reading of the affected count: an error, or "not found" when it is zero.\<close>

fun affected_error :: "store_error \<Rightarrow> store_error + nat \<Rightarrow> store_error option" where
  "affected_error nf (Inl e) = Some e"
| "affected_error nf (Inr n) = (if n = 0 then Some nf else None)"

text \<open>\<open>QueryRowContext(...).Scan\<close>: the first matching row.\<close>

definition query_row :: "faults \<Rightarrow> sql_op \<Rightarrow> store_error \<Rightarrow> ('r \<Rightarrow> bool) \<Rightarrow> 'r list \<Rightarrow> store_error + 'r" where
  "query_row F q nf p rs =
     (if F (Query q) then Inl (DBError (Query q))
      else case find p rs of
        None \<Rightarrow> Inl nf
      | Some r \<Rightarrow> if F (Scan q 0) then Inl (DBError (Scan q 0)) else Inr r)"

text \<open>
  \<open>for rows.Next() \<lbrace> ... Scan ... \<rbrace>\<close>: the rows read, and how the loop ended: at the end of
  the result, because \<open>Next\<close> stopped early on an error (which only \<open>rows.Err()\<close> tells), or
  at a row that could not be scanned.
\<close>

datatype iter_end = Exhausted | NextFailed nat | ScanFailed nat

fun read_rows :: "faults \<Rightarrow> sql_op \<Rightarrow> nat \<Rightarrow> 'r list \<Rightarrow> 'r list \<times> iter_end" where
  "read_rows F q i [] = ([], if F (Next q i) then NextFailed i else Exhausted)"
| "read_rows F q i (r # rs) =
     (if F (Next q i) then ([], NextFailed i)
      else if F (Scan q i) then ([], ScanFailed i)
      else let (xs, e) = read_rows F q (Suc i) rs in (r # xs, e))"

text \<open>The loop of the list operations, which do check \<open>rows.Err()\<close> afterwards.\<close>

definition collect_rows :: "faults \<Rightarrow> sql_op \<Rightarrow> 'r list \<Rightarrow> store_error + 'r list" where
  "collect_rows F q rs =
     (if F (Query q) then Inl (DBError (Query q))
      else case read_rows F q 0 rs of
        (xs, Exhausted) \<Rightarrow> Inr xs
      | (xs, NextFailed i) \<Rightarrow> Inl (DBError (Next q i))
      | (xs, ScanFailed i) \<Rightarrow> Inl (DBError (Scan q i)))"

text \<open>\<open>SELECT COUNT(*)\<close>.\<close>

definition query_count :: "faults \<Rightarrow> sql_op \<Rightarrow> ('r \<Rightarrow> bool) \<Rightarrow> 'r list \<Rightarrow> store_error + int" where
  "query_count F q p rs =
     (if F (Query q) then Inl (DBError (Query q)) else Inr (int (count_where p rs)))"

abbreviation no_faults :: faults where
  "no_faults \<equiv> (\<lambda>_. False)"

lemma read_rows_no_faults: "(\<And>c. \<not> F c) \<Longrightarrow> read_rows F q i rs = (rs, Exhausted)"
  by (induction rs arbitrary: i) auto

lemma read_rows_prefix: "prefix (fst (read_rows F q i rs)) rs"
  by (induction rs arbitrary: i) (auto split: prod.split simp: case_prod_unfold Let_def)

lemma read_rows_exhausted: "snd (read_rows F q i rs) = Exhausted \<Longrightarrow> fst (read_rows F q i rs) = rs"
  by (induction rs arbitrary: i) (auto split: if_splits simp: case_prod_unfold Let_def)

lemma collect_rows_Inr: "collect_rows F q rs = Inr xs \<Longrightarrow> xs = rs"
  using read_rows_exhausted [of F q 0 rs]
  by (auto simp: collect_rows_def split: if_splits prod.splits iter_end.splits)

lemma collect_rows_no_faults [simp]: "collect_rows no_faults q rs = Inr rs"
  by (simp add: collect_rows_def read_rows_no_faults)

lemma query_row_Inr:
  "query_row F q nf p rs = Inr r \<Longrightarrow> find p rs = Some r"
  by (auto simp: query_row_def split: if_splits option.splits)

section \<open>The store and its life cycle (sqlite.go)\<close>

text \<open>
  \<open>schema\<close> maps a table to its columns.  \<open>NoDB\<close> is the nil handle before \<open>Init\<close>.
\<close>

datatype conn_state = NoDB | OpenDB | ClosedDB

record SQLiteStore =
  dbPath :: string
  conn :: conn_state
  schema :: "string \<Rightarrow> string list option"
  st_nodes :: "Node list"
  st_relays :: "RelayRow list"

definition NewSQLiteStore :: "string \<Rightarrow> SQLiteStore" where
  "NewSQLiteStore path =
     \<lparr>dbPath = path, conn = NoDB, schema = Map.empty, st_nodes = [], st_relays = []\<rparr>"

definition HealthCheck :: "faults \<Rightarrow> SQLiteStore \<Rightarrow> store_error option" where
  "HealthCheck F st =
     (if conn st = NoDB then Some NotInitialized
      else if conn st = ClosedDB \<or> F (Query Q_Ping) then Some (DBError (Query Q_Ping))
      else None)"

definition node_columns :: "string list" where
  "node_columns = [''id'', ''auth_key_hash'', ''name'', ''storage_reserved_gb'',
     ''storage_available_gb'', ''vpn_public_key'', ''mesh_url'', ''status'', ''created_at'',
     ''updated_at'', ''last_seen_at'', ''deleted_at'']"

definition relay_columns :: "string list" where
  "relay_columns = [''node_id'', ''url'', ''fingerprint'', ''storage_reserved_gb'',
     ''storage_available_gb'', ''replication_factor'', ''version'', ''uptime_secs'',
     ''capabilities'', ''status'', ''last_seen'', ''last_seen_at'', ''created_at'', ''updated_at'']"

text \<open>
  The \<open>ALTER TABLE ... ADD COLUMN\<close> statements: table, column, and whether the default is
  the expression \<open>(datetime('now'))\<close>.  SQLite refuses a column that exists, and refuses a
  default that is not constant when the table has rows; the code ignores these errors.
\<close>

definition alter_queries :: "(string \<times> string \<times> bool) list" where
  "alter_queries =
     [(''nodes'', ''name'', False), (''nodes'', ''storage_reserved_gb'', False),
      (''nodes'', ''storage_available_gb'', False), (''nodes'', ''vpn_public_key'', False),
      (''nodes'', ''mesh_url'', False), (''nodes'', ''status'', False),
      (''nodes'', ''last_seen_at'', False), (''nodes'', ''deleted_at'', False),
      (''relays'', ''replication_factor'', False), (''relays'', ''version'', False),
      (''relays'', ''uptime_secs'', False), (''relays'', ''capabilities'', False),
      (''relays'', ''status'', False), (''relays'', ''last_seen'', True),
      (''relays'', ''last_seen_at'', True), (''relays'', ''created_at'', True),
      (''relays'', ''updated_at'', True)]"

definition has_rows :: "SQLiteStore \<Rightarrow> string \<Rightarrow> bool" where
  "has_rows st t = (if t = ''nodes'' then st_nodes st \<noteq> [] else st_relays st \<noteq> [])"

definition alter_step :: "faults \<Rightarrow> nat \<times> string \<times> string \<times> bool \<Rightarrow> SQLiteStore \<Rightarrow> SQLiteStore" where
  "alter_step F q st =
     (let (i, t, col, computed) = q in
      if F (Exec (Q_Alter i)) then st
      else case schema st t of
        None \<Rightarrow> st
      | Some cols \<Rightarrow>
          if col \<in> set cols \<or> computed \<and> has_rows st t then st
          else st\<lparr>schema := (schema st)(t \<mapsto> cols @ [col])\<rparr>)"

definition create_table :: "string \<Rightarrow> string list \<Rightarrow> SQLiteStore \<Rightarrow> SQLiteStore" where
  "create_table t cols st =
     (if schema st t = None then st\<lparr>schema := (schema st)(t \<mapsto> cols)\<rparr> else st)"

definition has_column :: "SQLiteStore \<Rightarrow> string \<Rightarrow> string \<Rightarrow> bool" where
  "has_column st t col = (case schema st t of None \<Rightarrow> False | Some cols \<Rightarrow> col \<in> set cols)"

datatype InitError = MkdirError | OpenError | PingError store_error | SchemaError | IndexError

definition migrate :: "faults \<Rightarrow> SQLiteStore \<Rightarrow> SQLiteStore \<times> InitError option" where
  "migrate F st =
     (if F (Exec Q_Schema) then (st, Some SchemaError)
      else
        let st1 = create_table ''relays'' relay_columns (create_table ''nodes'' node_columns st);
            st2 = fold (alter_step F) (enumerate 0 alter_queries) st1
        in if F (Exec Q_Indexes) \<or> \<not> has_column st2 ''nodes'' ''auth_key_hash'' \<or>
              \<not> has_column st2 ''nodes'' ''status'' \<or> \<not> has_column st2 ''relays'' ''status'' \<or>
              \<not> has_column st2 ''relays'' ''last_seen_at''
           then (st2, Some IndexError) else (st2, None))"

text \<open>
  \<open>Init\<close>: \<open>mkdir_fails\<close> is the outcome of \<open>os.MkdirAll\<close>; after a failed check or
  migration the handle is closed but stays assigned.
\<close>

definition Init :: "faults \<Rightarrow> bool \<Rightarrow> SQLiteStore \<Rightarrow> SQLiteStore \<times> InitError option" where
  "Init F mkdir_fails st =
     (let dir = path_dir (dbPath st) in
      if dir \<noteq> [] \<and> dir \<noteq> ''.'' \<and> mkdir_fails then (st, Some MkdirError)
      else if F (Exec Q_Open) then (st, Some OpenError)
      else
        let st1 = st\<lparr>conn := OpenDB\<rparr> in
        case HealthCheck F st1 of
          Some e \<Rightarrow> (st1\<lparr>conn := ClosedDB\<rparr>, Some (PingError e))
        | None \<Rightarrow>
            (case migrate F st1 of
               (st2, Some e) \<Rightarrow> (st2\<lparr>conn := ClosedDB\<rparr>, Some e)
             | (st2, None) \<Rightarrow> (st2, None)))"

definition Close :: "SQLiteStore \<Rightarrow> SQLiteStore" where
  "Close st = (if conn st \<noteq> NoDB then st\<lparr>conn := ClosedDB\<rparr> else st)"

definition TableCount :: "faults \<Rightarrow> SQLiteStore \<Rightarrow> store_error + int" where
  "TableCount F st =
     (if conn st = NoDB then Inl NotInitialized
      else if conn st = ClosedDB \<or> F (Query Q_TableCount) then Inl (DBError (Query Q_TableCount))
      else Inr (int (length (filter (\<lambda>t. schema st t \<noteq> None) [''nodes'', ''relays'']))))"


section \<open>Lemmas and properties\<close>

lemma alter_step_present: "has_column st t col \<Longrightarrow> alter_step F (i, t, col, b) st = st"
  by (auto simp: alter_step_def has_column_def split: option.splits)

lemma alter_steps_present:
  "\<forall>(i, t, col, b)\<in>set qs. has_column st t col \<Longrightarrow> fold (alter_step F) qs st = st"
  by (induction qs) (auto simp: alter_step_present)

definition full_schema :: "SQLiteStore \<Rightarrow> bool" where
  "full_schema st \<longleftrightarrow>
     (\<forall>col\<in>set node_columns. has_column st ''nodes'' col) \<and>
     (\<forall>col\<in>set relay_columns. has_column st ''relays'' col)"

lemma alter_queries_columns:
  "\<forall>(t, col, b)\<in>set alter_queries.
     t = ''nodes'' \<and> col \<in> set node_columns \<or> t = ''relays'' \<and> col \<in> set relay_columns"
  by (simp add: alter_queries_def node_columns_def relay_columns_def)

lemma full_schema_alter:
  assumes "full_schema st" shows "fold (alter_step F) (enumerate 0 alter_queries) st = st"
proof (rule alter_steps_present, clarify)
  fix i t col b assume "(i, t, col, b) \<in> set (enumerate 0 alter_queries)"
  then have "(t, col, b) \<in> set alter_queries" by (rule in_set_enumerateD)
  with assms alter_queries_columns show "has_column st t col" by (fastforce simp: full_schema_def)
qed

lemma migrate_full:
  assumes "full_schema st" "\<not> F (Exec Q_Schema)" "\<not> F (Exec Q_Indexes)"
  shows "migrate F st = (st, None)"
proof -
  have "schema st ''nodes'' \<noteq> None" "schema st ''relays'' \<noteq> None"
    using assms(1) by (auto simp: full_schema_def has_column_def node_columns_def relay_columns_def
        split: option.splits)
  then have tabs: "create_table ''relays'' relay_columns (create_table ''nodes'' node_columns st) = st"
    by (auto simp: create_table_def)
  have "has_column st ''nodes'' ''auth_key_hash''" "has_column st ''nodes'' ''status''"
    "has_column st ''relays'' ''status''" "has_column st ''relays'' ''last_seen_at''"
    using assms(1) by (auto simp: full_schema_def node_columns_def relay_columns_def)
  with assms(2,3) show ?thesis
    by (simp add: migrate_def tabs full_schema_alter [OF assms(1)])
qed

definition created_schema :: "SQLiteStore \<Rightarrow> SQLiteStore" where
  "created_schema st = st\<lparr>schema := [''nodes'' \<mapsto> node_columns, ''relays'' \<mapsto> relay_columns]\<rparr>"

lemma migrate_fresh:
  assumes "schema st = Map.empty" "\<not> F (Exec Q_Schema)" "\<not> F (Exec Q_Indexes)"
  shows "migrate F st = (created_schema st, None)"
proof -
  have new: "create_table ''relays'' relay_columns (create_table ''nodes'' node_columns st) = created_schema st"
    using assms(1) by (simp add: create_table_def created_schema_def)
  have full: "full_schema (created_schema st)"
    by (simp add: full_schema_def created_schema_def has_column_def)
  then have "has_column (created_schema st) ''nodes'' ''auth_key_hash''"
    "has_column (created_schema st) ''nodes'' ''status''"
    "has_column (created_schema st) ''relays'' ''status''"
    "has_column (created_schema st) ''relays'' ''last_seen_at''"
    by (simp_all add: full_schema_def node_columns_def relay_columns_def)
  with assms(2,3) show ?thesis
    unfolding migrate_def new by (simp add: full_schema_alter [OF full])
qed

text \<open>\<open>Init\<close> on a new database opens the handle and creates both tables with exactly
  the columns the queries use, whatever the ignored \<open>ALTER TABLE\<close> statements do; and \<open>Init\<close>
  on a database that already has all the columns changes neither its schema nor its rows.\<close>

theorem Init_schema:
  assumes "\<not> mkdir_fails" and "\<not> F (Exec Q_Open)" and "\<not> F (Query Q_Ping)"
    and "\<not> F (Exec Q_Schema)" and "\<not> F (Exec Q_Indexes)"
  shows "(schema st = Map.empty \<longrightarrow>
      Init F mkdir_fails st = (created_schema (st\<lparr>conn := OpenDB\<rparr>), None)) \<and>
    (full_schema st \<longrightarrow> Init F mkdir_fails st = (st\<lparr>conn := OpenDB\<rparr>, None))"
proof -
  have "full_schema (st\<lparr>conn := OpenDB\<rparr>) = full_schema st"
    by (simp add: full_schema_def has_column_def)
  then show ?thesis
    using assms migrate_fresh [of "st\<lparr>conn := OpenDB\<rparr>" F] migrate_full [of "st\<lparr>conn := OpenDB\<rparr>" F]
    by (auto simp: Init_def Let_def HealthCheck_def)
qed

theorem Init_schema_witness:
  "Init no_faults False (NewSQLiteStore ''/d/coord.db'') =
     (created_schema ((NewSQLiteStore ''/d/coord.db'')\<lparr>conn := OpenDB\<rparr>), None)"
  using Init_schema [of False no_faults "NewSQLiteStore ''/d/coord.db''"]
  by (simp add: NewSQLiteStore_def)

text \<open>C29.  The upgrade of an old database can succeed and still leave a table without a column
  its queries need: SQLite refuses to add the columns whose default is \<open>(datetime('now'))\<close> to a
  table with rows, the code drops that error, and only the columns of the indexes are checked
  afterwards.  A \<open>relays\<close> table with rows and without the column \<open>last_seen\<close> stays without
  it although \<open>Init\<close> reports success.\<close>

theorem Init_upgrade_incomplete:
  assumes "schema st = [''nodes'' \<mapsto> node_columns, ''relays'' \<mapsto> remove1 ''last_seen'' relay_columns]"
    and "st_relays st \<noteq> []" and "\<not> mkdir_fails"
  shows "snd (Init no_faults mkdir_fails st) = None \<and>
    \<not> has_column (fst (Init no_faults mkdir_fails st)) ''relays'' ''last_seen''"
proof -
  let ?s = "st\<lparr>conn := OpenDB\<rparr>"
  have rel: "set (remove1 ''last_seen'' relay_columns) = set relay_columns - {''last_seen''}"
    by (rule set_remove1_eq) (simp add: relay_columns_def)
  have step: "alter_step no_faults q ?s = ?s" if q: "q \<in> set (enumerate 0 alter_queries)" for q
  proof -
    obtain i t col b where q': "q = (i, t, col, b)" by (cases q) auto
    have mem: "(t, col, b) \<in> set alter_queries"
      using q q' in_set_enumerateD by fast
    have last: "\<forall>(t, col, b)\<in>set alter_queries. t = ''relays'' \<and> col = ''last_seen'' \<longrightarrow> b"
      by (simp add: alter_queries_def)
    show ?thesis
    proof (cases "t = ''relays'' \<and> col = ''last_seen''")
      case True
      with last mem assms(2) have "b \<and> has_rows ?s t" by (auto simp: has_rows_def)
      then show ?thesis unfolding q' by (simp add: alter_step_def split: option.split)
    next
      case False
      with mem alter_queries_columns have "has_column ?s t col"
        by (auto simp: has_column_def assms(1) rel)
      then show ?thesis unfolding q' by (rule alter_step_present)
    qed
  qed
  have "fold (alter_step no_faults) qs ?s = ?s" if "set qs \<subseteq> set (enumerate 0 alter_queries)" for qs
    using that by (induction qs) (auto simp: step)
  moreover have "create_table ''relays'' relay_columns (create_table ''nodes'' node_columns ?s) = ?s"
    by (simp add: create_table_def assms(1))
  moreover have "has_column ?s ''nodes'' ''auth_key_hash''" "has_column ?s ''nodes'' ''status''"
      "has_column ?s ''relays'' ''status''" "has_column ?s ''relays'' ''last_seen_at''"
      "\<not> has_column ?s ''relays'' ''last_seen''"
    by (simp_all add: has_column_def assms(1) rel) (simp_all add: node_columns_def relay_columns_def)
  ultimately show ?thesis
    using assms(3) by (simp add: Init_def Let_def HealthCheck_def migrate_def)
qed


text \<open>Sample rows for the closed witnesses of the development.\<close>

definition sample_node :: "string \<Rightarrow> string \<Rightarrow> time \<Rightarrow> Node" where
  "sample_node i h t =
     \<lparr>Node_ID = i, Node_AuthKeyHash = h, Node_Name = ''n'', Node_StorageReservedGB = 10,
      Node_StorageAvailableGB = 20, Node_VPNPublicKey = [], Node_MeshURL = ''m:1'',
      Node_Status = ''active'', Node_CreatedAt = t, Node_UpdatedAt = t, Node_LastSeenAt = None,
      Node_DeletedAt = None\<rparr>"

definition sample_row :: "string \<Rightarrow> time \<Rightarrow> RelayRow" where
  "sample_row i t =
     \<lparr>Relay_NodeID = i, Relay_URL = ''ws://h:1'', Relay_Fingerprint = [], Relay_StorageReservedGB = 10,
      Relay_StorageAvailableGB = 20, Relay_ReplicationFactor = 1, Relay_Version = ''1'',
      Relay_UptimeSecs = 0, Relay_Capabilities = Some [], Relay_Status = ''active'',
      Relay_LastSeenAt = t, Relay_CreatedAt = t, Relay_UpdatedAt = t, Row_last_seen = t\<rparr>"

definition sample_store :: "Node list \<Rightarrow> RelayRow list \<Rightarrow> SQLiteStore" where
  "sample_store ns rs =
     \<lparr>dbPath = ''/d/coord.db'', conn = OpenDB,
      schema = [''nodes'' \<mapsto> node_columns, ''relays'' \<mapsto> relay_columns], st_nodes = ns, st_relays = rs\<rparr>"

theorem Init_upgrade_incomplete_witness:
  "let st = (sample_store [] [sample_row ''a'' 1])
       \<lparr>schema := [''nodes'' \<mapsto> node_columns, ''relays'' \<mapsto> remove1 ''last_seen'' relay_columns]\<rparr>
   in snd (Init no_faults False st) = None \<and>
      \<not> has_column (fst (Init no_faults False st)) ''relays'' ''last_seen''"
  unfolding Let_def by (rule Init_upgrade_incomplete) (simp_all add: sample_store_def)

end
