(* ===== verification/Config.thy ===== *)
theory Config
  imports Go_Std
begin

text \<open>
  Package \<open>internal/config\<close>, files \<open>schema.go\<close>, \<open>config.go\<close> and \<open>loader.go\<close>: the
  configuration record, its defaults, the environment overrides of \<open>Load\<close>, the semantic
  validation, and the functions that read and write the configuration file.  The file
  system is a map from paths to contents and modes with a fault oracle; the TOML library
  is third-party code and a parameter (\<open>toml\<close> decodes onto a configuration, \<open>enc\<close>
  encodes one).
\<close>

section \<open>The configuration (schema.go)\<close>

record ServerConfig =
  Bind :: string
  Listen :: string
  ReadTimeoutSeconds :: int
  WriteTimeoutSeconds :: int

record AuthConfig =
  AdminAPIKey :: string
  RequireAuth :: bool
  HMACSecret :: string
  PublicPaths :: "string list"

record DatabaseConfig =
  DB_Path :: string

record VPNConfig =
  Provider :: string
  Enabled :: bool
  TailscaleAPIKey :: string
  TailscaleTailnet :: string
  TailscaleTag :: string
  TailscaleKeyExpiryHours :: int
  TailscaleKeyReusable :: bool
  HeadscaleURL :: string
  HeadscaleAPIURL :: string
  HeadscaleAPIKey :: string
  HeadscaleUser :: string
  HeadscaleKeyExpiryHours :: int
  HeadscaleKeyReusable :: bool
  KeyExpiryHours :: int

record RateLimitConfig =
  RequestsPerMinute :: int
  Burst :: int
  HeartbeatRPM :: int

record LogConfig =
  Log_Level :: string
  Log_Format :: string

record JobsConfig =
  CleanupRelaysIntervalSeconds :: int
  CleanupNodesIntervalSeconds :: int
  StatsRefreshIntervalSeconds :: int
  NodeInactiveThresholdHours :: int

record RegistryConfig =
  RelayTTLSeconds :: int
  DiscoveryCacheTTLSeconds :: int
  MaxRelaysPerResponse :: int
  OnlineThresholdSeconds :: int

record Config =
  cfg_Server :: ServerConfig
  cfg_Auth :: AuthConfig
  cfg_Database :: DatabaseConfig
  cfg_VPN :: VPNConfig
  cfg_RateLimit :: RateLimitConfig
  cfg_Log :: LogConfig
  cfg_Jobs :: JobsConfig
  cfg_Registry :: RegistryConfig

definition Defaults :: Config where
  "Defaults =
    \<lparr>cfg_Server = \<lparr>Bind = ''0.0.0.0:8080'', Listen = ''0.0.0.0:8080'',
        ReadTimeoutSeconds = 15, WriteTimeoutSeconds = 15\<rparr>,
     cfg_Auth = \<lparr>AdminAPIKey = [], RequireAuth = True, HMACSecret = [],
        PublicPaths = [''/health'', ''/info'', ''/metrics'']\<rparr>,
     cfg_Database = \<lparr>DB_Path = ''/var/lib/goy-coord/coord.db''\<rparr>,
     cfg_VPN = \<lparr>Provider = [], Enabled = False, TailscaleAPIKey = [], TailscaleTailnet = [],
        TailscaleTag = [], TailscaleKeyExpiryHours = 24, TailscaleKeyReusable = False,
        HeadscaleURL = [], HeadscaleAPIURL = [], HeadscaleAPIKey = [],
        HeadscaleUser = ''goy-nodes'', HeadscaleKeyExpiryHours = 24,
        HeadscaleKeyReusable = False, KeyExpiryHours = 168\<rparr>,
     cfg_RateLimit = \<lparr>RequestsPerMinute = 60, Burst = 30, HeartbeatRPM = 120\<rparr>,
     cfg_Log = \<lparr>Log_Level = ''info'', Log_Format = ''json''\<rparr>,
     cfg_Jobs = \<lparr>CleanupRelaysIntervalSeconds = 60, CleanupNodesIntervalSeconds = 300,
        StatsRefreshIntervalSeconds = 30, NodeInactiveThresholdHours = 24\<rparr>,
     cfg_Registry = \<lparr>RelayTTLSeconds = 300, DiscoveryCacheTTLSeconds = 15,
        MaxRelaysPerResponse = 100, OnlineThresholdSeconds = 180\<rparr>\<rparr>"

definition DefaultConfig :: Config where
  "DefaultConfig = Defaults"

text \<open>The constants of \<open>config.go\<close> that other packages read.\<close>

definition DefaultListen :: string where "DefaultListen = ''0.0.0.0:8080''"
definition DefaultDBPath :: string where "DefaultDBPath = ''/var/lib/goy-coord/coord.db''"
definition DefaultOnlineThresholdSeconds :: int where "DefaultOnlineThresholdSeconds = 180"
definition DefaultPublicPaths :: "string list" where
  "DefaultPublicPaths = [''/health'', ''/info'', ''/metrics'']"

section \<open>Validation\<close>

datatype ConfigError =
    ErrListenInvalid
  | ErrBindInvalid
  | ErrAdminKeyEmpty
  | ErrDBPathNotAbsolute
  | ErrVPNProvider
  | ErrTailscaleKeyRequired
  | ErrTailnetRequired
  | ErrHeadscaleURLRequired
  | ErrHeadscaleKeyRequired
  | ErrRateLimitNotPositive
  | ErrLogLevel
  | ErrLogFormat

definition blank :: "string \<Rightarrow> bool" where
  "blank s \<longleftrightarrow> TrimSpace s = []"

definition bind_addr :: "ServerConfig \<Rightarrow> string" where
  "bind_addr s =
     (if Bind s = [] \<or>
         (Listen s \<noteq> [] \<and> Listen s \<noteq> ''0.0.0.0:8080'' \<and> Bind s = ''0.0.0.0:8080'')
      then Listen s else Bind s)"

definition headscale_url :: "VPNConfig \<Rightarrow> string" where
  "headscale_url v = (if HeadscaleURL v = [] then HeadscaleAPIURL v else HeadscaleURL v)"

definition Validate :: "Config \<Rightarrow> ConfigError option" where
  "Validate c =
    (let s = cfg_Server c; a = cfg_Auth c; v = cfg_VPN c; addr = bind_addr s in
     if Listen s \<noteq> [] \<and> Listen s \<noteq> addr \<and> SplitHostPort (Listen s) = None
       then Some ErrListenInvalid
     else if SplitHostPort addr = None then Some ErrBindInvalid
     else if RequireAuth a \<and> blank (AdminAPIKey a) then Some ErrAdminKeyEmpty
     else if \<not> IsAbs (DB_Path (cfg_Database c)) then Some ErrDBPathNotAbsolute
     else if Provider v \<notin> {[], ''tailscale'', ''headscale''} then Some ErrVPNProvider
     else if Provider v = ''tailscale'' \<and> blank (TailscaleAPIKey v) then Some ErrTailscaleKeyRequired
     else if Provider v = ''tailscale'' \<and> blank (TailscaleTailnet v) then Some ErrTailnetRequired
     else if Provider v = ''headscale'' \<and> blank (headscale_url v) then Some ErrHeadscaleURLRequired
     else if Provider v = ''headscale'' \<and> blank (HeadscaleAPIKey v) then Some ErrHeadscaleKeyRequired
     else if RequestsPerMinute (cfg_RateLimit c) \<le> 0 then Some ErrRateLimitNotPositive
     else if Log_Level (cfg_Log c) \<notin> {''trace'', ''debug'', ''info'', ''warn'', ''error''}
       then Some ErrLogLevel
     else if Log_Format (cfg_Log c) \<notin> {''pretty'', ''json''} then Some ErrLogFormat
     else None)"

section \<open>applyDefaults (config.go)\<close>

definition default_addresses :: "ServerConfig \<Rightarrow> ServerConfig" where
  "default_addresses s =
     (if Bind s = [] \<and> Listen s = [] then s\<lparr>Bind := DefaultListen, Listen := DefaultListen\<rparr>
      else if Bind s = [] then s\<lparr>Bind := Listen s\<rparr>
      else if Listen s = [] then s\<lparr>Listen := Bind s\<rparr>
      else s)"

definition or_default :: "int \<Rightarrow> int \<Rightarrow> int" where
  "or_default d x = (if x \<le> 0 then d else x)"

definition or_string :: "string \<Rightarrow> string \<Rightarrow> string" where
  "or_string d x = (if x = [] then d else x)"

definition applyDefaults :: "Config \<Rightarrow> Config" where
  "applyDefaults c =
     c\<lparr>cfg_Server := (let s = default_addresses (cfg_Server c) in
          s\<lparr>ReadTimeoutSeconds := or_default 15 (ReadTimeoutSeconds s),
            WriteTimeoutSeconds := or_default 15 (WriteTimeoutSeconds s)\<rparr>),
       cfg_Database := (cfg_Database c)\<lparr>DB_Path := or_string DefaultDBPath (DB_Path (cfg_Database c))\<rparr>,
       cfg_Auth := (cfg_Auth c)\<lparr>PublicPaths :=
          (if length (PublicPaths (cfg_Auth c)) = 0 then DefaultPublicPaths
           else PublicPaths (cfg_Auth c))\<rparr>,
       cfg_VPN := (let v = cfg_VPN c in
          v\<lparr>TailscaleKeyExpiryHours := or_default 24 (TailscaleKeyExpiryHours v),
            HeadscaleUser := or_string ''goy-nodes'' (HeadscaleUser v),
            HeadscaleKeyExpiryHours := or_default 24 (HeadscaleKeyExpiryHours v)\<rparr>),
       cfg_RateLimit := (let r = cfg_RateLimit c in
          r\<lparr>RequestsPerMinute := or_default 60 (RequestsPerMinute r),
            Burst := or_default 30 (Burst r),
            HeartbeatRPM := or_default 120 (HeartbeatRPM r)\<rparr>),
       cfg_Jobs := (let j = cfg_Jobs c in
          j\<lparr>CleanupRelaysIntervalSeconds := or_default 60 (CleanupRelaysIntervalSeconds j),
            CleanupNodesIntervalSeconds := or_default 300 (CleanupNodesIntervalSeconds j),
            StatsRefreshIntervalSeconds := or_default 30 (StatsRefreshIntervalSeconds j),
            NodeInactiveThresholdHours := or_default 24 (NodeInactiveThresholdHours j)\<rparr>),
       cfg_Registry := (let r = cfg_Registry c in
          r\<lparr>RelayTTLSeconds := or_default 300 (RelayTTLSeconds r),
            DiscoveryCacheTTLSeconds := or_default 15 (DiscoveryCacheTTLSeconds r),
            MaxRelaysPerResponse := or_default 100 (MaxRelaysPerResponse r),
            OnlineThresholdSeconds := or_default 180 (OnlineThresholdSeconds r)\<rparr>),
       cfg_Log := (let l = cfg_Log c in
          l\<lparr>Log_Level := or_string ''info'' (Log_Level l),
            Log_Format := or_string ''json'' (Log_Format l)\<rparr>)\<rparr>"


section \<open>Environment overrides of Load (config.go)\<close>

text \<open>
  \<open>env\<close> is \<open>os.Getenv\<close>: the empty string for an unset variable.  The three kinds of
  override of the code: a string, a flag (\<open>"true"\<close> or \<open>"1"\<close>), and a number that is
  taken only when it parses and is positive.
\<close>

definition env_string :: "(string \<Rightarrow> string) \<Rightarrow> string \<Rightarrow> (string \<Rightarrow> Config \<Rightarrow> Config) \<Rightarrow> Config \<Rightarrow> Config" where
  "env_string env name put c = (if env name \<noteq> [] then put (env name) c else c)"

definition env_flag :: "(string \<Rightarrow> string) \<Rightarrow> string \<Rightarrow> (bool \<Rightarrow> Config \<Rightarrow> Config) \<Rightarrow> Config \<Rightarrow> Config" where
  "env_flag env name put c =
     (if env name \<noteq> [] then put (env name = ''true'' \<or> env name = ''1'') c else c)"

definition env_positive :: "(string \<Rightarrow> string) \<Rightarrow> string \<Rightarrow> (int \<Rightarrow> Config \<Rightarrow> Config) \<Rightarrow> Config \<Rightarrow> Config" where
  "env_positive env name put c =
     (if env name \<noteq> [] then
        (case Atoi (env name) of Some v \<Rightarrow> if v > 0 then put v c else c | None \<Rightarrow> c)
      else c)"

definition env_server_auth :: "(string \<Rightarrow> string) \<Rightarrow> (Config \<Rightarrow> Config) list" where
  "env_server_auth env =
    [env_string env ''COORD_LISTEN'' (\<lambda>v. cfg_Server_update (\<lambda>s. s\<lparr>Listen := v, Bind := v\<rparr>)),
     env_string env ''COORD_DB_PATH'' (\<lambda>v. cfg_Database_update (\<lambda>d. d\<lparr>DB_Path := v\<rparr>)),
     env_flag env ''COORD_REQUIRE_AUTH'' (\<lambda>b. cfg_Auth_update (\<lambda>a. a\<lparr>RequireAuth := b\<rparr>)),
     env_string env ''COORD_ADMIN_API_KEY'' (\<lambda>v. cfg_Auth_update (\<lambda>a. a\<lparr>AdminAPIKey := v\<rparr>)),
     env_string env ''COORD_AUTH_SECRET'' (\<lambda>v. cfg_Auth_update (\<lambda>a. a\<lparr>HMACSecret := v\<rparr>))]"

definition env_vpn :: "(string \<Rightarrow> string) \<Rightarrow> (Config \<Rightarrow> Config) list" where
  "env_vpn env =
    [env_flag env ''COORD_VPN_ENABLED'' (\<lambda>b. cfg_VPN_update (\<lambda>x. x\<lparr>Enabled := b\<rparr>)),
     env_string env ''COORD_VPN_PROVIDER'' (\<lambda>v. cfg_VPN_update (\<lambda>x. x\<lparr>Provider := v\<rparr>)),
     env_string env ''COORD_TAILSCALE_API_KEY'' (\<lambda>v. cfg_VPN_update (\<lambda>x. x\<lparr>TailscaleAPIKey := v\<rparr>)),
     env_string env ''COORD_TAILSCALE_TAILNET'' (\<lambda>v. cfg_VPN_update (\<lambda>x. x\<lparr>TailscaleTailnet := v\<rparr>)),
     env_string env ''COORD_TAILSCALE_TAG'' (\<lambda>v. cfg_VPN_update (\<lambda>x. x\<lparr>TailscaleTag := v\<rparr>)),
     env_positive env ''COORD_TAILSCALE_KEY_EXPIRY_HOURS''
       (\<lambda>n. cfg_VPN_update (\<lambda>x. x\<lparr>TailscaleKeyExpiryHours := n\<rparr>)),
     env_flag env ''COORD_TAILSCALE_KEY_REUSABLE''
       (\<lambda>b. cfg_VPN_update (\<lambda>x. x\<lparr>TailscaleKeyReusable := b\<rparr>)),
     env_string env ''COORD_HEADSCALE_API_URL''
       (\<lambda>v. cfg_VPN_update (\<lambda>x. x\<lparr>HeadscaleAPIURL := v, HeadscaleURL := v\<rparr>)),
     env_string env ''COORD_HEADSCALE_API_KEY'' (\<lambda>v. cfg_VPN_update (\<lambda>x. x\<lparr>HeadscaleAPIKey := v\<rparr>)),
     env_string env ''COORD_HEADSCALE_USER'' (\<lambda>v. cfg_VPN_update (\<lambda>x. x\<lparr>HeadscaleUser := v\<rparr>)),
     env_positive env ''COORD_HEADSCALE_KEY_EXPIRY_HOURS''
       (\<lambda>n. cfg_VPN_update (\<lambda>x. x\<lparr>HeadscaleKeyExpiryHours := n\<rparr>)),
     env_flag env ''COORD_HEADSCALE_KEY_REUSABLE''
       (\<lambda>b. cfg_VPN_update (\<lambda>x. x\<lparr>HeadscaleKeyReusable := b\<rparr>))]"

definition env_limits :: "(string \<Rightarrow> string) \<Rightarrow> (Config \<Rightarrow> Config) list" where
  "env_limits env =
    [env_positive env ''COORD_RATE_LIMIT_RPM''
       (\<lambda>n. cfg_RateLimit_update (\<lambda>r. r\<lparr>RequestsPerMinute := n\<rparr>)),
     env_positive env ''COORD_CLEANUP_RELAYS_INTERVAL''
       (\<lambda>n. cfg_Jobs_update (\<lambda>j. j\<lparr>CleanupRelaysIntervalSeconds := n\<rparr>)),
     env_positive env ''COORD_CLEANUP_NODES_INTERVAL''
       (\<lambda>n. cfg_Jobs_update (\<lambda>j. j\<lparr>CleanupNodesIntervalSeconds := n\<rparr>)),
     env_positive env ''COORD_STATS_REFRESH_INTERVAL''
       (\<lambda>n. cfg_Jobs_update (\<lambda>j. j\<lparr>StatsRefreshIntervalSeconds := n\<rparr>)),
     env_positive env ''COORD_NODE_INACTIVE_THRESHOLD_HOURS''
       (\<lambda>n. cfg_Jobs_update (\<lambda>j. j\<lparr>NodeInactiveThresholdHours := n\<rparr>)),
     env_positive env ''COORD_RELAY_TTL''
       (\<lambda>n. cfg_Registry_update (\<lambda>r. r\<lparr>RelayTTLSeconds := n\<rparr>)),
     env_positive env ''COORD_DISCOVERY_CACHE_TTL''
       (\<lambda>n. cfg_Registry_update (\<lambda>r. r\<lparr>DiscoveryCacheTTLSeconds := n\<rparr>)),
     env_positive env ''COORD_ONLINE_THRESHOLD_SECS''
       (\<lambda>n. cfg_Registry_update (\<lambda>r. r\<lparr>OnlineThresholdSeconds := n\<rparr>)),
     env_string env ''COORD_LOG_LEVEL'' (\<lambda>v. cfg_Log_update (\<lambda>l. l\<lparr>Log_Level := v\<rparr>)),
     env_string env ''COORD_LOG_FORMAT'' (\<lambda>v. cfg_Log_update (\<lambda>l. l\<lparr>Log_Format := v\<rparr>))]"

definition applyEnvOverrides :: "(string \<Rightarrow> string) \<Rightarrow> Config \<Rightarrow> Config" where
  "applyEnvOverrides env c =
     fold (\<lambda>f c. f c) (env_server_auth env @ env_vpn env @ env_limits env) c"

section \<open>The configuration file (loader.go)\<close>

datatype fs_call = Stat string | ReadFile string | MkdirAll string | WriteFile string

type_synonym fs = "string \<Rightarrow> (string \<times> nat) option"

definition DefaultConfigPath :: "string option \<Rightarrow> string \<Rightarrow> string" where
  "DefaultConfigPath configDir home =
     (case configDir of
        None \<Rightarrow> path_join [home, ''.config'', ''goy-coord'', ''config.toml'']
      | Some d \<Rightarrow> path_join [d, ''goy-coord'', ''config.toml''])"

datatype LoadError =
    ConfigNotFound string
  | ConfigUnreadable string
  | ConfigUnparsable string
  | ConfigInvalid ConfigError

definition Load ::
  "(string \<Rightarrow> Config \<Rightarrow> Config option) \<Rightarrow> (string \<Rightarrow> string) \<Rightarrow> (fs_call \<Rightarrow> bool) \<Rightarrow> string \<Rightarrow> fs \<Rightarrow> string
    \<Rightarrow> LoadError + Config" where
  "Load toml env fails dflt disk path0 =
     (let path = (if path0 = [] then dflt else path0) in
      if fails (ReadFile path) then Inl (ConfigUnreadable path)
      else case disk path of
        None \<Rightarrow> Inl (ConfigNotFound path)
      | Some (content, _) \<Rightarrow>
          (case toml content Defaults of
             None \<Rightarrow> Inl (ConfigUnparsable path)
           | Some c \<Rightarrow>
               let c' = applyEnvOverrides env c in
               (case Validate c' of Some e \<Rightarrow> Inl (ConfigInvalid e) | None \<Rightarrow> Inr c')))"

datatype WriteError = MkdirFailed | SerializeFailed | WriteFailed

text \<open>Modes are octal in the source: \<open>0o600 = 384\<close>, \<open>0644 = 420\<close>.\<close>

definition GenerateDefault ::
  "string \<Rightarrow> string \<Rightarrow> (fs_call \<Rightarrow> bool) \<Rightarrow> string \<Rightarrow> fs \<Rightarrow> string \<Rightarrow> fs \<times> WriteError option" where
  "GenerateDefault embedded template fails dflt disk path0 =
     (let path = (if path0 = [] then dflt else path0);
          content = (if embedded = [] then template else embedded) in
      if fails (MkdirAll path) then (disk, Some MkdirFailed)
      else if fails (WriteFile path) then (disk, Some WriteFailed)
      else (disk(path \<mapsto> (content, 384)), None))"

definition config_header :: string where
  "config_header = ''# Goy Coord-Server Configuration'' @ CHR 0x0A #
     ''# Auto-generated on first run.'' @ CHR 0x0A #
     ''# Edit manually or re-run with flags to update.'' @ [CHR 0x0A, CHR 0x0A]"

definition WriteConfig ::
  "(Config \<Rightarrow> string option) \<Rightarrow> (fs_call \<Rightarrow> bool) \<Rightarrow> fs \<Rightarrow> string \<Rightarrow> Config \<Rightarrow> fs \<times> WriteError option" where
  "WriteConfig enc fails disk path c =
     (if fails (MkdirAll path) then (disk, Some MkdirFailed)
      else case enc c of
        None \<Rightarrow> (disk, Some SerializeFailed)
      | Some body \<Rightarrow>
          if fails (WriteFile path) then (disk, Some WriteFailed)
          else (disk(path \<mapsto> (config_header @ body, 384)), None))"


text \<open>The older generator of \<open>config.go\<close>, which nothing calls: mode \<open>0644\<close>.\<close>

definition generateDefaultConfigFile ::
  "string \<Rightarrow> (fs_call \<Rightarrow> bool) \<Rightarrow> fs \<Rightarrow> string \<Rightarrow> fs \<times> WriteError option" where
  "generateDefaultConfigFile template fails disk path =
     (if fails (MkdirAll path) then (disk, Some MkdirFailed)
      else if fails (WriteFile path) then (disk, Some WriteFailed)
      else (disk(path \<mapsto> (template, 420)), None))"

section \<open>Lemmas\<close>

text \<open>What a validated configuration promises, stated apart from the order of the checks.\<close>

definition well_configured :: "Config \<Rightarrow> bool" where
  "well_configured c \<longleftrightarrow>
     SplitHostPort (bind_addr (cfg_Server c)) \<noteq> None \<and>
     (Listen (cfg_Server c) \<noteq> [] \<longrightarrow> SplitHostPort (Listen (cfg_Server c)) \<noteq> None) \<and>
     (RequireAuth (cfg_Auth c) \<longrightarrow> \<not> blank (AdminAPIKey (cfg_Auth c))) \<and>
     IsAbs (DB_Path (cfg_Database c)) \<and>
     (Provider (cfg_VPN c) = [] \<or>
      Provider (cfg_VPN c) = ''tailscale'' \<and> \<not> blank (TailscaleAPIKey (cfg_VPN c)) \<and>
        \<not> blank (TailscaleTailnet (cfg_VPN c)) \<or>
      Provider (cfg_VPN c) = ''headscale'' \<and> \<not> blank (headscale_url (cfg_VPN c)) \<and>
        \<not> blank (HeadscaleAPIKey (cfg_VPN c))) \<and>
     0 < RequestsPerMinute (cfg_RateLimit c) \<and>
     Log_Level (cfg_Log c) \<in> {''trace'', ''debug'', ''info'', ''warn'', ''error''} \<and>
     Log_Format (cfg_Log c) \<in> {''pretty'', ''json''}"

lemma Validate_well_configured: "Validate c = None \<longleftrightarrow> well_configured c"
proof -
  have addr: "Listen s \<noteq> [] \<and> Listen s \<noteq> bind_addr s \<and> SplitHostPort (Listen s) = None \<or>
      SplitHostPort (bind_addr s) = None \<longleftrightarrow>
      \<not> (SplitHostPort (bind_addr s) \<noteq> None \<and>
        (Listen s \<noteq> [] \<longrightarrow> SplitHostPort (Listen s) \<noteq> None))" for s
    by metis
  have strs: "''headscale'' \<noteq> ''tailscale''" "([]::string) \<noteq> ''tailscale''" by simp_all
  show ?thesis
    unfolding Validate_def well_configured_def Let_def
    using addr [of "cfg_Server c"] strs by (auto simp del: insert_iff simp: insert_iff [of "Provider _"])
qed

lemma blank_Nil [simp]: "blank []"
  by (simp add: blank_def)

lemma trimmed_not_blank: "trimmed s \<Longrightarrow> blank s \<longleftrightarrow> s = []"
  by (simp add: blank_def)

text \<open>All the limits a configuration carries are positive.\<close>

definition positive_limits :: "Config \<Rightarrow> bool" where
  "positive_limits c \<longleftrightarrow>
     0 < RequestsPerMinute (cfg_RateLimit c) \<and> 0 < Burst (cfg_RateLimit c) \<and>
     0 < HeartbeatRPM (cfg_RateLimit c) \<and>
     0 < CleanupRelaysIntervalSeconds (cfg_Jobs c) \<and> 0 < CleanupNodesIntervalSeconds (cfg_Jobs c) \<and>
     0 < StatsRefreshIntervalSeconds (cfg_Jobs c) \<and> 0 < NodeInactiveThresholdHours (cfg_Jobs c) \<and>
     0 < RelayTTLSeconds (cfg_Registry c) \<and> 0 < DiscoveryCacheTTLSeconds (cfg_Registry c) \<and>
     0 < MaxRelaysPerResponse (cfg_Registry c) \<and> 0 < OnlineThresholdSeconds (cfg_Registry c) \<and>
     0 < TailscaleKeyExpiryHours (cfg_VPN c) \<and> 0 < HeadscaleKeyExpiryHours (cfg_VPN c) \<and>
     0 < ReadTimeoutSeconds (cfg_Server c) \<and> 0 < WriteTimeoutSeconds (cfg_Server c)"

lemma or_default_pos [simp]: "0 < d \<Longrightarrow> 0 < or_default d x"
  by (simp add: or_default_def)

lemma or_default_id [simp]: "0 < x \<Longrightarrow> or_default d x = x"
  by (simp add: or_default_def)

lemma or_string_nonempty [simp]: "d \<noteq> [] \<Longrightarrow> or_string d x \<noteq> []"
  by (simp add: or_string_def)

lemma or_string_id [simp]: "x \<noteq> [] \<Longrightarrow> or_string d x = x"
  by (simp add: or_string_def)

lemma default_addresses_nonempty:
  "Bind (default_addresses s) \<noteq> [] \<and> Listen (default_addresses s) \<noteq> []"
  by (simp add: default_addresses_def DefaultListen_def)

lemma default_addresses_id [simp]: "Bind s \<noteq> [] \<Longrightarrow> Listen s \<noteq> [] \<Longrightarrow> default_addresses s = s"
  by (simp add: default_addresses_def)

lemma positive_limits_applyDefaults: "positive_limits (applyDefaults c)"
  by (simp add: positive_limits_def applyDefaults_def Let_def)

lemma applyDefaults_idem: "applyDefaults (applyDefaults c) = applyDefaults c"
  using default_addresses_nonempty [of "cfg_Server c"]
  by (simp add: applyDefaults_def Let_def DefaultDBPath_def DefaultPublicPaths_def)


lemma positive_env_step:
  assumes "\<And>n. 0 < n \<Longrightarrow> positive_limits c \<Longrightarrow> positive_limits (put n c)" "positive_limits c"
  shows "positive_limits (env_positive env name put c)"
  using assms by (auto simp: env_positive_def split: option.split)

lemma fold_invariant:
  assumes "\<And>f c. f \<in> set fs \<Longrightarrow> P c \<Longrightarrow> P (f c)" "P c"
  shows "P (fold (\<lambda>f c. f c) fs c)"
  using assms by (induction fs arbitrary: c) auto

lemma positive_limits_applyEnvOverrides:
  assumes "positive_limits c"
  shows "positive_limits (applyEnvOverrides env c)"
  unfolding applyEnvOverrides_def
proof (rule fold_invariant [where P = positive_limits, OF _ assms])
  fix f c assume "f \<in> set (env_server_auth env @ env_vpn env @ env_limits env)" "positive_limits c"
  then show "positive_limits (f c)"
    unfolding env_server_auth_def env_vpn_def env_limits_def
    by (auto intro!: positive_env_step simp: env_string_def env_flag_def)
      (auto simp: positive_limits_def)
qed

lemma positive_limits_Defaults: "positive_limits Defaults"
  by (simp add: positive_limits_def Defaults_def)

section \<open>Properties\<close>


text \<open>\<open>Load\<close> returns only well-formed configurations, whatever the file, the
  environment and the TOML library deliver; and when the file keeps the limits positive, no
  environment variable can make one of them zero or negative.\<close>

theorem Load_returns_valid:
  assumes "Load toml env fails dflt disk path = Inr c"
  shows "well_configured c \<and>
    (\<exists>content mode c0. disk (if path = [] then dflt else path) = Some (content, mode) \<and>
      toml content Defaults = Some c0 \<and> (positive_limits c0 \<longrightarrow> positive_limits c))"
  using assms
  by (auto simp: Load_def Let_def Validate_well_configured [symmetric]
      positive_limits_applyEnvOverrides split: if_splits option.splits)

definition test_cfg :: Config where
  "test_cfg = cfg_Auth_update (\<lambda>a. a\<lparr>AdminAPIKey := ''k''\<rparr>) Defaults"

lemma well_configured_test: "well_configured test_cfg"
  by code_simp

lemma applyEnvOverrides_none: "applyEnvOverrides (\<lambda>_. []) c = c"
  by (simp add: applyEnvOverrides_def env_server_auth_def env_vpn_def env_limits_def
      env_string_def env_flag_def env_positive_def)

lemma Load_test:
  "Load (\<lambda>_ _. Some test_cfg) (\<lambda>_. []) (\<lambda>_. False) ''/d'' [''/c'' \<mapsto> (''x'', 384)] ''/c'' = Inr test_cfg"
  using well_configured_test
  by (simp add: Load_def applyEnvOverrides_none Validate_well_configured [symmetric])

theorem Load_returns_valid_witness:
  "Load (\<lambda>_ _. Some test_cfg) (\<lambda>_. []) (\<lambda>_. False) ''/d'' [''/c'' \<mapsto> (''x'', 384)] ''/c'' = Inr test_cfg \<and>
   well_configured test_cfg"
  using Load_returns_valid [OF Load_test] Load_test by blast

text \<open>\<open>applyDefaults\<close> makes every limit positive and both addresses nonempty,
  changes nothing a second time, and leaves the default configuration as it is.\<close>

theorem applyDefaults_correct:
  "positive_limits (applyDefaults c) \<and>
   Bind (cfg_Server (applyDefaults c)) \<noteq> [] \<and> Listen (cfg_Server (applyDefaults c)) \<noteq> [] \<and>
   applyDefaults (applyDefaults c) = applyDefaults c \<and>
   applyDefaults Defaults = Defaults"
proof -
  have "Bind (cfg_Server (applyDefaults c)) \<noteq> []" "Listen (cfg_Server (applyDefaults c)) \<noteq> []"
    using default_addresses_nonempty [of "cfg_Server c"]
    by (simp_all add: applyDefaults_def Let_def)
  moreover have "applyDefaults Defaults = Defaults"
    by (simp add: applyDefaults_def Defaults_def Let_def)
  ultimately show ?thesis
    using positive_limits_applyDefaults applyDefaults_idem by blast
qed

end
