(* ===== verification/Metrics.thy ===== *)
theory Metrics
  imports Go_Std
begin

text \<open>
  Package \<open>internal/metrics\<close> and \<open>middleware/metrics.go\<close>: the counters and gauges as a record
  (a Prometheus vector is a map from its label values), the path normalisation that bounds the
  label values, and the middleware that counts the requests.  A histogram is the list of what was
  observed, newest first; its buckets are Prometheus' work.
\<close>

section \<open>State\<close>

record Metrics =
  HTTPRequestsTotal :: "string \<times> string \<times> string \<Rightarrow> nat"
  HTTPRequestDuration :: "string \<times> string \<Rightarrow> duration list"
  NodesTotal :: "string \<rightharpoonup> int"
  RelaysActiveTotal :: int
  VPNKeysGeneratedTotal :: nat
  VPNErrorsTotal :: nat
  AuthFailuresTotal :: nat
  RateLimitRejectedTotal :: nat
  DBQueryDuration :: "string \<Rightarrow> duration list"

definition initial_metrics :: Metrics where
  "initial_metrics =
     \<lparr>HTTPRequestsTotal = (\<lambda>_. 0), HTTPRequestDuration = (\<lambda>_. []), NodesTotal = Map.empty, RelaysActiveTotal = 0,
      VPNKeysGeneratedTotal = 0, VPNErrorsTotal = 0, AuthFailuresTotal = 0, RateLimitRejectedTotal = 0,
      DBQueryDuration = (\<lambda>_. [])\<rparr>"

definition inc_VPNKeys :: "Metrics \<Rightarrow> Metrics" where
  "inc_VPNKeys m = m\<lparr>VPNKeysGeneratedTotal := Suc (VPNKeysGeneratedTotal m)\<rparr>"

definition inc_VPNErrors :: "Metrics \<Rightarrow> Metrics" where
  "inc_VPNErrors m = m\<lparr>VPNErrorsTotal := Suc (VPNErrorsTotal m)\<rparr>"

definition inc_AuthFailures :: "Metrics \<Rightarrow> Metrics" where
  "inc_AuthFailures m = m\<lparr>AuthFailuresTotal := Suc (AuthFailuresTotal m)\<rparr>"

definition inc_RateLimitRejected :: "Metrics \<Rightarrow> Metrics" where
  "inc_RateLimitRejected m = m\<lparr>RateLimitRejectedTotal := Suc (RateLimitRejectedTotal m)\<rparr>"

section \<open>NormalizePath\<close>

text \<open>The loop over the segments; \<open>prev\<close> is the segment before, \<open>None\<close> at the first.\<close>

fun norm_parts :: "string option \<Rightarrow> string list \<Rightarrow> string list" where
  "norm_parts prev [] = []"
| "norm_parts prev (part # parts) =
     (if part = [] then (if prev = None then [[]] else [])
      else if (prev = Some ''nodes'' \<or> prev = Some ''relays'') \<and> part \<noteq> ''register'' \<and> part \<noteq> ''status''
      then ['':id''] else [part]) @ norm_parts (Some part) parts"

definition NormalizePath :: "string \<Rightarrow> string" where
  "NormalizePath path =
     (if path = [] \<or> path = ''/'' then ''/''
      else let res = Join CHR ''/'' (norm_parts None (Split CHR ''/'' path))
           in if res = [] then ''/'' else res)"

text \<open>The middleware: the request has been served with \<open>status\<close>, in the time \<open>elapsed\<close>.\<close>

definition MetricsMiddleware :: "string \<Rightarrow> string \<Rightarrow> int \<Rightarrow> duration \<Rightarrow> Metrics \<Rightarrow> Metrics" where
  "MetricsMiddleware meth path status elapsed m =
     (let normPath = NormalizePath path; k = (meth, normPath, Itoa status); h = (meth, normPath)
      in m\<lparr>HTTPRequestsTotal := (HTTPRequestsTotal m)(k := Suc (HTTPRequestsTotal m k)),
           HTTPRequestDuration := (HTTPRequestDuration m)(h := elapsed # HTTPRequestDuration m h)\<rparr>)"

section \<open>Properties\<close>

definition segment :: "string \<Rightarrow> bool" where
  "segment x \<longleftrightarrow> x \<noteq> [] \<and> CHR ''/'' \<notin> set x"

lemma Split_segment: "segment x \<Longrightarrow> Split CHR ''/'' x = [x]"
  by (simp add: segment_def Split_single)

text \<open>The paths of the router, by the identifier in them.\<close>

definition route_paths :: "string \<Rightarrow> string list" where
  "route_paths i = [''/health'', ''/info'', ''/metrics'', ''/v1/nodes/register'',
     ''/v1/nodes/'' @ i, ''/v1/nodes/'' @ i @ ''/status'', ''/v1/vpn/status'', ''/v1/relays/'' @ i,
     ''/relays'', ''/relays/'', ''/relays/'' @ i]"

definition route_labels :: "string list" where
  "route_labels = [''/health'', ''/info'', ''/metrics'', ''/v1/nodes/register'', ''/v1/nodes/:id'',
     ''/v1/nodes/:id/status'', ''/v1/vpn/status'', ''/v1/relays/:id'', ''/relays'', ''/relays'',
     ''/relays/:id'']"

text \<open>C40.  The label of a routed path does not depend on the identifier in it: whatever node or
  relay identifiers clients send (other than the reserved words \<open>register\<close>, \<open>status\<close>, \<open>nodes\<close>
  and \<open>relays\<close>), the routes produce the same ten labels, and these are fixed points.  A doubled
  slash before the identifier defeats the normalisation: the identifier becomes the label, so the
  number of labels is not bounded over all requests, and normalising is not idempotent.\<close>

theorem NormalizePath_labels:
  assumes "segment i" and "i \<noteq> ''register''" "i \<noteq> ''status''" "i \<noteq> ''nodes''" "i \<noteq> ''relays''"
  shows "map NormalizePath (route_paths i) = route_labels \<and>
    map NormalizePath route_labels = route_labels \<and>
    NormalizePath (''/relays//'' @ i) = ''/relays/'' @ i \<and>
    NormalizePath (NormalizePath (''/relays//'' @ i)) = ''/relays/:id''"
proof -
  have s1: "Split CHR ''/'' i = [i]" using assms(1) by (rule Split_segment)
  have s2: "Split CHR ''/'' (i @ ''/status'') = [i, ''status'']"
    using assms(1) Split_append_sep [of "CHR ''/''" i "''status''"] by (simp add: segment_def)
  have ne: "i \<noteq> []" using assms(1) by (simp add: segment_def)
  show ?thesis
    using assms(2-5) ne
    by (simp add: route_paths_def route_labels_def NormalizePath_def Let_def s1 s2)
qed

theorem NormalizePath_labels_witness:
  "segment ''goy-node-1'' \<and> NormalizePath ''/v1/relays/goy-node-1'' = ''/v1/relays/:id'' \<and>
   NormalizePath ''/relays//goy-node-1'' = ''/relays/goy-node-1''"
proof -
  have seg: "segment ''goy-node-1''" by (simp add: segment_def)
  from NormalizePath_labels [OF seg] seg show ?thesis by (simp add: route_paths_def route_labels_def)
qed

end
