(* ===== verification/Vpn.thy ===== *)
theory Vpn
  imports Config Metrics
begin

text \<open>
  Package \<open>internal/vpn\<close>: the \<open>VPNProvider\<close> interface, its three implementations (Headscale,
  Tailscale, and the no-op used when the integration is off), the mock of the tests, and the
  factory.  The remote API is the world: \<open>net n\<close> is what comes back from the n-th attempt of
  an operation.  Each operation returns the requests it sent, the metrics it counted and its
  result.
\<close>

section \<open>Data (provider.go)\<close>

record CreateKeyOpts =
  opt_Reusable :: bool
  opt_ExpiryHours :: int
  opt_Tags :: "string list"

record VPNKeyConfig =
  vk_AuthKey :: string
  vk_ControlURL :: string
  vk_Provider :: string

record VPNStatusResponse =
  VPNEnabled :: bool
  vs_Provider :: string
  HeadscaleReachable :: "bool option"
  vs_HeadscaleUser :: string
  TailscaleReachable :: "bool option"
  vs_Tailnet :: string
  RegisteredDevices :: nat

section \<open>The HTTP exchange\<close>

datatype KeyRequest =
    HeadscaleKeyRequest string bool bool time
  | TailscaleKeyRequest bool bool "string list" int

record ApiRequest =
  rq_Method :: string
  rq_URL :: string
  rq_Authorization :: string
  rq_Body :: "KeyRequest option"

text \<open>
  A reply: the request could not be built, it could not be sent or timed out, or a status came
  back with a body that cannot be read, is not the expected JSON, or holds a value.
\<close>

datatype 'b payload = ReadFailed | BadJSON | Decoded 'b

datatype 'b reply = BuildFailed | IOFailed | Reply int "'b payload"

datatype VpnError =
    BuildError | IOError | APIKeyRejected | APIKeyForbidden | NotFoundRemote | ServerError int
  | UnexpectedStatus int | ReadError | DecodeError | NoKey | InvalidProvider string | MockError

text \<open>
  The loop \<open>for attempt := 1; attempt <= 2; attempt++\<close> of both clients: one attempt gives the
  key, whether its error may be retried, and the error.  The result is the number of attempts
  made and the key or the last error.
\<close>

fun attempts :: "(nat \<Rightarrow> string \<times> bool \<times> VpnError option) \<Rightarrow> nat \<Rightarrow> nat \<Rightarrow> VpnError \<Rightarrow> nat \<times> (VpnError + string)" where
  "attempts call attempt 0 lastErr = (attempt - 1, Inl lastErr)"
| "attempts call attempt (Suc left) lastErr =
     (case call attempt of
        (key, retryable, None) \<Rightarrow> (attempt, Inr key)
      | (key, retryable, Some e) \<Rightarrow>
          if \<not> retryable then (attempt, Inl e) else attempts call (Suc attempt) left e)"

section \<open>Headscale (headscale.go)\<close>

record HeadscaleClient =
  hs_baseURL :: string
  hs_apiKey :: string
  hs_user :: string

definition NewHeadscaleClient :: "string \<Rightarrow> string \<Rightarrow> string \<Rightarrow> HeadscaleClient" where
  "NewHeadscaleClient baseURL apiKey user =
     \<lparr>hs_baseURL = TrimSuffix (TrimSuffix baseURL ''/'') ''/api/v1'', hs_apiKey = apiKey, hs_user = user\<rparr>"

text \<open>The decoded answer: the key of the object \<open>preAuthKey\<close> and the fallback key beside it.\<close>

type_synonym headscale_key_reply = "(string \<times> string) reply"

fun hs_doCreatePreAuthKey :: "headscale_key_reply \<Rightarrow> string \<times> bool \<times> VpnError option" where
  "hs_doCreatePreAuthKey BuildFailed = ([], False, Some BuildError)"
| "hs_doCreatePreAuthKey IOFailed = ([], True, Some IOError)"
| "hs_doCreatePreAuthKey (Reply status body) =
     (if status = 401 \<or> status = 403 then ([], False, Some APIKeyRejected)
      else if status = 404 then ([], False, Some NotFoundRemote)
      else if status \<ge> 500 then ([], True, Some (ServerError status))
      else if status \<noteq> 200 then ([], False, Some (UnexpectedStatus status))
      else case body of
        ReadFailed \<Rightarrow> ([], True, Some ReadError)
      | BadJSON \<Rightarrow> ([], False, Some DecodeError)
      | Decoded (inner, plain) \<Rightarrow>
          let key = (if inner = [] then plain else inner)
          in if key = [] then ([], False, Some NoKey) else (key, False, None))"

definition hs_key_request :: "HeadscaleClient \<Rightarrow> time \<Rightarrow> CreateKeyOpts \<Rightarrow> ApiRequest" where
  "hs_key_request c now opts =
     (let expiryHours = (if opt_ExpiryHours opts \<le> 0 then 24 else opt_ExpiryHours opts)
      in \<lparr>rq_Method = ''POST'', rq_URL = hs_baseURL c @ ''/api/v1/preauthkey'',
          rq_Authorization = ''Bearer '' @ hs_apiKey c,
          rq_Body = Some (HeadscaleKeyRequest (hs_user c) (opt_Reusable opts) False (now + hours expiryHours))\<rparr>)"

definition hs_CreatePreAuthKey ::
  "(nat \<Rightarrow> headscale_key_reply) \<Rightarrow> time \<Rightarrow> CreateKeyOpts \<Rightarrow> HeadscaleClient \<Rightarrow> Metrics \<Rightarrow>
   ApiRequest list \<times> Metrics \<times> (VpnError + VPNKeyConfig)" where
  "hs_CreatePreAuthKey net now opts c m =
     (case attempts (\<lambda>n. hs_doCreatePreAuthKey (net n)) 1 2 IOError of
        (n, Inr key) \<Rightarrow>
          (replicate n (hs_key_request c now opts), inc_VPNKeys m,
           Inr \<lparr>vk_AuthKey = key, vk_ControlURL = hs_baseURL c, vk_Provider = ''headscale''\<rparr>)
      | (n, Inl e) \<Rightarrow> (replicate n (hs_key_request c now opts), inc_VPNErrors m, Inl e))"

definition hs_nodes_url :: "HeadscaleClient \<Rightarrow> string" where
  "hs_nodes_url c = hs_baseURL c @ ''/api/v1/node?user='' @ hs_user c"

definition hs_HealthCheck :: "nat reply \<Rightarrow> HeadscaleClient \<Rightarrow> Metrics \<Rightarrow> Metrics \<times> VpnError option" where
  "hs_HealthCheck net c m =
     (case net of
        BuildFailed \<Rightarrow> (m, Some BuildError)
      | IOFailed \<Rightarrow> (inc_VPNErrors m, Some IOError)
      | Reply status _ \<Rightarrow>
          if status \<noteq> 200 then (inc_VPNErrors m, Some (UnexpectedStatus status)) else (m, None))"

definition hs_GetStatus :: "nat reply \<Rightarrow> HeadscaleClient \<Rightarrow> Metrics \<Rightarrow> Metrics \<times> VPNStatusResponse" where
  "hs_GetStatus net c m =
     (let status = \<lparr>VPNEnabled = True, vs_Provider = ''headscale'', HeadscaleReachable = None,
            vs_HeadscaleUser = hs_user c, TailscaleReachable = None, vs_Tailnet = [], RegisteredDevices = 0\<rparr>
      in case net of
           BuildFailed \<Rightarrow> (m, status\<lparr>HeadscaleReachable := Some False\<rparr>)
         | IOFailed \<Rightarrow> (inc_VPNErrors m, status\<lparr>HeadscaleReachable := Some False\<rparr>)
         | Reply code body \<Rightarrow>
             if code = 200
             then (m, status\<lparr>HeadscaleReachable := Some True,
                       RegisteredDevices := (case body of Decoded n \<Rightarrow> n | _ \<Rightarrow> 0)\<rparr>)
             else (inc_VPNErrors m, status\<lparr>HeadscaleReachable := Some False\<rparr>))"

section \<open>Tailscale (tailscale.go)\<close>

record TailscaleClient =
  ts_tailnet :: string
  ts_apiKey :: string
  ts_tag :: string
  ts_baseURL :: string

definition NewTailscaleClient :: "string \<Rightarrow> string \<Rightarrow> string \<Rightarrow> TailscaleClient" where
  "NewTailscaleClient tailnet apiKey tag =
     \<lparr>ts_tailnet = tailnet, ts_apiKey = apiKey, ts_tag = tag, ts_baseURL = ''https://api.tailscale.com''\<rparr>"

fun ts_doCreatePreAuthKey :: "string reply \<Rightarrow> string \<times> bool \<times> VpnError option" where
  "ts_doCreatePreAuthKey BuildFailed = ([], False, Some BuildError)"
| "ts_doCreatePreAuthKey IOFailed = ([], True, Some IOError)"
| "ts_doCreatePreAuthKey (Reply status body) =
     (if status = 401 then ([], False, Some APIKeyRejected)
      else if status = 403 then ([], False, Some APIKeyForbidden)
      else if status = 404 then ([], False, Some NotFoundRemote)
      else if status \<ge> 500 then ([], True, Some (ServerError status))
      else if status \<noteq> 200 \<and> status \<noteq> 201 then ([], False, Some (UnexpectedStatus status))
      else case body of
        ReadFailed \<Rightarrow> ([], True, Some ReadError)
      | BadJSON \<Rightarrow> ([], False, Some DecodeError)
      | Decoded key \<Rightarrow> if TrimSpace key = [] then ([], False, Some NoKey) else (key, False, None))"

definition ts_key_request :: "TailscaleClient \<Rightarrow> CreateKeyOpts \<Rightarrow> ApiRequest" where
  "ts_key_request c opts =
     (let expiryHours = (if opt_ExpiryHours opts \<le> 0 then 24 else opt_ExpiryHours opts);
          expirySeconds = wrap64 (expiryHours * 3600);
          tags = (if opt_Tags opts = [] \<and> ts_tag c \<noteq> [] then [ts_tag c] else opt_Tags opts)
      in \<lparr>rq_Method = ''POST'', rq_URL = ts_baseURL c @ ''/api/v2/tailnet/'' @ ts_tailnet c @ ''/keys'',
          rq_Authorization = ''Bearer '' @ ts_apiKey c,
          rq_Body = Some (TailscaleKeyRequest (opt_Reusable opts) False tags expirySeconds)\<rparr>)"

definition ts_CreatePreAuthKey ::
  "(nat \<Rightarrow> string reply) \<Rightarrow> CreateKeyOpts \<Rightarrow> TailscaleClient \<Rightarrow> Metrics \<Rightarrow>
   ApiRequest list \<times> Metrics \<times> (VpnError + VPNKeyConfig)" where
  "ts_CreatePreAuthKey net opts c m =
     (case attempts (\<lambda>n. ts_doCreatePreAuthKey (net n)) 1 2 IOError of
        (n, Inr key) \<Rightarrow>
          (replicate n (ts_key_request c opts), inc_VPNKeys m,
           Inr \<lparr>vk_AuthKey = key, vk_ControlURL = [], vk_Provider = ''tailscale''\<rparr>)
      | (n, Inl e) \<Rightarrow> (replicate n (ts_key_request c opts), inc_VPNErrors m, Inl e))"

definition ts_HealthCheck :: "nat reply \<Rightarrow> TailscaleClient \<Rightarrow> Metrics \<Rightarrow> Metrics \<times> VpnError option" where
  "ts_HealthCheck net c m =
     (case net of
        BuildFailed \<Rightarrow> (m, Some BuildError)
      | IOFailed \<Rightarrow> (inc_VPNErrors m, Some IOError)
      | Reply status _ \<Rightarrow>
          if status = 401 then (inc_VPNErrors m, Some APIKeyRejected)
          else if status = 403 then (inc_VPNErrors m, Some APIKeyForbidden)
          else if status \<noteq> 200 then (inc_VPNErrors m, Some (UnexpectedStatus status))
          else (m, None))"

text \<open>Unlike Headscale's, this one leaves the flag unset when the request cannot be built.\<close>

definition ts_GetStatus :: "nat reply \<Rightarrow> TailscaleClient \<Rightarrow> Metrics \<Rightarrow> Metrics \<times> VPNStatusResponse" where
  "ts_GetStatus net c m =
     (let status = \<lparr>VPNEnabled = True, vs_Provider = ''tailscale'', HeadscaleReachable = None,
            vs_HeadscaleUser = [], TailscaleReachable = None, vs_Tailnet = ts_tailnet c, RegisteredDevices = 0\<rparr>
      in case net of
           BuildFailed \<Rightarrow> (m, status)
         | IOFailed \<Rightarrow> (inc_VPNErrors m, status\<lparr>TailscaleReachable := Some False\<rparr>)
         | Reply code body \<Rightarrow>
             if code = 200
             then (m, status\<lparr>TailscaleReachable := Some True,
                       RegisteredDevices := (case body of Decoded n \<Rightarrow> n | _ \<Rightarrow> 0)\<rparr>)
             else (inc_VPNErrors m, status\<lparr>TailscaleReachable := Some False\<rparr>))"

section \<open>No-op and mock (mock.go)\<close>

definition noop_status :: VPNStatusResponse where
  "noop_status = \<lparr>VPNEnabled = False, vs_Provider = [], HeadscaleReachable = None, vs_HeadscaleUser = [],
     TailscaleReachable = None, vs_Tailnet = [], RegisteredDevices = 0\<rparr>"

record MockVPNProvider =
  mk_Provider :: string
  mk_KeyToReturn :: string
  mk_ErrToReturn :: "VpnError option"
  mk_ControlURL :: string
  mk_Reachable :: bool
  mk_RegisteredMachines :: nat

definition NewMockVPNProvider :: "string \<Rightarrow> VpnError option \<Rightarrow> MockVPNProvider" where
  "NewMockVPNProvider key err =
     \<lparr>mk_Provider = ''headscale'', mk_KeyToReturn = key, mk_ErrToReturn = err,
      mk_ControlURL = ''https://vpn.goy.test'', mk_Reachable = True, mk_RegisteredMachines = 3\<rparr>"

definition mk_ProviderName :: "MockVPNProvider \<Rightarrow> string" where
  "mk_ProviderName p = (if mk_Provider p \<noteq> [] then mk_Provider p else ''headscale'')"

definition mk_CreatePreAuthKey :: "MockVPNProvider \<Rightarrow> VpnError + VPNKeyConfig" where
  "mk_CreatePreAuthKey p =
     (case mk_ErrToReturn p of
        Some e \<Rightarrow> Inl e
      | None \<Rightarrow> Inr \<lparr>vk_AuthKey = mk_KeyToReturn p,
                     vk_ControlURL = (if mk_ProviderName p = ''tailscale'' then [] else mk_ControlURL p),
                     vk_Provider = mk_ProviderName p\<rparr>)"

definition mk_HealthCheck :: "MockVPNProvider \<Rightarrow> VpnError option" where
  "mk_HealthCheck p = (if \<not> mk_Reachable p then mk_ErrToReturn p else None)"

definition mk_GetStatus :: "MockVPNProvider \<Rightarrow> VPNStatusResponse" where
  "mk_GetStatus p =
     (let resp = noop_status\<lparr>VPNEnabled := True, vs_Provider := mk_ProviderName p,
                   RegisteredDevices := mk_RegisteredMachines p\<rparr>
      in if mk_ProviderName p = ''headscale''
         then resp\<lparr>HeadscaleReachable := Some (mk_Reachable p), vs_HeadscaleUser := ''goy-nodes-test''\<rparr>
         else if mk_ProviderName p = ''tailscale''
         then resp\<lparr>TailscaleReachable := Some (mk_Reachable p), vs_Tailnet := ''my-org.ts.net''\<rparr>
         else resp)"

section \<open>The interface value and the factory (factory.go)\<close>

datatype VPNProvider =
    Noop | Headscale HeadscaleClient | Tailscale TailscaleClient | Mock MockVPNProvider

text \<open>The world of the two APIs during one operation.\<close>

record vpn_world =
  hs_keys :: "nat \<Rightarrow> headscale_key_reply"
  ts_keys :: "nat \<Rightarrow> string reply"
  hs_nodes :: "nat reply"
  ts_devices :: "nat reply"
  vpn_now :: time

fun ProviderName :: "VPNProvider \<Rightarrow> string" where
  "ProviderName Noop = []"
| "ProviderName (Headscale _) = ''headscale''"
| "ProviderName (Tailscale _) = ''tailscale''"
| "ProviderName (Mock p) = mk_ProviderName p"

fun CreatePreAuthKey ::
  "vpn_world \<Rightarrow> CreateKeyOpts \<Rightarrow> VPNProvider \<Rightarrow> Metrics \<Rightarrow> ApiRequest list \<times> Metrics \<times> (VpnError + VPNKeyConfig)" where
  "CreatePreAuthKey W opts Noop m = ([], m, Inr \<lparr>vk_AuthKey = [], vk_ControlURL = [], vk_Provider = []\<rparr>)"
| "CreatePreAuthKey W opts (Headscale c) m = hs_CreatePreAuthKey (hs_keys W) (vpn_now W) opts c m"
| "CreatePreAuthKey W opts (Tailscale c) m = ts_CreatePreAuthKey (ts_keys W) opts c m"
| "CreatePreAuthKey W opts (Mock p) m = ([], m, mk_CreatePreAuthKey p)"

fun ProviderHealthCheck :: "vpn_world \<Rightarrow> VPNProvider \<Rightarrow> Metrics \<Rightarrow> Metrics \<times> VpnError option" where
  "ProviderHealthCheck W Noop m = (m, None)"
| "ProviderHealthCheck W (Headscale c) m = hs_HealthCheck (hs_nodes W) c m"
| "ProviderHealthCheck W (Tailscale c) m = ts_HealthCheck (ts_devices W) c m"
| "ProviderHealthCheck W (Mock p) m = (m, mk_HealthCheck p)"

fun GetStatus :: "vpn_world \<Rightarrow> VPNProvider \<Rightarrow> Metrics \<Rightarrow> Metrics \<times> VPNStatusResponse" where
  "GetStatus W Noop m = (m, noop_status)"
| "GetStatus W (Headscale c) m = hs_GetStatus (hs_nodes W) c m"
| "GetStatus W (Tailscale c) m = ts_GetStatus (ts_devices W) c m"
| "GetStatus W (Mock p) m = (m, mk_GetStatus p)"

definition NewVPNProvider :: "VPNConfig option \<Rightarrow> VpnError + VPNProvider" where
  "NewVPNProvider cfg =
     (case cfg of
        None \<Rightarrow> Inr Noop
      | Some c \<Rightarrow>
          if \<not> Enabled c \<or> Provider c = [] then Inr Noop
          else if Provider c = ''tailscale''
          then Inr (Tailscale (NewTailscaleClient (TailscaleTailnet c) (TailscaleAPIKey c) (TailscaleTag c)))
          else if Provider c = ''headscale''
          then Inr (Headscale (NewHeadscaleClient (HeadscaleAPIURL c) (HeadscaleAPIKey c) (HeadscaleUser c)))
          else Inl (InvalidProvider (Provider c)))"

section \<open>The contract of one attempt\<close>

text \<open>
  What the retry loop relies on: an attempt may be repeated exactly when its failure is
  transient, and a successful one gives a non-empty key.
\<close>

locale preauth_client =
  fixes call :: "'r \<Rightarrow> string \<times> bool \<times> VpnError option"
    and transient :: "'r \<Rightarrow> bool"
  assumes retry_transient: "call r = (key, b, Some e) \<Longrightarrow> b = transient r"
    and success_key: "call r = (key, b, None) \<Longrightarrow> key \<noteq> [] \<and> \<not> transient r"
begin

definition outcome :: "'r \<Rightarrow> VpnError + string" where
  "outcome r = (case call r of (key, _, None) \<Rightarrow> Inr key | (_, _, Some e) \<Rightarrow> Inl e)"

lemma attempts_twice:
  "attempts (\<lambda>n. call (net n)) (Suc 0) 2 e0 =
     (if transient (net (Suc 0)) then (2, outcome (net 2)) else (Suc 0, outcome (net (Suc 0))))"
proof -
  have two: "(2::nat) = Suc (Suc 0)" by simp
  obtain k1 b1 x1 where c1: "call (net (Suc 0)) = (k1, b1, x1)" by (cases "call (net (Suc 0))") auto
  obtain k2 b2 x2 where c2: "call (net 2) = (k2, b2, x2)" by (cases "call (net 2)") auto
  show ?thesis
    using c1 c2 retry_transient [of "net (Suc 0)"] success_key [of "net (Suc 0)"]
      retry_transient [of "net 2"]
    by (cases x1; cases x2) (auto simp: two outcome_def)
qed

lemma outcome_key: "outcome r = Inr key \<Longrightarrow> key \<noteq> []"
  by (auto simp: outcome_def dest: success_key split: prod.splits option.splits)

end

definition ok_status :: "string \<Rightarrow> int \<Rightarrow> bool" where
  "ok_status provider s \<longleftrightarrow> s = 200 \<or> provider = ''tailscale'' \<and> s = 201"

fun transient_reply :: "string \<Rightarrow> 'b reply \<Rightarrow> bool" where
  "transient_reply p BuildFailed = False"
| "transient_reply p IOFailed = True"
| "transient_reply p (Reply s body) = (s \<ge> 500 \<or> ok_status p s \<and> body = ReadFailed)"

interpretation hs_client: preauth_client hs_doCreatePreAuthKey "transient_reply ''headscale''"
proof
  show "b = transient_reply ''headscale'' r" if "hs_doCreatePreAuthKey r = (key, b, Some e)" for r key b e
    using that by (cases r) (auto simp: ok_status_def Let_def split: if_splits payload.splits)
  show "key \<noteq> [] \<and> \<not> transient_reply ''headscale'' r" if "hs_doCreatePreAuthKey r = (key, b, None)" for r key b
    using that by (cases r) (auto simp: ok_status_def Let_def split: if_splits payload.splits)
qed

interpretation ts_client: preauth_client ts_doCreatePreAuthKey "transient_reply ''tailscale''"
proof
  show "b = transient_reply ''tailscale'' r" if "ts_doCreatePreAuthKey r = (key, b, Some e)" for r key b e
    using that by (cases r) (auto simp: ok_status_def split: if_splits payload.splits)
  show "key \<noteq> [] \<and> \<not> transient_reply ''tailscale'' r" if "ts_doCreatePreAuthKey r = (key, b, None)" for r key b
    using that by (cases r) (auto simp: ok_status_def split: if_splits payload.splits)
qed

lemma hs_CreatePreAuthKey_eq:
  "hs_CreatePreAuthKey net now opts c m =
     (let n = (if transient_reply ''headscale'' (net 1) then 2 else 1) in
      (replicate n (hs_key_request c now opts),
       case hs_client.outcome (net n) of Inr _ \<Rightarrow> inc_VPNKeys m | Inl _ \<Rightarrow> inc_VPNErrors m,
       map_sum id (\<lambda>key. \<lparr>vk_AuthKey = key, vk_ControlURL = hs_baseURL c, vk_Provider = ''headscale''\<rparr>)
         (hs_client.outcome (net n))))"
  by (simp add: hs_CreatePreAuthKey_def hs_client.attempts_twice Let_def split: sum.split)

lemma ts_CreatePreAuthKey_eq:
  "ts_CreatePreAuthKey net opts c m =
     (let n = (if transient_reply ''tailscale'' (net 1) then 2 else 1) in
      (replicate n (ts_key_request c opts),
       case ts_client.outcome (net n) of Inr _ \<Rightarrow> inc_VPNKeys m | Inl _ \<Rightarrow> inc_VPNErrors m,
       map_sum id (\<lambda>key. \<lparr>vk_AuthKey = key, vk_ControlURL = [], vk_Provider = ''tailscale''\<rparr>)
         (ts_client.outcome (net n))))"
  by (simp add: ts_CreatePreAuthKey_def ts_client.attempts_twice Let_def split: sum.split)

section \<open>Properties\<close>

text \<open>The replies of the world to the attempts of a provider, as far as retrying goes.\<close>

definition first_transient :: "vpn_world \<Rightarrow> VPNProvider \<Rightarrow> bool" where
  "first_transient W p = (case p of
     Headscale _ \<Rightarrow> transient_reply ''headscale'' (hs_keys W 1)
   | Tailscale _ \<Rightarrow> transient_reply ''tailscale'' (ts_keys W 1)
   | _ \<Rightarrow> False)"

definition remote :: "VPNProvider \<Rightarrow> bool" where
  "remote p = (case p of Headscale _ \<Rightarrow> True | Tailscale _ \<Rightarrow> True | _ \<Rightarrow> False)"

lemma CreatePreAuthKey_key:
  assumes "remote p" "CreatePreAuthKey W opts p m = (sent, m', Inr k)"
  shows "vk_AuthKey k \<noteq> [] \<and> vk_Provider k = ProviderName p"
  using assms
  by (cases p) (auto simp: remote_def hs_CreatePreAuthKey_eq ts_CreatePreAuthKey_eq Let_def
      dest: hs_client.outcome_key ts_client.outcome_key split: sum.splits if_splits)


definition test_world :: vpn_world where
  "test_world = \<lparr>hs_keys = (\<lambda>n. if n = 1 then IOFailed else Reply 200 (Decoded (''k'', []))),
     ts_keys = (\<lambda>_. Reply 401 BadJSON), hs_nodes = IOFailed, ts_devices = IOFailed, vpn_now = 0\<rparr>"

definition test_key_opts :: CreateKeyOpts where
  "test_key_opts = \<lparr>opt_Reusable = False, opt_ExpiryHours = 0, opt_Tags = []\<rparr>"


end
