(* ===== verification/Http.thy ===== *)
theory Http
  imports Store_Base Vpn
begin

text \<open>
  The HTTP vocabulary of package \<open>internal/api\<close>: a request as the handlers see it, the payloads
  of the requests and responses (\<open>nodes.go\<close>, \<open>relays.go\<close>, \<open>health.go\<close>), and the writers of
  \<open>errors.go\<close>.  A response is its status, its headers as far as the code sets them, and the Go
  value it encodes; \<open>encoding/json\<close> is represented by the decoders \<open>JSON\<close>, each giving the
  value left in the variable and whether decoding succeeded.
\<close>

section \<open>Requests\<close>

record StoragePayload =
  ReservedGB :: u64
  AvailableGB :: u64

record RegisterNodeRequest =
  rn_AuthKey :: string
  rn_Name :: string
  rn_Storage :: "StoragePayload option"
  rn_MeshURL :: string

record RegisterRelayRequest =
  rr_NodeID :: string
  rr_URL :: string
  rr_Fingerprint :: string
  rr_Storage :: "StoragePayload option"
  rr_ReplicationFactor :: u32
  rr_Version :: string
  rr_Capabilities :: "string list option"

record HeartbeatRelayRequest =
  hb_AvailableGB :: "u64 option"

record HeartbeatV1RelayRequest =
  hv_URL :: string
  hv_Fingerprint :: string
  hv_Storage :: "StoragePayload option"
  hv_Version :: string
  hv_UptimeSecs :: u64

record JSON =
  decode_register_node :: "string \<Rightarrow> bool \<times> RegisterNodeRequest"
  decode_register_relay :: "string \<Rightarrow> bool \<times> RegisterRelayRequest"
  decode_heartbeat :: "string \<Rightarrow> bool \<times> HeartbeatRelayRequest"
  decode_heartbeat_v1 :: "string \<Rightarrow> bool \<times> HeartbeatV1RelayRequest"

text \<open>A missing header or query parameter is the empty string, as in Go.\<close>

record Request =
  Method :: string
  URLPath :: string
  Host :: string
  RemoteAddr :: string
  Authorization :: string
  XForwardedFor :: string
  q_since :: string
  q_min_storage_gb :: string
  ContentLength :: int
  RequestBody :: string

section \<open>Responses\<close>

record ErrorResponse =
  er_Error :: string
  er_Details :: string
  er_Resource :: string
  er_ID :: string
  er_Reason :: string

record VPNConfigResponse =
  vc_AuthKey :: string
  vc_ControlURL :: string
  vc_Provider :: string

record RegisterNodeResponse =
  rs_NodeID :: string
  rs_Name :: string
  rs_MeshURL :: string
  rs_VPNConfig :: VPNConfigResponse
  rs_RegistryURL :: string
  rs_CreatedAt :: time

record NodeStatusResponse =
  ns_NodeID :: string
  ns_IsOnline :: bool
  ns_LastSeen :: "time option"
  ns_URL :: string
  ns_Version :: string
  ns_UptimeSecs :: u64
  ns_Storage :: StoragePayload

record RelayDTO =
  dto_NodeID :: string
  dto_URL :: string
  dto_Fingerprint :: string
  dto_Storage :: "StoragePayload option"
  dto_ReplicationFactor :: u32
  dto_Version :: string
  dto_UptimeSecs :: u64
  dto_Capabilities :: "string list option"
  dto_LastSeen :: time

record GetRelaysResponse =
  gr_Relays :: "RelayDTO list"
  gr_Total :: int
  gr_GeneratedAt :: time

record HealthResponse =
  he_Status :: string
  he_Version :: string
  he_Error :: string

record InfoResponse =
  in_Version :: string
  in_UptimeSeconds :: int
  in_DatabasePath :: string
  in_ListenAddress :: string
  in_VPNIntegrationEnabled :: bool

text \<open>The JSON of a node leaves out the hash of its key (\<open>json:"-"\<close>).\<close>

datatype Body =
    NoBody
  | ErrorBody ErrorResponse
  | RegisterBody RegisterNodeResponse
  | NodeBody Node
  | VPNStatusBody VPNStatusResponse
  | NodeStatusBody NodeStatusResponse
  | RelayBody RelayDTO
  | RelaysBody GetRelaysResponse
  | HealthBody HealthResponse
  | InfoBody InfoResponse
  | MetricsBody
  | PlainBody

record Response =
  Status :: int
  ContentTypeJSON :: bool
  RetryAfter :: "string option"
  ResponseBody :: Body

definition json_response :: "int \<Rightarrow> Body \<Rightarrow> Response" where
  "json_response status b = \<lparr>Status = status, ContentTypeJSON = True, RetryAfter = None, ResponseBody = b\<rparr>"

definition no_content :: Response where
  "no_content = \<lparr>Status = 204, ContentTypeJSON = False, RetryAfter = None, ResponseBody = NoBody\<rparr>"

section \<open>Error writers (errors.go)\<close>

definition error_response :: "string \<Rightarrow> ErrorResponse" where
  "error_response e = \<lparr>er_Error = e, er_Details = [], er_Resource = [], er_ID = [], er_Reason = []\<rparr>"

definition WriteJSONError :: "int \<Rightarrow> ErrorResponse \<Rightarrow> Response" where
  "WriteJSONError statusCode resp = json_response statusCode (ErrorBody resp)"

definition WriteBadRequest :: "string \<Rightarrow> Response" where
  "WriteBadRequest details =
     WriteJSONError 400 ((error_response ''invalid request'')\<lparr>er_Details := details\<rparr>)"

definition WriteUnauthorized :: "string \<Rightarrow> Response" where
  "WriteUnauthorized details =
     WriteJSONError 401 ((error_response ''unauthorized'')
       \<lparr>er_Details := (if details = [] then ''valid API key required'' else details)\<rparr>)"

definition WriteNotFound :: "string \<Rightarrow> string \<Rightarrow> Response" where
  "WriteNotFound res i =
     WriteJSONError 404 ((error_response ''not found'')\<lparr>er_Resource := res, er_ID := i\<rparr>)"

definition WriteTooManyRequests :: "int \<Rightarrow> Response" where
  "WriteTooManyRequests retryAfterSeconds =
     (let n = (if retryAfterSeconds \<le> 0 then 1 else retryAfterSeconds)
      in (WriteJSONError 429 ((error_response ''rate limit exceeded'')
            \<lparr>er_Reason := ''HTTP request limit exceeded''\<rparr>))\<lparr>RetryAfter := Some (Itoa n)\<rparr>)"

definition WriteInternalServerError :: Response where
  "WriteInternalServerError = WriteJSONError 500 (error_response ''internal server error'')"

definition WriteServiceUnavailable :: "string \<Rightarrow> Response" where
  "WriteServiceUnavailable reason =
     WriteJSONError 503 ((error_response ''service unavailable'')\<lparr>er_Reason := reason\<rparr>)"

lemmas writer_defs [handler_defs] = json_response_def no_content_def WriteJSONError_def WriteBadRequest_def
  WriteUnauthorized_def WriteNotFound_def WriteTooManyRequests_def WriteInternalServerError_def
  WriteServiceUnavailable_def

lemma Status_writers [simp]:
  "Status (json_response n b) = n" "Status no_content = 204" "Status (WriteJSONError n e) = n"
  "Status (WriteBadRequest d) = 400" "Status (WriteUnauthorized d) = 401"
  "Status (WriteNotFound r i) = 404" "Status (WriteTooManyRequests n') = 429"
  "Status WriteInternalServerError = 500" "Status (WriteServiceUnavailable d) = 503"
  by (simp_all add: writer_defs Let_def)

lemma ResponseBody_json [simp]: "ResponseBody (json_response n b) = b"
  by (simp add: json_response_def)

section \<open>Health and info (health.go)\<close>

definition ServerVersion :: string where "ServerVersion = ''0.1.0''"

definition HealthHandler :: "faults \<Rightarrow> SQLiteStore \<Rightarrow> Response" where
  "HealthHandler F st =
     (case HealthCheck F st of
        Some _ \<Rightarrow> json_response 503 (HealthBody
          \<lparr>he_Status = ''degraded'', he_Version = ServerVersion, he_Error = ''database unreachable''\<rparr>)
      | None \<Rightarrow> json_response 200 (HealthBody \<lparr>he_Status = ''ok'', he_Version = ServerVersion, he_Error = []\<rparr>))"

text \<open>\<open>int64(time.Since(start).Seconds())\<close> truncates toward zero; the clock does not run backwards.\<close>

definition InfoHandler :: "Config \<Rightarrow> time \<Rightarrow> time \<Rightarrow> Response" where
  "InfoHandler cfg startTime now =
     json_response 200 (InfoBody
       \<lparr>in_Version = ServerVersion, in_UptimeSeconds = sgn (now - startTime) * (\<bar>now - startTime\<bar> div Second),
        in_DatabasePath = DB_Path (cfg_Database cfg), in_ListenAddress = Listen (cfg_Server cfg),
        in_VPNIntegrationEnabled = (Enabled (cfg_VPN cfg) \<and> Provider (cfg_VPN cfg) \<noteq> [])\<rparr>)"

end
