(* ===== verification/Node_Store.thy ===== *)
theory Node_Store
  imports Store_Base
begin

text \<open>
  The node operations of \<open>sqlite.go\<close>: \<open>CreateNode\<close>, the two lookups, \<open>UpdateNode\<close>,
  \<open>DeleteNode\<close> (soft), \<open>ListNodes\<close>, \<open>TouchNode\<close>, \<open>CleanupInactiveNodes\<close> and
  \<open>GetNodeCountsByStatus\<close>, each with the instants its calls of \<open>time.Now()\<close> return and
  the fault oracle of the driver; the invariant of the table; and the interface
  \<open>node_registry\<close> that the registration handler relies on.
\<close>

section \<open>Operations\<close>

text \<open>The condition \<open>status != 'deleted' AND deleted_at IS NULL\<close>.\<close>

definition live :: "Node \<Rightarrow> bool" where
  "live n \<longleftrightarrow> Node_Status n \<noteq> ''deleted'' \<and> Node_DeletedAt n = None"

definition fill_node :: "time \<Rightarrow> Node \<Rightarrow> Node" where
  "fill_node now n =
     n\<lparr>Node_CreatedAt := (if IsZero (Node_CreatedAt n) then now else Node_CreatedAt n),
       Node_UpdatedAt := (if IsZero (Node_UpdatedAt n) then now else Node_UpdatedAt n),
       Node_Status := (if Node_Status n = [] then NodeStatusActive else Node_Status n)\<rparr>"

text \<open>\<open>INSERT\<close> fails when the primary key or the unique hash is taken, by any row.\<close>

definition CreateNode :: "faults \<Rightarrow> time \<Rightarrow> Node \<Rightarrow> SQLiteStore \<Rightarrow> SQLiteStore \<times> store_error option \<times> Node" where
  "CreateNode F now n0 st =
     (let n = fill_node now n0 in
      if F (Exec Q_CreateNode) \<or> Node_ID n \<in> Node_ID ` set (st_nodes st) \<or>
         Node_AuthKeyHash n \<in> Node_AuthKeyHash ` set (st_nodes st)
      then (st, Some (DBError (Exec Q_CreateNode)), n)
      else (st\<lparr>st_nodes := st_nodes st @ [n]\<rparr>, None, n))"

text \<open>\<open>scanNode\<close> turns the columns into a node; normalising to UTC keeps the instants.\<close>

definition scanNode :: "Node \<Rightarrow> Node" where
  "scanNode r = r"

definition GetNodeByID :: "faults \<Rightarrow> string \<Rightarrow> SQLiteStore \<Rightarrow> store_error + Node" where
  "GetNodeByID F i st =
     map_sum id scanNode
       (query_row F Q_GetNodeByID ErrNodeNotFound (\<lambda>n. Node_ID n = i \<and> live n) (st_nodes st))"

definition GetNodeByAuthKeyHash :: "faults \<Rightarrow> string \<Rightarrow> SQLiteStore \<Rightarrow> store_error + Node" where
  "GetNodeByAuthKeyHash F h st =
     map_sum id scanNode
       (query_row F Q_GetNodeByAuthKeyHash ErrNodeNotFound
          (\<lambda>n. Node_AuthKeyHash n = h \<and> live n) (st_nodes st))"

definition UpdateNode :: "faults \<Rightarrow> time \<Rightarrow> Node \<Rightarrow> SQLiteStore \<Rightarrow> SQLiteStore \<times> store_error option \<times> Node" where
  "UpdateNode F now n0 st =
     (let n = n0\<lparr>Node_UpdatedAt := now\<rparr>;
          (rows, res) = exec_update F Q_UpdateNode (\<lambda>r. Node_ID r = Node_ID n \<and> live r)
            (\<lambda>r. r\<lparr>Node_Name := Node_Name n, Node_StorageReservedGB := Node_StorageReservedGB n,
                   Node_StorageAvailableGB := Node_StorageAvailableGB n,
                   Node_VPNPublicKey := Node_VPNPublicKey n, Node_MeshURL := Node_MeshURL n,
                   Node_Status := Node_Status n, Node_UpdatedAt := Node_UpdatedAt n\<rparr>)
            (st_nodes st)
      in (st\<lparr>st_nodes := rows\<rparr>, affected_error ErrNodeNotFound res, n))"

definition DeleteNode :: "faults \<Rightarrow> time \<Rightarrow> string \<Rightarrow> SQLiteStore \<Rightarrow> SQLiteStore \<times> store_error option" where
  "DeleteNode F now i st =
     (let (rows, res) = exec_update F Q_DeleteNode (\<lambda>r. Node_ID r = i \<and> live r)
            (\<lambda>r. r\<lparr>Node_Status := ''deleted'', Node_DeletedAt := Some now, Node_UpdatedAt := now\<rparr>)
            (st_nodes st)
      in (st\<lparr>st_nodes := rows\<rparr>, affected_error ErrNodeNotFound res))"

definition list_filter :: "string \<Rightarrow> Node \<Rightarrow> bool" where
  "list_filter status n = (if status \<noteq> [] then Node_Status n = status else live n)"

definition ListNodes :: "faults \<Rightarrow> string \<Rightarrow> int \<Rightarrow> int \<Rightarrow> SQLiteStore \<Rightarrow> store_error + Node list \<times> int" where
  "ListNodes F status limit0 offset0 st =
     (let limit = (if limit0 \<le> 0 then 20 else limit0);
          offset = (if offset0 < 0 then 0 else offset0)
      in case query_count F Q_CountNodes (list_filter status) (st_nodes st) of
           Inl e \<Rightarrow> Inl e
         | Inr cnt \<Rightarrow>
             (case collect_rows F Q_ListNodes
                (take (nat limit) (drop (nat offset)
                  (order_by_desc Node_CreatedAt (filter (list_filter status) (st_nodes st))))) of
                Inl e \<Rightarrow> Inl e
              | Inr rows \<Rightarrow> Inr (map scanNode rows, cnt)))"

definition TouchNode :: "faults \<Rightarrow> time \<Rightarrow> string \<Rightarrow> SQLiteStore \<Rightarrow> SQLiteStore \<times> store_error option" where
  "TouchNode F now i st =
     (let (rows, res) = exec_update F Q_TouchNode (\<lambda>r. Node_ID r = i \<and> live r)
            (\<lambda>r. r\<lparr>Node_LastSeenAt := Some now, Node_UpdatedAt := now\<rparr>) (st_nodes st)
      in (st\<lparr>st_nodes := rows\<rparr>, affected_error ErrNodeNotFound res))"

text \<open>\<open>t\<close> and \<open>now\<close> are the two readings of the clock.\<close>

definition inactive_rule :: "time \<Rightarrow> Node \<Rightarrow> bool" where
  "inactive_rule cutoff n \<longleftrightarrow> Node_Status n = ''active'' \<and>
     (case Node_LastSeenAt n of None \<Rightarrow> True | Some seen \<Rightarrow> seen < cutoff)"

definition CleanupInactiveNodes ::
  "faults \<Rightarrow> time \<Rightarrow> time \<Rightarrow> int \<Rightarrow> SQLiteStore \<Rightarrow> SQLiteStore \<times> (store_error + nat)" where
  "CleanupInactiveNodes F t now thresholdHours0 st =
     (let thresholdHours = (if thresholdHours0 \<le> 0 then 24 else thresholdHours0);
          cutoff = t + hours (- thresholdHours);
          (rows, res) = exec_update F Q_CleanupInactiveNodes (inactive_rule cutoff)
            (\<lambda>r. r\<lparr>Node_Status := ''inactive'', Node_UpdatedAt := now\<rparr>) (st_nodes st)
      in (st\<lparr>st_nodes := rows\<rparr>, res))"

text \<open>
  \<open>GROUP BY status\<close> gives one row per status; the loop over them does not look at
  \<open>rows.Err()\<close>, so a result cut short is returned as if it were whole.
\<close>

definition status_groups :: "Node list \<Rightarrow> (string \<times> int) list" where
  "status_groups ns =
     map (\<lambda>s. (s, int (count_where (\<lambda>n. Node_Status n = s) ns))) (remdups (map Node_Status ns))"

definition GetNodeCountsByStatus :: "faults \<Rightarrow> SQLiteStore \<Rightarrow> store_error + (string \<rightharpoonup> int)" where
  "GetNodeCountsByStatus F st =
     (if F (Query Q_NodeCounts) then Inl (DBError (Query Q_NodeCounts))
      else case read_rows F Q_NodeCounts 0 (status_groups (st_nodes st)) of
        (xs, ScanFailed i) \<Rightarrow> Inl (DBError (Scan Q_NodeCounts i))
      | (xs, _) \<Rightarrow> Inr (fold (\<lambda>(s, c) m. m(s \<mapsto> c)) xs Map.empty))"

lemmas node_op_defs [store_defs] = CreateNode_def GetNodeByID_def GetNodeByAuthKeyHash_def
  UpdateNode_def DeleteNode_def ListNodes_def TouchNode_def CleanupInactiveNodes_def
  GetNodeCountsByStatus_def

section \<open>The invariant of the table\<close>

definition nodes_inv :: "Node list \<Rightarrow> bool" where
  "nodes_inv ns \<longleftrightarrow> distinct (map Node_ID ns) \<and> distinct (map Node_AuthKeyHash ns) \<and>
     (\<forall>n\<in>set ns. Node_DeletedAt n \<noteq> None \<longrightarrow> Node_Status n = ''deleted'')"

lemma nodes_inv_Nil [simp]: "nodes_inv []"
  by (simp add: nodes_inv_def)

text \<open>An update of a row that keeps the two keys and does not undelete.\<close>

lemma nodes_inv_update_where:
  assumes "nodes_inv ns"
    and "\<And>n. Node_ID (f n) = Node_ID n" "\<And>n. Node_AuthKeyHash (f n) = Node_AuthKeyHash n"
    and "\<And>n. n \<in> set ns \<Longrightarrow> p n \<Longrightarrow> Node_DeletedAt (f n) \<noteq> None \<Longrightarrow> Node_Status (f n) = ''deleted''"
  shows "nodes_inv (update_where p f ns)"
  using assms by (auto simp: nodes_inv_def map_update_where_same set_update_where)

lemma nodes_inv_exec_update:
  assumes "nodes_inv ns" "exec_update F q p f ns = (ns', res)"
    and "\<And>n. Node_ID (f n) = Node_ID n" "\<And>n. Node_AuthKeyHash (f n) = Node_AuthKeyHash n"
    and "\<And>n. n \<in> set ns \<Longrightarrow> p n \<Longrightarrow> Node_DeletedAt (f n) \<noteq> None \<Longrightarrow> Node_Status (f n) = ''deleted''"
  shows "nodes_inv ns'"
  using assms nodes_inv_update_where [of ns f p] by (auto simp: exec_update_def split: if_splits)

lemma nodes_inv_CreateNode [inv_intros]:
  assumes "nodes_inv (st_nodes st)" "Node_DeletedAt n \<noteq> None \<longrightarrow> Node_Status n = ''deleted''"
  shows "nodes_inv (st_nodes (fst (CreateNode F now n st)))"
  using assms by (auto simp: CreateNode_def Let_def nodes_inv_def fill_node_def)

lemma nodes_inv_UpdateNode [inv_intros]:
  assumes "nodes_inv (st_nodes st)"
  shows "nodes_inv (st_nodes (fst (UpdateNode F now n st)))"
  using assms by (auto simp: UpdateNode_def Let_def live_def split: prod.split
      elim!: nodes_inv_exec_update)

lemma nodes_inv_DeleteNode [inv_intros]:
  assumes "nodes_inv (st_nodes st)"
  shows "nodes_inv (st_nodes (fst (DeleteNode F now i st)))"
  using assms by (auto simp: DeleteNode_def Let_def split: prod.split elim!: nodes_inv_exec_update)

lemma nodes_inv_TouchNode [inv_intros]:
  assumes "nodes_inv (st_nodes st)"
  shows "nodes_inv (st_nodes (fst (TouchNode F now i st)))"
  using assms by (auto simp: TouchNode_def Let_def live_def split: prod.split
      elim!: nodes_inv_exec_update)

lemma nodes_inv_CleanupInactiveNodes [inv_intros]:
  assumes "nodes_inv (st_nodes st)"
  shows "nodes_inv (st_nodes (fst (CleanupInactiveNodes F t now h st)))"
proof -
  have "\<And>n. n \<in> set (st_nodes st) \<Longrightarrow> Node_Status n = ''active'' \<Longrightarrow> Node_DeletedAt n = None"
    using assms by (fastforce simp: nodes_inv_def)
  then show ?thesis
    using assms by (auto simp: CleanupInactiveNodes_def Let_def inactive_rule_def split: prod.split
      elim!: nodes_inv_exec_update)
qed


section \<open>Lookups\<close>

lemma GetNodeByID_no_faults:
  "GetNodeByID no_faults i st =
     (case find (\<lambda>n. Node_ID n = i \<and> live n) (st_nodes st) of None \<Rightarrow> Inl ErrNodeNotFound | Some n \<Rightarrow> Inr n)"
  by (simp add: GetNodeByID_def query_row_def scanNode_def split: option.split)

lemma GetNodeByAuthKeyHash_no_faults:
  "GetNodeByAuthKeyHash no_faults h st =
     (case find (\<lambda>n. Node_AuthKeyHash n = h \<and> live n) (st_nodes st) of
        None \<Rightarrow> Inl ErrNodeNotFound | Some n \<Rightarrow> Inr n)"
  by (simp add: GetNodeByAuthKeyHash_def query_row_def scanNode_def split: option.split)

lemma GetNodeByID_InrD:
  "GetNodeByID F i st = Inr n \<Longrightarrow> n \<in> set (st_nodes st) \<and> Node_ID n = i \<and> live n"
  by (cases "query_row F Q_GetNodeByID ErrNodeNotFound (\<lambda>n. Node_ID n = i \<and> live n) (st_nodes st)")
    (auto simp: GetNodeByID_def scanNode_def dest!: query_row_Inr find_SomeD)

lemma GetNodeByAuthKeyHash_InrD:
  "GetNodeByAuthKeyHash F h st = Inr n \<Longrightarrow> n \<in> set (st_nodes st) \<and> Node_AuthKeyHash n = h \<and> live n"
  by (cases "query_row F Q_GetNodeByAuthKeyHash ErrNodeNotFound
        (\<lambda>n. Node_AuthKeyHash n = h \<and> live n) (st_nodes st)")
    (auto simp: GetNodeByAuthKeyHash_def scanNode_def dest!: query_row_Inr find_SomeD)

lemma GetNodeByAuthKeyHash_faults:
  "(\<And>q. \<not> F (Query q)) \<Longrightarrow> (\<And>q i. \<not> F (Scan q i)) \<Longrightarrow>
   GetNodeByAuthKeyHash F h st = GetNodeByAuthKeyHash no_faults h st"
  by (simp add: GetNodeByAuthKeyHash_def query_row_def split: option.split)

text \<open>The error of a lookup is "not found" exactly when no live row matches.\<close>

lemma GetNodeByAuthKeyHash_NotFoundD:
  "GetNodeByAuthKeyHash F h st = Inl ErrNodeNotFound \<Longrightarrow>
     \<forall>n\<in>set (st_nodes st). Node_AuthKeyHash n = h \<longrightarrow> \<not> live n"
  by (auto simp: GetNodeByAuthKeyHash_def query_row_def find_None_iff split: if_splits option.splits)

lemma GetNodeByID_NotFoundD:
  "GetNodeByID F i st = Inl ErrNodeNotFound \<Longrightarrow> \<forall>n\<in>set (st_nodes st). Node_ID n = i \<longrightarrow> \<not> live n"
  by (auto simp: GetNodeByID_def query_row_def find_None_iff split: if_splits option.splits)

lemma find_distinct_key:
  "distinct (map k ns) \<Longrightarrow> n \<in> set ns \<Longrightarrow> p n \<Longrightarrow> find (\<lambda>m. k m = k n \<and> p m) ns = Some n"
  by (induction ns) (auto simp: rev_image_eqI)

lemma GetNodeByID_present:
  "nodes_inv (st_nodes st) \<Longrightarrow> n \<in> set (st_nodes st) \<Longrightarrow> live n \<Longrightarrow>
   GetNodeByID no_faults (Node_ID n) st = Inr n"
  using find_distinct_key [of Node_ID "st_nodes st" n live]
  by (simp add: GetNodeByID_no_faults nodes_inv_def)

lemma GetNodeByAuthKeyHash_present:
  "nodes_inv (st_nodes st) \<Longrightarrow> n \<in> set (st_nodes st) \<Longrightarrow> live n \<Longrightarrow>
   GetNodeByAuthKeyHash no_faults (Node_AuthKeyHash n) st = Inr n"
  using find_distinct_key [of Node_AuthKeyHash "st_nodes st" n live]
  by (simp add: GetNodeByAuthKeyHash_no_faults nodes_inv_def)

section \<open>The interface of the registration handler\<close>

text \<open>
  What registering a node needs of a store: a lookup by key, an insertion that may be refused,
  and the two laws that connect them.  \<open>register\<close> is the check-then-insert of the handler.
\<close>

locale node_registry =
  fixes lookup :: "'h \<Rightarrow> 's \<Rightarrow> 'n option"
    and add :: "'n \<Rightarrow> 's \<Rightarrow> 's option"
    and key :: "'n \<Rightarrow> 'h"
    and good :: "'n \<Rightarrow> bool"
    and ok :: "'s \<Rightarrow> bool"
  assumes lookup_key: "lookup h s = Some n \<Longrightarrow> key n = h"
    and add_ok: "ok s \<Longrightarrow> good n \<Longrightarrow> add n s = Some s' \<Longrightarrow> ok s'"
    and add_lookup: "ok s \<Longrightarrow> good n \<Longrightarrow> add n s = Some s' \<Longrightarrow>
      lookup h s' = (if h = key n then Some n else lookup h s)"
begin

definition register :: "'n \<Rightarrow> 's \<Rightarrow> ('s \<times> 'n \<times> bool) option" where
  "register n s = (case lookup (key n) s of
     Some m \<Rightarrow> Some (s, m, True)
   | None \<Rightarrow> (case add n s of None \<Rightarrow> None | Some s' \<Rightarrow> Some (s', n, False)))"

lemma register_ok: "ok s \<Longrightarrow> good n \<Longrightarrow> register n s = Some (s', m, b) \<Longrightarrow> ok s'"
  by (auto simp: register_def dest: add_ok split: option.splits)

lemma register_lookup:
  "ok s \<Longrightarrow> good n \<Longrightarrow> register n s = Some (s', m, b) \<Longrightarrow> lookup (key n) s' = Some m \<and> key m = key n"
  by (auto simp: register_def dest: lookup_key add_lookup [where h = "key n"] split: option.splits)

lemma register_others:
  "ok s \<Longrightarrow> good n \<Longrightarrow> register n s = Some (s', m, b) \<Longrightarrow> h \<noteq> key n \<Longrightarrow> lookup h s' = lookup h s"
  by (auto simp: register_def dest: add_lookup [where h = h] split: option.splits)

text \<open>Registering the same key again, with any candidate, finds the first node and writes nothing.\<close>

lemma register_again:
  assumes "ok s" "good n" "register n s = Some (s', m, b)" "key n' = key n"
  shows "register n' s' = Some (s', m, True)"
  using register_lookup [OF assms(1-3)] assms(4) by (simp add: register_def)

end

definition node_lookup :: "string \<Rightarrow> SQLiteStore \<Rightarrow> Node option" where
  "node_lookup h st = find (\<lambda>n. Node_AuthKeyHash n = h \<and> live n) (st_nodes st)"

definition node_insert :: "Node \<Rightarrow> SQLiteStore \<Rightarrow> SQLiteStore option" where
  "node_insert n st =
     (if Node_ID n \<in> Node_ID ` set (st_nodes st) \<or> Node_AuthKeyHash n \<in> Node_AuthKeyHash ` set (st_nodes st)
      then None else Some (st\<lparr>st_nodes := st_nodes st @ [n]\<rparr>))"

lemma node_insert_nodes:
  "node_insert n st = Some st' \<Longrightarrow>
   Node_AuthKeyHash n \<notin> Node_AuthKeyHash ` set (st_nodes st) \<and> Node_ID n \<notin> Node_ID ` set (st_nodes st) \<and>
   st' = st\<lparr>st_nodes := st_nodes st @ [n]\<rparr>"
  by (auto simp: node_insert_def split: if_splits)

lemma find_append: "find p (xs @ ys) = (case find p xs of None \<Rightarrow> find p ys | Some x \<Rightarrow> Some x)"
  by (induction xs) auto

interpretation registry: node_registry node_lookup node_insert Node_AuthKeyHash live
  "\<lambda>st. nodes_inv (st_nodes st)"
proof unfold_locales
  show "Node_AuthKeyHash n = h" if "node_lookup h s = Some n" for h s n
    using that by (auto simp: node_lookup_def dest: find_SomeD)
  show "nodes_inv (st_nodes s')" if "nodes_inv (st_nodes s)" "live n" "node_insert n s = Some s'" for s n s'
    using that by (auto simp: nodes_inv_def live_def dest!: node_insert_nodes)
  show "node_lookup h s' = (if h = Node_AuthKeyHash n then Some n else node_lookup h s)"
    if "nodes_inv (st_nodes s)" "live n" "node_insert n s = Some s'" for s n s' h
  proof -
    have "h = Node_AuthKeyHash n \<Longrightarrow> find (\<lambda>n. Node_AuthKeyHash n = h \<and> live n) (st_nodes s) = None"
      using node_insert_nodes [OF that(3)] by (simp add: find_None_iff) (metis imageI)
    then show ?thesis
      using node_insert_nodes [OF that(3)] that(2)
      by (auto simp: node_lookup_def find_append split: option.split)
  qed
qed

lemma CreateNode_insert:
  "\<not> F (Exec Q_CreateNode) \<Longrightarrow> CreateNode F now n st =
     (case node_insert (fill_node now n) st of
        None \<Rightarrow> (st, Some (DBError (Exec Q_CreateNode)), fill_node now n)
      | Some st' \<Rightarrow> (st', None, fill_node now n))"
  by (simp add: CreateNode_def node_insert_def Let_def)

lemma GetNodeByAuthKeyHash_lookup:
  "GetNodeByAuthKeyHash no_faults h st =
     (case node_lookup h st of None \<Rightarrow> Inl ErrNodeNotFound | Some n \<Rightarrow> Inr n)"
  by (simp add: GetNodeByAuthKeyHash_no_faults node_lookup_def)


section \<open>Runs of operations\<close>

datatype node_op =
    OpCreate time Node
  | OpUpdate time Node
  | OpDelete time string
  | OpTouch time string
  | OpCleanup time time int

fun run_node_op :: "faults \<times> node_op \<Rightarrow> SQLiteStore \<Rightarrow> SQLiteStore" where
  "run_node_op (F, OpCreate now n) st = fst (CreateNode F now n st)"
| "run_node_op (F, OpUpdate now n) st = fst (UpdateNode F now n st)"
| "run_node_op (F, OpDelete now i) st = fst (DeleteNode F now i st)"
| "run_node_op (F, OpTouch now i) st = fst (TouchNode F now i st)"
| "run_node_op (F, OpCleanup t now h) st = fst (CleanupInactiveNodes F t now h st)"

definition run_node_ops :: "(faults \<times> node_op) list \<Rightarrow> SQLiteStore \<Rightarrow> SQLiteStore" where
  "run_node_ops ops st = fold run_node_op ops st"

lemma exec_update_keys:
  "exec_update F q p f rs = (rs', res) \<Longrightarrow> (\<And>r. k (f r) = k r) \<Longrightarrow> map k rs' = map k rs"
  by (auto simp: exec_update_def map_update_where_same split: if_splits)

lemma exec_update_node_keys:
  "exec_update F q p f rs = (rs', res) \<Longrightarrow>
   (\<And>r. Node_ID (f r) = Node_ID r) \<Longrightarrow> (\<And>r. Node_AuthKeyHash (f r) = Node_AuthKeyHash r) \<Longrightarrow>
   map Node_ID rs' = map Node_ID rs \<and> map Node_AuthKeyHash rs' = map Node_AuthKeyHash rs"
  using exec_update_keys by metis

lemma exec_update_in:
  "exec_update F q p f rs = (rs', res) \<Longrightarrow> r \<in> set rs \<Longrightarrow> \<not> p r \<Longrightarrow> r \<in> set rs'"
  by (force simp: exec_update_def set_update_where split: if_splits)

definition keys_distinct :: "SQLiteStore \<Rightarrow> bool" where
  "keys_distinct st \<longleftrightarrow> distinct (map Node_ID (st_nodes st)) \<and> distinct (map Node_AuthKeyHash (st_nodes st))"

lemma keys_distinct_run_node_op:
  assumes "keys_distinct st" shows "keys_distinct (run_node_op fop st)"
proof (cases "(fop, st)" rule: run_node_op.cases)
  case (1 F now n st)
  with assms show ?thesis by (auto simp: keys_distinct_def CreateNode_def Let_def fill_node_def)
qed (use assms in \<open>auto simp: keys_distinct_def UpdateNode_def DeleteNode_def TouchNode_def
  CleanupInactiveNodes_def Let_def split: prod.splits dest!: exec_update_node_keys\<close>)

text \<open>A deleted row is not touched by any operation.\<close>

lemma deleted_row_stays:
  assumes "r \<in> set (st_nodes st)" "Node_Status r = ''deleted''"
  shows "r \<in> set (st_nodes (run_node_op fop st))"
proof (cases "(fop, st)" rule: run_node_op.cases)
  case (1 F now n st)
  with assms show ?thesis by (auto simp: CreateNode_def Let_def)
qed (use assms in \<open>auto simp: UpdateNode_def DeleteNode_def TouchNode_def live_def inactive_rule_def
  CleanupInactiveNodes_def Let_def split: prod.splits dest!: exec_update_in\<close>)

lemma run_node_ops_invariant:
  assumes "keys_distinct st" "r \<in> set (st_nodes st)" "Node_Status r = ''deleted''"
  shows "keys_distinct (run_node_ops ops st) \<and> r \<in> set (st_nodes (run_node_ops ops st))"
  using assms unfolding run_node_ops_def
  by (induction ops arbitrary: st) (auto simp: keys_distinct_run_node_op deleted_row_stays)

section \<open>Properties\<close>

text \<open>Every node operation keeps the table's invariant (primary key and hash unique, a row
  with a deletion time has the status \<open>deleted\<close>), whatever the driver does.\<close>

theorem node_ops_preserve_inv:
  assumes "nodes_inv (st_nodes st)"
  shows "(Node_DeletedAt n = None \<longrightarrow> nodes_inv (st_nodes (fst (CreateNode F now n st)))) \<and>
    nodes_inv (st_nodes (fst (UpdateNode F now m st))) \<and>
    nodes_inv (st_nodes (fst (DeleteNode F now i st))) \<and>
    nodes_inv (st_nodes (fst (TouchNode F now i st))) \<and>
    nodes_inv (st_nodes (fst (CleanupInactiveNodes F t now h st)))"
  using assms by (auto intro: inv_intros)

theorem node_ops_preserve_inv_witness:
  "nodes_inv (st_nodes (sample_store [sample_node ''a'' ''h'' 1] [])) \<and>
   nodes_inv (st_nodes (fst (DeleteNode no_faults 5 ''a'' (sample_store [sample_node ''a'' ''h'' 1] []))))"
proof -
  have inv: "nodes_inv (st_nodes (sample_store [sample_node ''a'' ''h'' 1] []))"
    by (simp add: nodes_inv_def sample_store_def sample_node_def)
  show ?thesis using inv node_ops_preserve_inv [OF inv] by blast
qed

text \<open>C30.  A soft delete is final: after a successful \<open>DeleteNode\<close> the row stays in the table
  with the status \<open>deleted\<close>, and after any further run of node operations, with any driver
  faults, the node is found neither by its ID nor by its key's hash, and inserting a node with
  that hash fails.  So the auth key of a deleted node can never be registered again.\<close>

theorem deleted_node_is_final:
  assumes "nodes_inv (st_nodes st)" and "DeleteNode F now i st = (st', None)"
  shows "\<exists>n\<in>set (st_nodes st). Node_ID n = i \<and> live n \<and>
    n\<lparr>Node_Status := ''deleted'', Node_DeletedAt := Some now, Node_UpdatedAt := now\<rparr> \<in> set (st_nodes st') \<and>
    (\<forall>ops. GetNodeByID no_faults i (run_node_ops ops st') = Inl ErrNodeNotFound \<and>
       GetNodeByAuthKeyHash no_faults (Node_AuthKeyHash n) (run_node_ops ops st') = Inl ErrNodeNotFound \<and>
       (\<forall>G t m. Node_AuthKeyHash m = Node_AuthKeyHash n \<longrightarrow>
          CreateNode G t m (run_node_ops ops st') =
            (run_node_ops ops st', Some (DBError (Exec Q_CreateNode)), fill_node t m)))"
proof -
  let ?p = "\<lambda>r. Node_ID r = i \<and> live r"
  let ?f = "\<lambda>r. r\<lparr>Node_Status := ''deleted'', Node_DeletedAt := Some now, Node_UpdatedAt := now\<rparr>"
  have st': "st_nodes st' = update_where ?p ?f (st_nodes st)"
    and "count_where ?p (st_nodes st) \<noteq> 0"
    using assms(2) by (auto simp: DeleteNode_def exec_update_def Let_def split: if_splits)
  then obtain n where n: "n \<in> set (st_nodes st)" "Node_ID n = i" "live n" by auto
  let ?r = "?f n"
  have r: "?r \<in> set (st_nodes st')" using n by (force simp: st' set_update_where)
  have "keys_distinct st'"
    using assms(1) by (simp add: keys_distinct_def st' nodes_inv_def map_update_where_same)
  then have run: "keys_distinct (run_node_ops ops st') \<and> ?r \<in> set (st_nodes (run_node_ops ops st'))" for ops
    using run_node_ops_invariant r by simp
  have only: "m = ?r" if "m \<in> set (st_nodes (run_node_ops ops st'))"
      "Node_ID m = i \<or> Node_AuthKeyHash m = Node_AuthKeyHash n" for m ops
    using run [of ops] that n(2) inj_onD [of Node_ID "set (st_nodes (run_node_ops ops st'))" m ?r]
      inj_onD [of Node_AuthKeyHash "set (st_nodes (run_node_ops ops st'))" m ?r]
    by (auto simp: keys_distinct_def distinct_map)
  have dead: "\<not> live ?r" by (simp add: live_def)
  have "find (\<lambda>m. Node_ID m = i \<and> live m) (st_nodes (run_node_ops ops st')) = None" for ops
    unfolding find_None_iff using only dead by blast
  then have "GetNodeByID no_faults i (run_node_ops ops st') = Inl ErrNodeNotFound" for ops
    by (simp add: GetNodeByID_no_faults)
  moreover have "find (\<lambda>m. Node_AuthKeyHash m = Node_AuthKeyHash n \<and> live m)
      (st_nodes (run_node_ops ops st')) = None" for ops
    unfolding find_None_iff using only dead by blast
  then have "GetNodeByAuthKeyHash no_faults (Node_AuthKeyHash n) (run_node_ops ops st') =
      Inl ErrNodeNotFound" for ops
    by (simp add: GetNodeByAuthKeyHash_no_faults)
  moreover have "Node_AuthKeyHash n \<in> Node_AuthKeyHash ` set (st_nodes (run_node_ops ops st'))" for ops
    using run [of ops] by (intro rev_image_eqI [of ?r]) auto
  ultimately show ?thesis
    using n r by (intro bexI [of _ n]) (auto simp: CreateNode_def Let_def fill_node_def)
qed

theorem deleted_node_is_final_witness:
  "let st = sample_store [sample_node ''a'' ''h'' 1] []; st' = fst (DeleteNode no_faults 5 ''a'' st) in
   DeleteNode no_faults 5 ''a'' st = (st', None) \<and>
   GetNodeByID no_faults ''a'' (run_node_ops [(no_faults, OpTouch 6 ''a'')] st') = Inl ErrNodeNotFound"
proof -
  let ?st = "sample_store [sample_node ''a'' ''h'' 1] []"
  have inv: "nodes_inv (st_nodes ?st)"
    by (simp add: nodes_inv_def sample_store_def sample_node_def)
  have "snd (DeleteNode no_faults 5 ''a'' ?st) = None"
    by (simp add: DeleteNode_def exec_update_def sample_store_def sample_node_def live_def)
  then have del: "DeleteNode no_faults 5 ''a'' ?st = (fst (DeleteNode no_faults 5 ''a'' ?st), None)"
    by (metis prod.collapse)
  from deleted_node_is_final [OF inv del] del show ?thesis unfolding Let_def by blast
qed


lemma pages_concat: "concat (map (\<lambda>k. take n (drop (k * n) xs)) [0..<K]) = take (K * n) xs"
proof (induction K)
  case (Suc K)
  then show ?case by (simp add: take_add [of "K * n" n xs, symmetric] add.commute)
qed simp

definition listing :: "string \<Rightarrow> SQLiteStore \<Rightarrow> Node list" where
  "listing status st = order_by_desc Node_CreatedAt (filter (list_filter status) (st_nodes st))"

lemma ListNodes_Inr:
  "ListNodes F status limit offset st = Inr (page, cnt) \<Longrightarrow>
   page = take (nat (if limit \<le> 0 then 20 else limit)) (drop (nat offset) (listing status st)) \<and>
   cnt = int (length (listing status st))"
  by (auto simp: ListNodes_def query_count_def listing_def scanNode_def count_where_def Let_def
      map_idI dest!: collect_rows_Inr split: if_splits sum.splits)

text \<open>\<open>ListNodes\<close>: whenever it returns, the page holds rows of the table that pass the
  status filter, newest first, at most \<open>limit\<close> of them (20 when no positive limit is given);
  the count is the number of all matching rows, whatever the page; and without faults the pages
  of size \<open>k\<close> put together are the matching rows, each exactly once.\<close>

theorem ListNodes_correct:
  assumes "ListNodes F status limit offset st = Inr (page, cnt)"
  shows "set page \<subseteq> {n \<in> set (st_nodes st). list_filter status n} \<and>
    sorted_wrt (\<lambda>a b. Node_CreatedAt b \<le> Node_CreatedAt a) page \<and>
    int (length page) = min (if limit \<le> 0 then 20 else limit) (max 0 (cnt - max 0 offset)) \<and>
    cnt = int (count_where (list_filter status) (st_nodes st)) \<and>
    (0 < k \<and> int (length (st_nodes st)) \<le> int (K * k) \<longrightarrow>
      mset (concat (map (\<lambda>j. fst (projr (ListNodes no_faults status (int k) (int (j * k)) st))) [0..<K])) =
      filter_mset (list_filter status) (mset (st_nodes st)))"
proof -
  let ?all = "listing status st"
  let ?lim = "nat (if limit \<le> 0 then 20 else limit)"
  have page: "page = take ?lim (drop (nat offset) ?all)" and cnt: "cnt = int (length ?all)"
    using ListNodes_Inr [OF assms] by simp_all
  have len: "length ?all = count_where (list_filter status) (st_nodes st)"
    by (simp add: listing_def count_where_def)
  have sorted: "sorted_wrt (\<lambda>a b. Node_CreatedAt b \<le> Node_CreatedAt a) page"
    unfolding page listing_def by (intro sorted_wrt_take sorted_wrt_drop sorted_order_by_desc)
  have sub: "set page \<subseteq> {n \<in> set (st_nodes st). list_filter status n}"
    using set_take_subset [of ?lim "drop (nat offset) ?all"] set_drop_subset [of "nat offset" ?all]
    unfolding page by (auto simp: listing_def)
  have leng: "int (length page) = min (if limit \<le> 0 then 20 else limit) (max 0 (cnt - max 0 offset))"
    unfolding page cnt by (cases "offset \<le> 0") (auto simp: min_def max_def)
  have pg: "fst (projr (ListNodes no_faults status (int k) (int (j * k)) st)) = take k (drop (j * k) ?all)"
    if "0 < k" for j k
    using that by (simp add: ListNodes_def query_count_def listing_def scanNode_def Let_def map_idI
        del: of_nat_mult)
  have "mset (concat (map (\<lambda>j. fst (projr (ListNodes no_faults status (int k) (int (j * k)) st))) [0..<K])) =
      filter_mset (list_filter status) (mset (st_nodes st))"
    if "0 < k" "int (length (st_nodes st)) \<le> int (K * k)"
  proof -
    have "length ?all \<le> K * k"
      using that(2) by (auto simp: listing_def simp del: of_nat_mult intro: order.trans [OF length_filter_le])
    then show ?thesis
      using pg [OF that(1)] pages_concat [of k ?all K] by (simp add: listing_def del: of_nat_mult)
  qed
  with sub sorted leng cnt len show ?thesis by auto
qed

theorem ListNodes_correct_witness:
  "let st = sample_store [sample_node ''a'' ''h'' 1, sample_node ''b'' ''i'' 2] [] in
   ListNodes no_faults [] 1 0 st = Inr ([sample_node ''b'' ''i'' 2], 2) \<and>
   sorted_wrt (\<lambda>a b. Node_CreatedAt b \<le> Node_CreatedAt a) [sample_node ''b'' ''i'' 2]"
proof -
  let ?st = "sample_store [sample_node ''a'' ''h'' 1, sample_node ''b'' ''i'' 2] []"
  have run: "ListNodes no_faults [] 1 0 ?st = Inr ([sample_node ''b'' ''i'' 2], 2)"
    by (simp add: ListNodes_def query_count_def list_filter_def live_def sample_store_def sample_node_def
        order_by_desc_def scanNode_def)
  from ListNodes_correct [OF run] run show ?thesis by (simp add: Let_def)
qed

lemma CleanupInactiveNodes_Inr:
  "CleanupInactiveNodes F t now h st = (st', Inr k) \<Longrightarrow>
   st' = st\<lparr>st_nodes := update_where (inactive_rule (t + hours (- (if h \<le> 0 then 24 else h))))
      (\<lambda>r. r\<lparr>Node_Status := ''inactive'', Node_UpdatedAt := now\<rparr>) (st_nodes st)\<rparr> \<and>
   k = count_where (inactive_rule (t + hours (- (if h \<le> 0 then 24 else h)))) (st_nodes st)"
  by (auto simp: CleanupInactiveNodes_def exec_update_def Let_def split: if_splits)

text \<open>C31.  \<open>CleanupInactiveNodes\<close> with a threshold of \<open>h\<close> hours (of any size that does not
  overflow a duration) turns exactly the active nodes that were never seen or last seen more than
  \<open>h\<close> hours ago into inactive ones, counts them, changes no other row or relay, and leaves no
  such node active.\<close>

theorem CleanupInactiveNodes_correct:
  assumes "CleanupInactiveNodes F t now h st = (st', Inr k)" and "0 < h" and "h \<le> 2562047"
  shows "let stale = (\<lambda>n. Node_Status n = ''active'' \<and>
             (\<forall>seen. Node_LastSeenAt n = Some seen \<longrightarrow> h * Hour < t - seen)) in
    st' = st\<lparr>st_nodes := map (\<lambda>n. if stale n
        then n\<lparr>Node_Status := ''inactive'', Node_UpdatedAt := now\<rparr> else n) (st_nodes st)\<rparr> \<and>
    k = length (filter stale (st_nodes st)) \<and>
    (\<forall>n\<in>set (st_nodes st'). \<not> stale n)"
proof -
  have "hours (- h) = - (h * Hour)"
    using assms(2,3) by (simp add: hours_def Hour_def Second_def)
  then have rule: "inactive_rule (t + hours (- h)) = (\<lambda>n. Node_Status n = ''active'' \<and>
             (\<forall>seen. Node_LastSeenAt n = Some seen \<longrightarrow> h * Hour < t - seen))"
    by (auto simp: inactive_rule_def fun_eq_iff split: option.splits)
  show ?thesis
    using CleanupInactiveNodes_Inr [OF assms(1)] assms(2)
    by (auto simp: Let_def rule update_where_def count_where_def split: if_splits)
qed

theorem CleanupInactiveNodes_correct_witness:
  "let st = sample_store [sample_node ''a'' ''h'' 1] [];
       st' = fst (CleanupInactiveNodes no_faults 100 101 24 st) in
   CleanupInactiveNodes no_faults 100 101 24 st = (st', Inr 1) \<and>
   map Node_Status (st_nodes st') = [''inactive'']"
proof -
  let ?st = "sample_store [sample_node ''a'' ''h'' 1] []"
  let ?r = "CleanupInactiveNodes no_faults 100 101 24 ?st"
  have run: "?r = (fst ?r, Inr 1)"
    by (simp add: CleanupInactiveNodes_def exec_update_def inactive_rule_def sample_store_def sample_node_def)
  from CleanupInactiveNodes_correct [OF run] run show ?thesis
    by (simp add: Let_def sample_store_def sample_node_def)
qed

text \<open>\<open>GetNodeCountsByStatus\<close> without faults counts the rows of every status, deleted
  ones included, and lists no other status; but when the driver stops the row loop early (only
  \<open>rows.Err()\<close> would tell) it still returns a map without an error, one that lacks the statuses
  not reached.\<close>

theorem GetNodeCountsByStatus_correct:
  "GetNodeCountsByStatus no_faults st =
     Inr (\<lambda>s. if s \<in> Node_Status ` set (st_nodes st)
             then Some (int (count_where (\<lambda>n. Node_Status n = s) (st_nodes st))) else None) \<and>
   GetNodeCountsByStatus (\<lambda>c. c = Next Q_NodeCounts 0) st = Inr Map.empty"
proof -
  have "fold (\<lambda>(s, c) m. m(s \<mapsto> c)) (map (\<lambda>s. (s, f s)) ss) m0 =
      (\<lambda>s. if s \<in> set ss then Some (f s) else m0 s)" for f :: "string \<Rightarrow> int" and ss m0
    by (induction ss arbitrary: m0) (auto simp: fun_eq_iff)
  then have "GetNodeCountsByStatus no_faults st =
     Inr (\<lambda>s. if s \<in> Node_Status ` set (st_nodes st)
             then Some (int (count_where (\<lambda>n. Node_Status n = s) (st_nodes st))) else None)"
    by (simp add: GetNodeCountsByStatus_def read_rows_no_faults status_groups_def)
  moreover have "read_rows (\<lambda>c. c = Next Q_NodeCounts 0) Q_NodeCounts 0 xs = ([], NextFailed 0)"
    for xs :: "(string \<times> int) list"
    by (cases xs) simp_all
  ultimately show ?thesis by (simp add: GetNodeCountsByStatus_def)
qed

end
