(* ===== verification/Auth.thy ===== *)
theory Auth
  imports Http Node_Store
begin

text \<open>
  Authentication: the auth keys and their hashes (\<open>api/auth.go\<close>, with HMAC-SHA256 written out),
  the bearer middleware (\<open>middleware/auth.go\<close>), and the two checks handlers make themselves:
  \<open>authorizeAdminOnly\<close> (\<open>api/nodes.go\<close>) and \<open>authorizeNodeOwnership\<close> (\<open>api/relays.go\<close>).
\<close>

unbundle bit_operations_syntax

section \<open>SHA-256 and HMAC\<close>

definition sha_K :: "u32 list" where
  "sha_K = [0x428a2f98, 0x71374491, 0xb5c0fbcf, 0xe9b5dba5, 0x3956c25b, 0x59f111f1, 0x923f82a4, 0xab1c5ed5,
    0xd807aa98, 0x12835b01, 0x243185be, 0x550c7dc3, 0x72be5d74, 0x80deb1fe, 0x9bdc06a7, 0xc19bf174,
    0xe49b69c1, 0xefbe4786, 0x0fc19dc6, 0x240ca1cc, 0x2de92c6f, 0x4a7484aa, 0x5cb0a9dc, 0x76f988da,
    0x983e5152, 0xa831c66d, 0xb00327c8, 0xbf597fc7, 0xc6e00bf3, 0xd5a79147, 0x06ca6351, 0x14292967,
    0x27b70a85, 0x2e1b2138, 0x4d2c6dfc, 0x53380d13, 0x650a7354, 0x766a0abb, 0x81c2c92e, 0x92722c85,
    0xa2bfe8a1, 0xa81a664b, 0xc24b8b70, 0xc76c51a3, 0xd192e819, 0xd6990624, 0xf40e3585, 0x106aa070,
    0x19a4c116, 0x1e376c08, 0x2748774c, 0x34b0bcb5, 0x391c0cb3, 0x4ed8aa4a, 0x5b9cca4f, 0x682e6ff3,
    0x748f82ee, 0x78a5636f, 0x84c87814, 0x8cc70208, 0x90befffa, 0xa4506ceb, 0xbef9a3f7, 0xc67178f2]"

type_synonym sha_state = "u32 \<times> u32 \<times> u32 \<times> u32 \<times> u32 \<times> u32 \<times> u32 \<times> u32"

definition sha_H :: sha_state where
  "sha_H = (0x6a09e667, 0xbb67ae85, 0x3c6ef372, 0xa54ff53a, 0x510e527f, 0x9b05688c, 0x1f83d9ab, 0x5be0cd19)"

fun be_word :: "string \<Rightarrow> u32" where
  "be_word s = fold (\<lambda>c w. push_bit 8 w OR word_of_nat (byte c)) s 0"

fun chunks :: "nat \<Rightarrow> nat \<Rightarrow> 'a list \<Rightarrow> 'a list list" where
  "chunks k 0 xs = []"
| "chunks k (Suc n) xs = take k xs # chunks k n (drop k xs)"

text \<open>The message schedule, newest word first.\<close>

fun schedule :: "nat \<Rightarrow> u32 list \<Rightarrow> u32 list" where
  "schedule 0 ws = ws"
| "schedule (Suc n) ws =
     (let x = ws ! 14; y = ws ! 1;
          s0 = word_rotr 7 x XOR word_rotr 18 x XOR drop_bit 3 x;
          s1 = word_rotr 17 y XOR word_rotr 19 y XOR drop_bit 10 y
      in schedule n ((ws ! 15 + s0 + ws ! 6 + s1) # ws))"

definition sha_round :: "u32 \<times> u32 \<Rightarrow> sha_state \<Rightarrow> sha_state" where
  "sha_round kw st = (case kw of (k, w) \<Rightarrow> case st of (a, b, c, d, e, f, g, h) \<Rightarrow>
     let S1 = word_rotr 6 e XOR word_rotr 11 e XOR word_rotr 25 e;
         ch = (e AND f) XOR (NOT e AND g);
         t1 = h + S1 + ch + k + w;
         S0 = word_rotr 2 a XOR word_rotr 13 a XOR word_rotr 22 a;
         maj = (a AND b) XOR (a AND c) XOR (b AND c);
         t2 = S0 + maj
     in (t1 + t2, a, b, c, d + t1, e, f, g))"

definition sha_block :: "string \<Rightarrow> sha_state \<Rightarrow> sha_state" where
  "sha_block blk st =
     (let ws = rev (schedule 48 (rev (map be_word (chunks 4 16 blk))))
      in case (st, fold sha_round (zip sha_K ws) st) of
        ((a, b, c, d, e, f, g, h), (a', b', c', d', e', f', g', h')) \<Rightarrow>
          (a + a', b + b', c + c', d + d', e + e', f + f', g + g', h + h'))"

text \<open>Big-endian bytes; the length field counts bits, modulo 2^64.\<close>

definition be_bytes :: "nat \<Rightarrow> 'a::len word \<Rightarrow> string" where
  "be_bytes k w = map (\<lambda>i. char_of (unat (drop_bit (8 * (k - 1 - i)) w AND 0xff))) [0..<k]"

definition sha_pad :: "string \<Rightarrow> string" where
  "sha_pad m = m @ CHR 0x80 # replicate ((119 - length m mod 64) mod 64) CHR 0x00 @ be_bytes 8 (word_of_nat (8 * length m) :: u64)"

definition sha256 :: "string \<Rightarrow> string" where
  "sha256 m =
     (let p = sha_pad m in
      case fold sha_block (chunks 64 (length p div 64) p) sha_H of (a, b, c, d, e, f, g, h) \<Rightarrow>
        concat (map (\<lambda>w. be_bytes 4 w) [a, b, c, d, e, f, g, h]))"

definition xor_byte :: "nat \<Rightarrow> char \<Rightarrow> char" where
  "xor_byte n c = char_of ((n XOR byte c) :: nat)"

definition hmac_sha256 :: "string \<Rightarrow> string \<Rightarrow> string" where
  "hmac_sha256 key msg =
     (let k0 = (if 64 < length key then sha256 key else key);
          k = k0 @ replicate (64 - length k0) CHR 0x00
      in sha256 (map (xor_byte 0x5c) k @ sha256 (map (xor_byte 0x36) k @ msg)))"

section \<open>Auth keys (api/auth.go)\<close>

definition AuthKeyPrefix :: string where "AuthKeyPrefix = ''gc_''"
definition MinAuthKeyLength :: nat where "MinAuthKeyLength = 20"
definition DefaultHMACSecret :: string where "DefaultHMACSecret = ''coord-server-default-hmac-secret''"

definition ValidateAuthKeyFormat :: "string \<Rightarrow> bool" where
  "ValidateAuthKeyFormat key0 =
     (let key = TrimSpace key0 in
      if length key < MinAuthKeyLength then False
      else if \<not> HasPrefix key AuthKeyPrefix then False
      else True)"

definition HashAuthKey :: "string \<Rightarrow> string \<Rightarrow> string" where
  "HashAuthKey key secret =
     (let secret' = (if secret = [] then DefaultHMACSecret else secret)
      in EncodeToString (hmac_sha256 secret' key))"

text \<open>
  \<open>rnd\<close> is what \<open>rand.Read\<close> gives: eight bytes, or \<open>None\<close> on an error.  The fallback formats
  an already encoded string with \<open>%x\<close>, which encodes it once more.
\<close>

definition GenerateNodeID :: "string option \<Rightarrow> string" where
  "GenerateNodeID rnd =
     (case rnd of
        None \<Rightarrow> ''goy-node-'' @ EncodeToString (EncodeToString ''fallback'')
      | Some bytes \<Rightarrow> ''goy-node-'' @ EncodeToString bytes)"

section \<open>The bearer token\<close>

text \<open>\<open>strings.SplitN(h, " ", 2)\<close> and the comparison of the scheme; \<open>None\<close> is a malformed header.\<close>

definition bearer_token :: "string \<Rightarrow> string option" where
  "bearer_token h =
     (case Cut CHR '' '' h of
        None \<Rightarrow> None
      | Some (scheme, rest) \<Rightarrow> if \<not> EqualFold scheme ''Bearer'' then None else Some (TrimSpace rest))"

section \<open>AuthMiddleware (middleware/auth.go)\<close>

definition is_public :: "string list \<Rightarrow> string \<Rightarrow> bool" where
  "is_public pubs path \<longleftrightarrow> (\<exists>p\<in>set pubs. path = p \<or> HasPrefix path (p @ ''/''))"

definition writeUnauthorized :: "string \<Rightarrow> Response" where
  "writeUnauthorized details =
     json_response 401 (ErrorBody ((error_response ''unauthorized'')
       \<lparr>er_Details := (if details = [] then ''valid API key required'' else details)\<rparr>))"

definition bearer_hint :: string where
  "bearer_hint = ''Authorization header format must be '' @ CHR 0x27 # ''Bearer <token>'' @ [CHR 0x27]"

text \<open>\<open>None\<close>: the request goes to the next handler; otherwise the answer.\<close>

definition AuthMiddleware :: "Config \<Rightarrow> Request \<Rightarrow> Metrics \<Rightarrow> Metrics \<times> Response option" where
  "AuthMiddleware cfg r m =
     (let a = cfg_Auth cfg in
      if \<not> RequireAuth a then (m, None)
      else if is_public (PublicPaths a) (URLPath r) then (m, None)
      else if Authorization r = []
      then (inc_AuthFailures m, Some (writeUnauthorized ''missing Authorization header''))
      else case bearer_token (Authorization r) of
        None \<Rightarrow> (inc_AuthFailures m,
                Some (writeUnauthorized bearer_hint))
      | Some token \<Rightarrow>
          let isAdmin = (length token > 0 \<and> ConstantTimeEq token (AdminAPIKey a));
              isNodeKeyFormat = (HasPrefix token ''gc_'' \<and> length token \<ge> 20)
          in if \<not> isAdmin \<and> \<not> isNodeKeyFormat
             then (inc_AuthFailures m, Some (writeUnauthorized ''invalid API key''))
             else (m, None))"

section \<open>Checks inside handlers\<close>

definition authorizeAdminOnly :: "Config \<Rightarrow> Request \<Rightarrow> bool" where
  "authorizeAdminOnly cfg r =
     (let a = cfg_Auth cfg in
      if \<not> RequireAuth a then True
      else if Authorization r = [] then False
      else case bearer_token (Authorization r) of
        None \<Rightarrow> False
      | Some token \<Rightarrow>
          if token = [] \<or> AdminAPIKey a = [] then False else ConstantTimeEq token (AdminAPIKey a))"

definition authorizeNodeOwnership :: "faults \<Rightarrow> Config \<Rightarrow> Request \<Rightarrow> string \<Rightarrow> SQLiteStore \<Rightarrow> bool" where
  "authorizeNodeOwnership F cfg r nodeID st =
     (let a = cfg_Auth cfg in
      if \<not> RequireAuth a then True
      else if Authorization r = [] then False
      else case bearer_token (Authorization r) of
        None \<Rightarrow> False
      | Some token \<Rightarrow>
          if token = [] then False
          else if length token > 0 \<and> ConstantTimeEq token (AdminAPIKey a) then True
          else case GetNodeByAuthKeyHash F (HashAuthKey token (HMACSecret a)) st of
            Inl _ \<Rightarrow> False
          | Inr node \<Rightarrow> Node_ID node = nodeID)"

section \<open>Lemmas\<close>

lemma bearer_token_Nil [simp]: "bearer_token [] = None"
  by (simp add: bearer_token_def)

lemma bearer_token_trimmed: "bearer_token h = Some t \<Longrightarrow> trimmed t"
  by (auto simp: bearer_token_def split: option.splits if_splits)

lemma bearer_token_Bearer: "bearer_token (''Bearer '' @ t) = Some (TrimSpace t)"
  by (simp add: bearer_token_def)

lemma bearer_token_exists: "(\<exists>h. bearer_token h = Some t) \<longleftrightarrow> trimmed t"
  using bearer_token_trimmed bearer_token_Bearer TrimSpace_trimmed by metis

text \<open>The node a token belongs to.\<close>

definition owns :: "Config \<Rightarrow> string \<Rightarrow> string \<Rightarrow> SQLiteStore \<Rightarrow> bool" where
  "owns cfg token i st \<longleftrightarrow>
     (\<exists>n\<in>set (st_nodes st). live n \<and> Node_ID n = i \<and>
        Node_AuthKeyHash n = HashAuthKey token (HMACSecret (cfg_Auth cfg)))"

lemma owns_lookup:
  assumes "nodes_inv (st_nodes st)"
  shows "owns cfg token i st \<longleftrightarrow>
    (\<exists>n. GetNodeByAuthKeyHash no_faults (HashAuthKey token (HMACSecret (cfg_Auth cfg))) st = Inr n \<and> Node_ID n = i)"
proof -
  let ?h = "HashAuthKey token (HMACSecret (cfg_Auth cfg))"
  have dist: "inj_on Node_AuthKeyHash (set (st_nodes st))"
    using assms by (simp add: nodes_inv_def distinct_map)
  have fnd: "find (\<lambda>m. Node_AuthKeyHash m = ?h \<and> live m) (st_nodes st) = Some n \<longleftrightarrow>
      n \<in> set (st_nodes st) \<and> Node_AuthKeyHash n = ?h \<and> live n" for n
  proof
    assume n: "n \<in> set (st_nodes st) \<and> Node_AuthKeyHash n = ?h \<and> live n"
    then obtain m where m: "find (\<lambda>m. Node_AuthKeyHash m = ?h \<and> live m) (st_nodes st) = Some m"
      by (cases "find (\<lambda>m. Node_AuthKeyHash m = ?h \<and> live m) (st_nodes st)") (auto simp: find_None_iff)
    from find_SomeD [OF m] n dist have "m = n" by (metis inj_onD)
    with m show "find (\<lambda>m. Node_AuthKeyHash m = ?h \<and> live m) (st_nodes st) = Some n" by simp
  qed (auto dest: find_SomeD)
  have "GetNodeByAuthKeyHash no_faults ?h st = Inr n \<longleftrightarrow>
      n \<in> set (st_nodes st) \<and> Node_AuthKeyHash n = ?h \<and> live n" for n
    unfolding fnd [symmetric] by (simp add: GetNodeByAuthKeyHash_no_faults split: option.splits)
  then show ?thesis by (auto simp: owns_def)
qed

lemma authorize_owns:
  assumes "authorizeNodeOwnership F cfg r i st" and "RequireAuth (cfg_Auth cfg)"
  shows "\<exists>t. bearer_token (Authorization r) = Some t \<and> t \<noteq> [] \<and>
    (t = AdminAPIKey (cfg_Auth cfg) \<or> owns cfg t i st)"
  using assms
  by (auto simp: authorizeNodeOwnership_def Let_def owns_def dest!: GetNodeByAuthKeyHash_InrD
      split: if_splits option.splits sum.splits)

section \<open>Properties\<close>

text \<open>C18.  With authentication on, \<open>AuthMiddleware\<close> lets a request to a path that is not public
  through exactly when its bearer token is the admin key or merely looks like a node key (prefix
  \<open>gc_\<close>, twenty bytes or more): the token is looked up in no table.  Every other request is
  answered 401 and counted.\<close>

theorem AuthMiddleware_passes_iff:
  assumes "RequireAuth (cfg_Auth cfg)" and "\<not> is_public (PublicPaths (cfg_Auth cfg)) (URLPath r)"
  shows "(if \<exists>t. bearer_token (Authorization r) = Some t \<and> t \<noteq> [] \<and>
              (t = AdminAPIKey (cfg_Auth cfg) \<or> prefix ''gc_'' t \<and> 20 \<le> length t)
          then AuthMiddleware cfg r m = (m, None)
          else \<exists>resp. AuthMiddleware cfg r m = (inc_AuthFailures m, Some resp) \<and> Status resp = 401)"
  using assms
  by (cases "bearer_token (Authorization r)")
    (auto simp: AuthMiddleware_def Let_def writeUnauthorized_def)

definition auth_cfg :: "bool \<Rightarrow> string \<Rightarrow> Config" where
  "auth_cfg req key = Defaults\<lparr>cfg_Auth := (cfg_Auth Defaults)\<lparr>RequireAuth := req, AdminAPIKey := key\<rparr>\<rparr>"

definition sample_request :: "string \<Rightarrow> string \<Rightarrow> string \<Rightarrow> Request" where
  "sample_request meth path auth =
     \<lparr>Method = meth, URLPath = path, Host = ''h'', RemoteAddr = ''1.2.3.4:5'', Authorization = auth,
      XForwardedFor = [], q_since = [], q_min_storage_gb = [], ContentLength = 0, RequestBody = []\<rparr>"

theorem AuthMiddleware_passes_iff_witness:
  "let r = sample_request ''DELETE'' ''/v1/nodes/x'' ''Bearer gc_01234567890123456'' in
   AuthMiddleware (auth_cfg True ''secret'') r initial_metrics = (initial_metrics, None)"
proof -
  let ?r = "sample_request ''DELETE'' ''/v1/nodes/x'' ''Bearer gc_01234567890123456''"
  have req: "RequireAuth (cfg_Auth (auth_cfg True ''secret''))" by (simp add: auth_cfg_def)
  have pub: "\<not> is_public (PublicPaths (cfg_Auth (auth_cfg True ''secret''))) (URLPath ?r)"
    by (simp add: is_public_def auth_cfg_def Defaults_def sample_request_def)
  have "trimmed ''gc_01234567890123456''" unfolding TrimSpace_eq_self [symmetric] by code_simp
  then have "bearer_token (Authorization ?r) = Some ''gc_01234567890123456''"
    using bearer_token_Bearer [of "''gc_01234567890123456''"] by (simp add: sample_request_def)
  with AuthMiddleware_passes_iff [OF req pub, of initial_metrics] show ?thesis by (simp add: Let_def)
qed

text \<open>C19.  \<open>authorizeNodeOwnership\<close>: with authentication on, whatever the driver does, only the
  admin key or the key of that live node is accepted, and without driver faults exactly these;
  in particular the key of one node is never accepted for another node unless their keys have
  the same hash.\<close>

theorem authorizeNodeOwnership_iff:
  assumes "nodes_inv (st_nodes st)" and "RequireAuth (cfg_Auth cfg)"
  shows "(authorizeNodeOwnership no_faults cfg r i st \<longleftrightarrow>
      (\<exists>t. bearer_token (Authorization r) = Some t \<and> t \<noteq> [] \<and>
        (t = AdminAPIKey (cfg_Auth cfg) \<or> owns cfg t i st))) \<and>
    (\<forall>F. authorizeNodeOwnership F cfg r i st \<longrightarrow> authorizeNodeOwnership no_faults cfg r i st)"
proof -
  have "authorizeNodeOwnership no_faults cfg r i st"
    if "bearer_token (Authorization r) = Some t" "t \<noteq> []" "t = AdminAPIKey (cfg_Auth cfg) \<or> owns cfg t i st" for t
    using that assms(2) owns_lookup [OF assms(1), of cfg t i]
    by (auto simp: authorizeNodeOwnership_def Let_def)
  with authorize_owns assms(2) show ?thesis by metis
qed

theorem authorizeNodeOwnership_iff_witness:
  "let st = sample_store [sample_node ''a'' (HashAuthKey ''gc_01234567890123456'' []) 1] [];
       r = sample_request ''PUT'' ''/v1/relays/a'' ''Bearer gc_01234567890123456'' in
   authorizeNodeOwnership no_faults (auth_cfg True ''secret'') r ''a'' st"
proof -
  let ?st = "sample_store [sample_node ''a'' (HashAuthKey ''gc_01234567890123456'' []) 1] []"
  let ?r = "sample_request ''PUT'' ''/v1/relays/a'' ''Bearer gc_01234567890123456''"
  have inv: "nodes_inv (st_nodes ?st)" by (simp add: nodes_inv_def sample_store_def sample_node_def)
  have req: "RequireAuth (cfg_Auth (auth_cfg True ''secret''))" by (simp add: auth_cfg_def)
  have "trimmed ''gc_01234567890123456''" unfolding TrimSpace_eq_self [symmetric] by code_simp
  then have "bearer_token (Authorization ?r) = Some ''gc_01234567890123456''"
    using bearer_token_Bearer [of "''gc_01234567890123456''"] by (simp add: sample_request_def)
  moreover have "owns (auth_cfg True ''secret'') ''gc_01234567890123456'' ''a'' ?st"
    by (simp add: owns_def sample_store_def sample_node_def live_def auth_cfg_def Defaults_def)
  ultimately show ?thesis
    using authorizeNodeOwnership_iff [OF inv req, of ?r "''a''"] by (simp add: Let_def)
qed



end
