(* ===== verification/Relay_Store.thy ===== *)
theory Relay_Store
  imports Store_Base
begin

text \<open>
  The relay operations of \<open>sqlite.go\<close>: \<open>UpsertRelay\<close>, \<open>GetRelayByNodeID\<close>,
  \<open>ListActiveRelays\<close>, \<open>UpdateRelayHeartbeat\<close>, \<open>UpdateRelayFull\<close>,
  \<open>MarkRelayUnreachable\<close>, \<open>DeleteRelay\<close>, \<open>CountActiveRelays\<close> and
  \<open>CleanupStaleRelays\<close>; the invariant of the table; and the interface \<open>keyed_store\<close> that
  the relay handlers rely on, interpreted on the table.
\<close>

section \<open>Operations\<close>

definition RelayNow :: "time \<Rightarrow> Relay \<Rightarrow> Relay" where
  "RelayNow now r =
     r\<lparr>Relay_CreatedAt := (if IsZero (Relay_CreatedAt r) then now else Relay_CreatedAt r),
       Relay_UpdatedAt := now,
       Relay_Status := (if Relay_Status r = [] then RelayStatusActive else Relay_Status r),
       Relay_ReplicationFactor := (if Relay_ReplicationFactor r = 0 then 1 else Relay_ReplicationFactor r)\<rparr>"

text \<open>The row the \<open>INSERT\<close> carries: both time columns take \<open>LastSeenAt\<close>.\<close>

definition row_of :: "Relay \<Rightarrow> RelayRow" where
  "row_of r = Relay.extend r (RelayRow.fields (Relay_LastSeenAt r))"

text \<open>\<open>ON CONFLICT(node_id) DO UPDATE\<close> sets every column but \<open>node_id\<close> and \<open>created_at\<close>.\<close>

definition upsert_row :: "RelayRow \<Rightarrow> RelayRow list \<Rightarrow> RelayRow list" where
  "upsert_row new rs =
     (if Relay_NodeID new \<in> Relay_NodeID ` set rs
      then update_where (\<lambda>r. Relay_NodeID r = Relay_NodeID new)
             (\<lambda>r. new\<lparr>Relay_CreatedAt := Relay_CreatedAt r\<rparr>) rs
      else rs @ [new])"

definition UpsertRelay :: "faults \<Rightarrow> time \<Rightarrow> Relay \<Rightarrow> SQLiteStore \<Rightarrow> SQLiteStore \<times> store_error option \<times> Relay" where
  "UpsertRelay F now relay0 st =
     (let relay = RelayNow now relay0 in
      if F (Exec Q_UpsertRelay) then (st, Some (DBError (Exec Q_UpsertRelay)), relay)
      else (st\<lparr>st_relays := upsert_row (row_of relay) (st_relays st)\<rparr>, None, relay))"

text \<open>\<open>scanRelay\<close>: a missing capability list becomes the empty one.\<close>

definition scanRelay :: "RelayRow \<Rightarrow> Relay" where
  "scanRelay row =
     (let r = Relay.truncate row in
      r\<lparr>Relay_Capabilities := Some (case Relay_Capabilities r of None \<Rightarrow> [] | Some cs \<Rightarrow> cs)\<rparr>)"

definition GetRelayByNodeID :: "faults \<Rightarrow> string \<Rightarrow> SQLiteStore \<Rightarrow> store_error + Relay" where
  "GetRelayByNodeID F i st =
     map_sum id scanRelay
       (query_row F Q_GetRelay ErrRelayNotFound (\<lambda>r. Relay_NodeID r = i) (st_relays st))"

text \<open>The \<open>WHERE\<close> clause that \<open>ListActiveRelays\<close> puts together.\<close>

definition listed ::
  "time \<Rightarrow> time option \<Rightarrow> u64 \<Rightarrow> RelayRow \<Rightarrow> bool" where
  "listed cutoff since minStorageGB r \<longleftrightarrow>
     Relay_Status r = ''active'' \<and> cutoff \<le> Relay_LastSeenAt r \<and>
     (case since of Some t \<Rightarrow> if \<not> IsZero t then t \<le> Relay_LastSeenAt r else True | None \<Rightarrow> True) \<and>
     (0 < minStorageGB \<longrightarrow> minStorageGB \<le> Relay_StorageAvailableGB r)"

definition ttl_window :: "int \<Rightarrow> int" where
  "ttl_window n = (if n \<le> 0 then 300 else n)"

definition ListActiveRelays ::
  "faults \<Rightarrow> time \<Rightarrow> int \<Rightarrow> time option \<Rightarrow> u64 \<Rightarrow> int \<Rightarrow> SQLiteStore \<Rightarrow> store_error + Relay list \<times> int" where
  "ListActiveRelays F now ttlWindowSeconds since minStorageGB limit0 st =
     (let limit = (if limit0 \<le> 0 then 100 else limit0);
          cutoffTime = now + seconds (- ttl_window ttlWindowSeconds);
          p = listed cutoffTime since minStorageGB
      in case query_count F Q_CountListed p (st_relays st) of
           Inl e \<Rightarrow> Inl e
         | Inr cnt \<Rightarrow>
             (case collect_rows F Q_ListRelays
                (take (nat limit) (order_by_desc Relay_LastSeenAt (filter p (st_relays st)))) of
                Inl e \<Rightarrow> Inl e
              | Inr rows \<Rightarrow> Inr (map scanRelay rows, cnt)))"

definition UpdateRelayHeartbeat ::
  "faults \<Rightarrow> time \<Rightarrow> string \<Rightarrow> u64 option \<Rightarrow> SQLiteStore \<Rightarrow> SQLiteStore \<times> store_error option" where
  "UpdateRelayHeartbeat F now i storage st =
     (let (rows, res) = exec_update F Q_Heartbeat (\<lambda>r. Relay_NodeID r = i)
            (case storage of
               Some gb \<Rightarrow> (\<lambda>r. r\<lparr>Row_last_seen := now, Relay_LastSeenAt := now, Relay_Status := ''active'',
                              Relay_StorageAvailableGB := gb, Relay_UpdatedAt := now\<rparr>)
             | None \<Rightarrow> (\<lambda>r. r\<lparr>Row_last_seen := now, Relay_LastSeenAt := now, Relay_Status := ''active'',
                            Relay_UpdatedAt := now\<rparr>))
            (st_relays st)
      in (st\<lparr>st_relays := rows\<rparr>, affected_error ErrRelayNotFound res))"

definition UpdateRelayFull ::
  "faults \<Rightarrow> time \<Rightarrow> Relay \<Rightarrow> SQLiteStore \<Rightarrow> SQLiteStore \<times> store_error option \<times> Relay" where
  "UpdateRelayFull F now relay0 st =
     (let relay = relay0\<lparr>Relay_LastSeenAt := now, Relay_UpdatedAt := now, Relay_Status := RelayStatusActive\<rparr>;
          (rows, res) = exec_update F Q_UpdateRelayFull (\<lambda>r. Relay_NodeID r = Relay_NodeID relay)
            (\<lambda>r. r\<lparr>Relay_URL := Relay_URL relay, Relay_Fingerprint := Relay_Fingerprint relay,
                   Relay_StorageReservedGB := Relay_StorageReservedGB relay,
                   Relay_StorageAvailableGB := Relay_StorageAvailableGB relay,
                   Relay_Version := Relay_Version relay, Relay_UptimeSecs := Relay_UptimeSecs relay,
                   Relay_Status := ''active'', Row_last_seen := now, Relay_LastSeenAt := now,
                   Relay_UpdatedAt := now\<rparr>)
            (st_relays st)
      in (st\<lparr>st_relays := rows\<rparr>, affected_error ErrRelayNotFound res, relay))"

definition MarkRelayUnreachable ::
  "faults \<Rightarrow> time \<Rightarrow> string \<Rightarrow> SQLiteStore \<Rightarrow> SQLiteStore \<times> store_error option" where
  "MarkRelayUnreachable F now i st =
     (let (rows, res) = exec_update F Q_MarkUnreachable (\<lambda>r. Relay_NodeID r = i)
            (\<lambda>r. r\<lparr>Relay_Status := ''unreachable'', Relay_UpdatedAt := now\<rparr>) (st_relays st)
      in (st\<lparr>st_relays := rows\<rparr>, affected_error ErrRelayNotFound res))"

definition DeleteRelay :: "faults \<Rightarrow> string \<Rightarrow> SQLiteStore \<Rightarrow> SQLiteStore \<times> store_error option" where
  "DeleteRelay F i st =
     (let (rows, res) = exec_delete F Q_DeleteRelay (\<lambda>r. Relay_NodeID r = i) (st_relays st)
      in (st\<lparr>st_relays := rows\<rparr>, affected_error ErrRelayNotFound res))"

definition CountActiveRelays :: "faults \<Rightarrow> time \<Rightarrow> int \<Rightarrow> SQLiteStore \<Rightarrow> store_error + int" where
  "CountActiveRelays F now ttlWindowSeconds st =
     query_count F Q_CountActive
       (\<lambda>r. Relay_Status r = ''active'' \<and> now + seconds (- ttl_window ttlWindowSeconds) \<le> Relay_LastSeenAt r)
       (st_relays st)"

text \<open>
  \<open>CleanupStaleRelays\<close>: mark, then delete; the two affected counts are taken without looking
  at the error of \<open>RowsAffected\<close>, in which case they are 0.
\<close>

definition affected_or_zero :: "store_error + nat \<Rightarrow> nat" where
  "affected_or_zero res = (case res of Inl _ \<Rightarrow> 0 | Inr n \<Rightarrow> n)"

definition mark_stale :: "faults \<Rightarrow> time \<Rightarrow> int \<Rightarrow> SQLiteStore \<Rightarrow> SQLiteStore \<times> (store_error + nat)" where
  "mark_stale F now ttlSeconds st =
     (let unreachableCutoff = now + seconds (- ttlSeconds);
          (rows, res) = exec_update F Q_CleanupMark
            (\<lambda>r. Relay_Status r = ''active'' \<and> Relay_LastSeenAt r < unreachableCutoff)
            (\<lambda>r. r\<lparr>Relay_Status := ''unreachable'', Relay_UpdatedAt := now\<rparr>) (st_relays st)
      in (st\<lparr>st_relays := rows\<rparr>, res))"

definition delete_expired :: "faults \<Rightarrow> time \<Rightarrow> int \<Rightarrow> SQLiteStore \<Rightarrow> SQLiteStore \<times> (store_error + nat)" where
  "delete_expired F now ttlSeconds st =
     (let deleteCutoff = now + seconds (- 2 * ttlSeconds);
          (rows, res) = exec_delete F Q_CleanupDelete
            (\<lambda>r. Relay_Status r = ''unreachable'' \<and> Relay_LastSeenAt r < deleteCutoff) (st_relays st)
      in (st\<lparr>st_relays := rows\<rparr>, res))"

definition CleanupStaleRelays ::
  "faults \<Rightarrow> time \<Rightarrow> int \<Rightarrow> SQLiteStore \<Rightarrow> SQLiteStore \<times> nat \<times> nat \<times> store_error option" where
  "CleanupStaleRelays F now ttlSeconds0 st =
     (let ttlSeconds = ttl_window ttlSeconds0;
          (st1, res1) = mark_stale F now ttlSeconds st
      in if F (Exec Q_CleanupMark) then (st1, 0, 0, Some (DBError (Exec Q_CleanupMark)))
         else
           let (st2, res2) = delete_expired F now ttlSeconds st1
           in if F (Exec Q_CleanupDelete)
              then (st2, affected_or_zero res1, 0, Some (DBError (Exec Q_CleanupDelete)))
              else (st2, affected_or_zero res1, affected_or_zero res2, None))"

lemmas cleanup_stale_defs = CleanupStaleRelays_def mark_stale_def delete_expired_def

lemmas relay_op_defs [store_defs] = UpsertRelay_def GetRelayByNodeID_def ListActiveRelays_def
  UpdateRelayHeartbeat_def UpdateRelayFull_def MarkRelayUnreachable_def DeleteRelay_def
  CountActiveRelays_def cleanup_stale_defs

section \<open>The invariant of the table\<close>

text \<open>Unique keys, the two time columns agree, and the replication factor is never zero.\<close>

definition relays_inv :: "RelayRow list \<Rightarrow> bool" where
  "relays_inv rs \<longleftrightarrow> distinct (map Relay_NodeID rs) \<and>
     (\<forall>r\<in>set rs. Row_last_seen r = Relay_LastSeenAt r \<and> Relay_ReplicationFactor r \<noteq> 0)"

lemma relays_inv_Nil [simp]: "relays_inv []"
  by (simp add: relays_inv_def)

lemma row_of_simps [simp]:
  "Relay_NodeID (row_of r) = Relay_NodeID r" "Relay_URL (row_of r) = Relay_URL r"
  "Relay_Status (row_of r) = Relay_Status r" "Relay_LastSeenAt (row_of r) = Relay_LastSeenAt r"
  "Row_last_seen (row_of r) = Relay_LastSeenAt r"
  "Relay_ReplicationFactor (row_of r) = Relay_ReplicationFactor r"
  "Relay_CreatedAt (row_of r) = Relay_CreatedAt r"
  "Relay_Capabilities (row_of r) = Relay_Capabilities r"
  by (simp_all add: row_of_def Relay.defs RelayRow.defs)

lemma truncate_row_of [simp]: "Relay.truncate (row_of r) = r"
  by (simp add: row_of_def Relay.defs RelayRow.defs)

lemma RelayNow_simps [simp]:
  "Relay_NodeID (RelayNow now r) = Relay_NodeID r" "Relay_LastSeenAt (RelayNow now r) = Relay_LastSeenAt r"
  "Relay_ReplicationFactor (RelayNow now r) \<noteq> 0" "Relay_URL (RelayNow now r) = Relay_URL r"
  "Relay_Capabilities (RelayNow now r) = Relay_Capabilities r"
  by (simp_all add: RelayNow_def)

lemma relays_inv_upsert_row:
  assumes "relays_inv rs" "Row_last_seen new = Relay_LastSeenAt new" "Relay_ReplicationFactor new \<noteq> 0"
  shows "relays_inv (upsert_row new rs)"
proof (cases "Relay_NodeID new \<in> Relay_NodeID ` set rs")
  case True
  have "map Relay_NodeID (upsert_row new rs) = map Relay_NodeID rs"
    using True by (induction rs) (auto simp: upsert_row_def update_where_def)
  moreover have "upsert_row new rs = update_where (\<lambda>r. Relay_NodeID r = Relay_NodeID new)
             (\<lambda>r. new\<lparr>Relay_CreatedAt := Relay_CreatedAt r\<rparr>) rs"
    using True by (simp add: upsert_row_def)
  ultimately show ?thesis
    using assms by (auto simp: relays_inv_def set_update_where)
next
  case False
  with assms show ?thesis by (auto simp: upsert_row_def relays_inv_def)
qed

lemma relays_inv_exec_update:
  assumes "relays_inv rs" "exec_update F q p f rs = (rs', res)"
    and "\<And>r. Relay_NodeID (f r) = Relay_NodeID r"
    and "\<And>r. Relay_ReplicationFactor (f r) = Relay_ReplicationFactor r"
    and "\<And>r. Row_last_seen r = Relay_LastSeenAt r \<Longrightarrow> Row_last_seen (f r) = Relay_LastSeenAt (f r)"
  shows "relays_inv rs'"
  using assms by (auto simp: relays_inv_def exec_update_def map_update_where_same set_update_where
      split: if_splits)

lemma relays_inv_exec_delete: "relays_inv rs \<Longrightarrow> relays_inv (fst (exec_delete F q p rs))"
  by (auto simp: relays_inv_def exec_delete_def distinct_map_delete_where split: if_splits)

lemma relays_inv_UpsertRelay [inv_intros]:
  "relays_inv (st_relays st) \<Longrightarrow> relays_inv (st_relays (fst (UpsertRelay F now r st)))"
  by (simp add: UpsertRelay_def Let_def relays_inv_upsert_row)

lemma relays_inv_UpdateRelayHeartbeat [inv_intros]:
  "relays_inv (st_relays st) \<Longrightarrow> relays_inv (st_relays (fst (UpdateRelayHeartbeat F now i s st)))"
  by (auto simp: UpdateRelayHeartbeat_def Let_def split: prod.split option.splits elim!: relays_inv_exec_update)

lemma relays_inv_UpdateRelayFull [inv_intros]:
  "relays_inv (st_relays st) \<Longrightarrow> relays_inv (st_relays (fst (UpdateRelayFull F now r st)))"
  by (auto simp: UpdateRelayFull_def Let_def split: prod.split elim!: relays_inv_exec_update)

lemma relays_inv_MarkRelayUnreachable [inv_intros]:
  "relays_inv (st_relays st) \<Longrightarrow> relays_inv (st_relays (fst (MarkRelayUnreachable F now i st)))"
  by (auto simp: MarkRelayUnreachable_def Let_def split: prod.split elim!: relays_inv_exec_update)

lemma relays_inv_DeleteRelay [inv_intros]:
  "relays_inv (st_relays st) \<Longrightarrow> relays_inv (st_relays (fst (DeleteRelay F i st)))"
  by (simp add: DeleteRelay_def Let_def case_prod_unfold relays_inv_exec_delete)

lemma relays_inv_mark_stale [inv_intros]:
  "relays_inv (st_relays st) \<Longrightarrow> relays_inv (st_relays (fst (mark_stale F now w st)))"
  by (auto simp: mark_stale_def Let_def split: prod.split elim!: relays_inv_exec_update)

lemma relays_inv_delete_expired [inv_intros]:
  "relays_inv (st_relays st) \<Longrightarrow> relays_inv (st_relays (fst (delete_expired F now w st)))"
  by (simp add: delete_expired_def Let_def case_prod_unfold relays_inv_exec_delete)

text \<open>The method is its two statements, the second unless the first failed.\<close>

lemma fst_CleanupStaleRelays:
  "fst (CleanupStaleRelays F now ttl st) =
     (let st1 = fst (mark_stale F now (ttl_window ttl) st)
      in if F (Exec Q_CleanupMark) then st1 else fst (delete_expired F now (ttl_window ttl) st1))"
  by (simp add: CleanupStaleRelays_def Let_def case_prod_unfold)

lemma relays_inv_CleanupStaleRelays [inv_intros]:
  "relays_inv (st_relays st) \<Longrightarrow> relays_inv (st_relays (fst (CleanupStaleRelays F now ttl st)))"
  by (simp add: fst_CleanupStaleRelays Let_def inv_intros)

section \<open>The interface of the relay handlers\<close>

text \<open>
  A store of values under their keys, with an insertion that merges with what is stored, a
  modification of the value of one key and a deletion.  The laws say what a lookup returns after
  each of them; announcing the same value twice is the same as announcing it once.
\<close>

datatype ('k, 'v) kop = Put 'v | Modify 'k "'v \<Rightarrow> 'v" | Remove 'k

locale keyed_store =
  fixes get :: "'s \<Rightarrow> 'k \<Rightarrow> 'v option"
    and put :: "'v \<Rightarrow> 's \<Rightarrow> 's"
    and modify :: "'k \<Rightarrow> ('v \<Rightarrow> 'v) \<Rightarrow> 's \<Rightarrow> 's"
    and del :: "'k \<Rightarrow> 's \<Rightarrow> 's"
    and key :: "'v \<Rightarrow> 'k"
    and merge :: "'v option \<Rightarrow> 'v \<Rightarrow> 'v"
    and ok :: "'s \<Rightarrow> bool"
  assumes ok_put: "ok s \<Longrightarrow> ok (put v s)"
    and ok_modify: "ok s \<Longrightarrow> (\<And>v. key (f v) = key v) \<Longrightarrow> ok (modify k f s)"
    and ok_del: "ok s \<Longrightarrow> ok (del k s)"
    and get_put: "ok s \<Longrightarrow> get (put v s) k = (if k = key v then Some (merge (get s k) v) else get s k)"
    and get_modify: "ok s \<Longrightarrow> (\<And>v. key (f v) = key v) \<Longrightarrow>
          get (modify k' f s) k = (if k = k' then map_option f (get s k) else get s k)"
    and get_del: "ok s \<Longrightarrow> get (del k' s) k = (if k = k' then None else get s k)"
    and merge_again: "merge (Some (merge old v)) v = merge old v"
begin

lemma put_twice: "ok s \<Longrightarrow> get (put v (put v s)) k = get (put v s) k"
  by (simp add: get_put ok_put merge_again)

text \<open>Runs of operations: a key sees only its own steps.\<close>

fun kstep :: "('k, 'v) kop \<Rightarrow> 's \<Rightarrow> 's" where
  "kstep (Put v) s = put v s"
| "kstep (Modify k f) s = modify k f s"
| "kstep (Remove k) s = del k s"

fun target :: "('k, 'v) kop \<Rightarrow> 'k" where
  "target (Put v) = key v"
| "target (Modify k f) = k"
| "target (Remove k) = k"

fun wf :: "('k, 'v) kop \<Rightarrow> bool" where
  "wf (Modify k f) \<longleftrightarrow> (\<forall>v. key (f v) = key v)"
| "wf _ \<longleftrightarrow> True"

lemma ok_kstep: "ok s \<Longrightarrow> wf e \<Longrightarrow> ok (kstep e s)"
  by (cases e) (auto simp: ok_put ok_del ok_modify)

lemma kstep_frame: "ok s \<Longrightarrow> wf e \<Longrightarrow> target e \<noteq> k \<Longrightarrow> get (kstep e s) k = get s k"
  by (cases e) (auto simp: get_put get_del get_modify)

lemma kstep_cong: "ok s \<Longrightarrow> ok t \<Longrightarrow> wf e \<Longrightarrow> get s k = get t k \<Longrightarrow> get (kstep e s) k = get (kstep e t) k"
  by (cases e) (auto simp: get_put get_del get_modify)

lemma run_filter:
  "ok s \<Longrightarrow> ok t \<Longrightarrow> \<forall>e\<in>set es. wf e \<Longrightarrow> get s k = get t k \<Longrightarrow>
   get (fold kstep es s) k = get (fold kstep (filter (\<lambda>e. target e = k) es) t) k"
proof (induction es arbitrary: s t)
  case (Cons e es)
  then have wf: "wf e" "\<forall>e\<in>set es. wf e" by simp_all
  show ?case
  proof (cases "target e = k")
    case True
    have "get (fold kstep es (kstep e s)) k =
        get (fold kstep (filter (\<lambda>e. target e = k) es) (kstep e t)) k"
      by (rule Cons.IH [OF ok_kstep ok_kstep _ kstep_cong]) (fact Cons.prems wf)+
    then show ?thesis using True by simp
  next
    case False
    have "get (fold kstep es (kstep e s)) k = get (fold kstep (filter (\<lambda>e. target e = k) es) t) k"
      by (rule Cons.IH [OF ok_kstep _ _ trans [OF kstep_frame [OF _ _ False]]]) (fact Cons.prems wf)+
    then show ?thesis using False by simp
  qed
qed simp

end

definition get_row :: "RelayRow list \<Rightarrow> string \<Rightarrow> RelayRow option" where
  "get_row rs i = row_with Relay_NodeID i rs"

definition del_row :: "string \<Rightarrow> RelayRow list \<Rightarrow> RelayRow list" where
  "del_row i rs = delete_where (\<lambda>r. Relay_NodeID r = i) rs"

definition modify_row :: "string \<Rightarrow> (RelayRow \<Rightarrow> RelayRow) \<Rightarrow> RelayRow list \<Rightarrow> RelayRow list" where
  "modify_row i f rs = update_where (\<lambda>r. Relay_NodeID r = i) f rs"

definition merge_row :: "RelayRow option \<Rightarrow> RelayRow \<Rightarrow> RelayRow" where
  "merge_row o' new = (case o' of None \<Rightarrow> new | Some r \<Rightarrow> new\<lparr>Relay_CreatedAt := Relay_CreatedAt r\<rparr>)"

lemma get_row_upsert:
  "get_row (upsert_row new rs) i =
     (if i = Relay_NodeID new then Some (merge_row (get_row rs i) new) else get_row rs i)"
proof (cases "Relay_NodeID new \<in> Relay_NodeID ` set rs")
  case True
  then have "upsert_row new rs = update_where (\<lambda>r. Relay_NodeID r = Relay_NodeID new)
      (\<lambda>r. new\<lparr>Relay_CreatedAt := Relay_CreatedAt r\<rparr>) rs"
    by (simp add: upsert_row_def)
  moreover have "row_with Relay_NodeID i (update_where (\<lambda>r. Relay_NodeID r = Relay_NodeID new)
      (\<lambda>r. new\<lparr>Relay_CreatedAt := Relay_CreatedAt r\<rparr>) rs) =
      (if i = Relay_NodeID new then map_option (\<lambda>r. new\<lparr>Relay_CreatedAt := Relay_CreatedAt r\<rparr>)
         (row_with Relay_NodeID i rs) else row_with Relay_NodeID i rs)"
    by (induction rs) auto
  ultimately show ?thesis
    using True by (auto simp: get_row_def merge_row_def split: option.split)
next
  case False
  then have "upsert_row new rs = rs @ [new]" by (simp add: upsert_row_def)
  moreover have none: "row_with Relay_NodeID (Relay_NodeID new) rs = None" using False by simp
  ultimately show ?thesis
    by (cases "i = Relay_NodeID new")
      (simp_all add: get_row_def merge_row_def row_with_append del: row_with_None split: option.split)
qed

lemma keys_upsert_row: "distinct (map Relay_NodeID rs) \<Longrightarrow> distinct (map Relay_NodeID (upsert_row new rs))"
proof (cases "Relay_NodeID new \<in> Relay_NodeID ` set rs")
  case True
  have "map Relay_NodeID (upsert_row new rs) = map Relay_NodeID rs"
    using True by (induction rs) (auto simp: upsert_row_def update_where_def)
  then show "distinct (map Relay_NodeID rs) \<Longrightarrow> ?thesis" by simp
qed (auto simp: upsert_row_def)

interpretation relay_rows: keyed_store get_row upsert_row modify_row del_row Relay_NodeID merge_row
  "\<lambda>rs. distinct (map Relay_NodeID rs)"
proof (unfold_locales, goal_cases)
  case (2 rs f k)
  then show ?case by (simp add: modify_row_def map_update_where_same)
next
  case (5 rs f k' k)
  then show ?case
    by (cases "row_with Relay_NodeID k rs")
      (auto simp: get_row_def modify_row_def row_with_update_where simp del: row_with_None
        dest: row_with_SomeD)
next
  case (6 rs k' k)
  then show ?case by (simp add: get_row_def del_row_def row_with_delete_where_key)
qed (auto simp: keys_upsert_row get_row_upsert del_row_def distinct_map_delete_where merge_row_def
    split: option.splits)

section \<open>Lemmas\<close>

lemma GetRelayByNodeID_no_faults:
  "GetRelayByNodeID no_faults i st =
     (case get_row (st_relays st) i of None \<Rightarrow> Inl ErrRelayNotFound | Some r \<Rightarrow> Inr (scanRelay r))"
  by (simp add: GetRelayByNodeID_def query_row_def get_row_def row_with_def split: option.split)

lemma GetRelayByNodeID_InrD:
  "GetRelayByNodeID F i st = Inr r \<Longrightarrow> \<exists>row\<in>set (st_relays st). Relay_NodeID row = i \<and> r = scanRelay row"
  by (auto simp: GetRelayByNodeID_def query_row_def dest!: find_SomeD split: if_splits option.splits)

lemma scanRelay_simps [simp]:
  "Relay_NodeID (scanRelay r) = Relay_NodeID r" "Relay_Status (scanRelay r) = Relay_Status r"
  "Relay_LastSeenAt (scanRelay r) = Relay_LastSeenAt r" "Relay_URL (scanRelay r) = Relay_URL r"
  "Relay_StorageAvailableGB (scanRelay r) = Relay_StorageAvailableGB r"
  "Relay_CreatedAt (scanRelay r) = Relay_CreatedAt r"
  by (simp_all add: scanRelay_def Relay.defs Let_def)

lemma ListActiveRelays_Inr:
  "ListActiveRelays F now ttl since minGB limit st = Inr (rs, cnt) \<Longrightarrow>
   (let p = listed (now + seconds (- ttl_window ttl)) since minGB;
        all = order_by_desc Relay_LastSeenAt (filter p (st_relays st)) in
    rs = map scanRelay (take (nat (if limit \<le> 0 then 100 else limit)) all) \<and> cnt = int (length all))"
  by (auto simp: ListActiveRelays_def query_count_def count_where_def Let_def
      dest!: collect_rows_Inr split: if_splits sum.splits)

lemma seconds_neg_exact: "0 \<le> n \<Longrightarrow> n \<le> 9223372036 \<Longrightarrow> seconds (- n) = - (n * Second)"
  by (simp add: seconds_def Second_def)

text \<open>Beyond 9223372036 seconds the product overflows \<open>int64\<close> and turns positive.\<close>

lemma seconds_neg_overflow:
  assumes "9223372036 < n" "n \<le> 18446744073" shows "0 < seconds (- n)"
proof -
  have "wrap64 (- n * 1000000000) = - n * 1000000000 + 2 ^ 64"
    using assms by (simp add: wrap64_def) (subst mod_add_self1 [symmetric], simp)
  then show ?thesis using assms by (simp add: seconds_def Second_def)
qed

section \<open>Runs of relay operations\<close>

datatype relay_op =
    OpUpsert time Relay
  | OpHeartbeat time string "u64 option"
  | OpFull time Relay
  | OpUnreachable time string
  | OpDeleteRelay string
  | OpCleanupRelays time int

fun run_relay_op :: "faults \<times> relay_op \<Rightarrow> SQLiteStore \<Rightarrow> SQLiteStore" where
  "run_relay_op (F, OpUpsert now r) st = fst (UpsertRelay F now r st)"
| "run_relay_op (F, OpHeartbeat now i gb) st = fst (UpdateRelayHeartbeat F now i gb st)"
| "run_relay_op (F, OpFull now r) st = fst (UpdateRelayFull F now r st)"
| "run_relay_op (F, OpUnreachable now i) st = fst (MarkRelayUnreachable F now i st)"
| "run_relay_op (F, OpDeleteRelay i) st = fst (DeleteRelay F i st)"
| "run_relay_op (F, OpCleanupRelays now ttl) st = fst (CleanupStaleRelays F now ttl st)"

lemma relays_inv_run_relay_op [inv_intros]:
  "relays_inv (st_relays st) \<Longrightarrow> relays_inv (st_relays (run_relay_op e st))"
  by (cases "(e, st)" rule: run_relay_op.cases) (auto intro: inv_intros)

lemma exec_update_relays:
  "st\<lparr>st_relays := fst (exec_update F q p f rs)\<rparr> =
   (if F (Exec q) then st\<lparr>st_relays := rs\<rparr> else st\<lparr>st_relays := update_where p f rs\<rparr>)"
  by (simp add: exec_update_def)

lemma other_tables_run_relay_op [simp]:
  "st_nodes (run_relay_op e st) = st_nodes st \<and> conn (run_relay_op e st) = conn st \<and>
   schema (run_relay_op e st) = schema st \<and> dbPath (run_relay_op e st) = dbPath st"
  by (cases "(e, st)" rule: run_relay_op.cases) (simp_all add: store_defs Let_def case_prod_unfold)

section \<open>Properties\<close>

text \<open>Any run of relay operations, with any clock readings and any driver faults, keeps the
  invariant of the \<open>relays\<close> table (one row per node, the two time columns equal, no zero
  replication factor) and leaves the \<open>nodes\<close> table, the schema and the handle untouched.\<close>

theorem relay_runs_preserve_inv:
  assumes "relays_inv (st_relays st)"
  shows "relays_inv (st_relays (fold run_relay_op ops st)) \<and>
    st_nodes (fold run_relay_op ops st) = st_nodes st \<and>
    schema (fold run_relay_op ops st) = schema st \<and> conn (fold run_relay_op ops st) = conn st"
  using assms by (induction ops arbitrary: st) (simp_all add: relays_inv_run_relay_op)

theorem relay_runs_preserve_inv_witness:
  "relays_inv (st_relays (fold run_relay_op
     [((\<lambda>c. c = Exec Q_CleanupDelete), OpCleanupRelays 9 1), (no_faults, OpDeleteRelay ''a'')]
     (sample_store [] [sample_row ''a'' 1, sample_row ''b'' 2])))"
proof -
  have "relays_inv (st_relays (sample_store [] [sample_row ''a'' 1, sample_row ''b'' 2]))"
    by (simp add: relays_inv_def sample_store_def sample_row_def)
  from relay_runs_preserve_inv [OF this] show ?thesis by blast
qed

lemma UpsertRelay_no_faults:
  "UpsertRelay no_faults now r st =
     (st\<lparr>st_relays := upsert_row (row_of (RelayNow now r)) (st_relays st)\<rparr>, None, RelayNow now r)"
  by (simp add: UpsertRelay_def Let_def)

lemma scanRelay_row_of:
  "scanRelay (row_of r) = r\<lparr>Relay_Capabilities := Some (case Relay_Capabilities r of None \<Rightarrow> [] | Some cs \<Rightarrow> cs)\<rparr>"
  by (simp add: scanRelay_def)

lemma scanRelay_row_of_created:
  "scanRelay ((row_of r)\<lparr>Relay_CreatedAt := t\<rparr>) =
   r\<lparr>Relay_CreatedAt := t, Relay_Capabilities := Some (case Relay_Capabilities r of None \<Rightarrow> [] | Some cs \<Rightarrow> cs)\<rparr>"
  by (simp add: scanRelay_def row_of_def Relay.defs RelayRow.defs)



text \<open>Operations on the relay of one node, as operations on the table.\<close>

fun target_relay :: "relay_op \<Rightarrow> string option" where
  "target_relay (OpUpsert now r) = Some (Relay_NodeID r)"
| "target_relay (OpHeartbeat now i gb) = Some i"
| "target_relay (OpFull now r) = Some (Relay_NodeID r)"
| "target_relay (OpUnreachable now i) = Some i"
| "target_relay (OpDeleteRelay i) = Some i"
| "target_relay (OpCleanupRelays now ttl) = None"

lemma run_relay_op_kop:
  assumes "target_relay (snd e) = Some i"
  shows "\<exists>k. relay_rows.wf k \<and> relay_rows.target k = i \<and>
    (\<forall>st. st_relays (run_relay_op e st) = relay_rows.kstep k (st_relays st))"
proof -
  have skip: "\<exists>k. relay_rows.wf k \<and> relay_rows.target k = i \<and>
      (\<forall>st. st_relays (run_relay_op e st) = relay_rows.kstep k (st_relays st))"
    if "\<And>st. st_relays (run_relay_op e st) = st_relays st"
    using that by (intro exI [of _ "Modify i id"]) (simp add: modify_row_def update_where_def map_idI)
  have mod: "\<exists>k. relay_rows.wf k \<and> relay_rows.target k = i \<and>
      (\<forall>st. st_relays (run_relay_op e st) = relay_rows.kstep k (st_relays st))"
    if "\<And>st. st_relays (run_relay_op e st) = fst (exec_update F q (\<lambda>r. Relay_NodeID r = i) f (st_relays st))"
      and "\<And>r. Relay_NodeID (f r) = Relay_NodeID r" for F q f
  proof (cases "F (Exec q)")
    case True
    with that(1) show ?thesis by (intro skip) (simp add: exec_update_def)
  next
    case False
    with that show ?thesis by (intro exI [of _ "Modify i f"]) (simp add: exec_update_def modify_row_def)
  qed
  show ?thesis
  proof (cases "snd e")
    case (OpUpsert now r)
    then obtain F where e: "e = (F, OpUpsert now r)" by (cases e) auto
    show ?thesis using assms skip
      unfolding e by (cases "F (Exec Q_UpsertRelay)")
        (auto simp: UpsertRelay_def Let_def intro!: exI [of _ "Put (row_of (RelayNow now r))"])
  next
    case (OpHeartbeat now j gb)
    then obtain F where e: "e = (F, OpHeartbeat now j gb)" by (cases e) auto
    show ?thesis
      by (cases gb; rule mod)
        (use assms in \<open>simp add: e UpdateRelayHeartbeat_def Let_def case_prod_unfold; fail\<close>)+
  next
    case (OpFull now r)
    then obtain F where e: "e = (F, OpFull now r)" by (cases e) auto
    show ?thesis
      by (rule mod) (use assms in \<open>simp add: e UpdateRelayFull_def Let_def case_prod_unfold; fail\<close>)+
  next
    case (OpUnreachable now j)
    then obtain F where e: "e = (F, OpUnreachable now j)" by (cases e) auto
    show ?thesis
      by (rule mod) (use assms in \<open>simp add: e MarkRelayUnreachable_def Let_def case_prod_unfold; fail\<close>)+
  next
    case (OpDeleteRelay j)
    then obtain F where e: "e = (F, OpDeleteRelay j)" by (cases e) auto
    show ?thesis using assms skip
      unfolding e by (cases "F (Exec Q_DeleteRelay)")
        (auto simp: DeleteRelay_def Let_def exec_delete_def del_row_def intro!: exI [of _ "Remove i"])
  qed (use assms in simp)
qed

text \<open>Isolation of the relays of different nodes: after any run of announcements, heartbeats,
  updates, marks and deletions, with any driver faults, the lookup of one relay depends only on
  the operations on that relay.\<close>

theorem relay_isolation:
  assumes "relays_inv (st_relays st)" and "\<forall>e\<in>set ops. target_relay (snd e) \<noteq> None"
  shows "GetRelayByNodeID no_faults i (fold run_relay_op ops st) =
    GetRelayByNodeID no_faults i
      (fold run_relay_op (filter (\<lambda>e. target_relay (snd e) = Some i) ops) st)"
proof -
  obtain k where k: "\<And>e. e \<in> set ops \<Longrightarrow> relay_rows.wf (k e) \<and> Some (relay_rows.target (k e)) = target_relay (snd e) \<and>
      (\<forall>st. st_relays (run_relay_op e st) = relay_rows.kstep (k e) (st_relays st))"
  proof -
    have "\<forall>e\<in>set ops. \<exists>k. relay_rows.wf k \<and> Some (relay_rows.target k) = target_relay (snd e) \<and>
      (\<forall>st. st_relays (run_relay_op e st) = relay_rows.kstep k (st_relays st))"
      using assms(2) run_relay_op_kop by fastforce
    then show ?thesis using that by metis
  qed
  have run: "st_relays (fold run_relay_op es s) = fold relay_rows.kstep (map k es) (st_relays s)"
    if "set es \<subseteq> set ops" for es s
    using that by (induction es arbitrary: s) (simp_all add: k)
  have flt: "filter (\<lambda>e. relay_rows.target e = i) (map k es) =
      map k (filter (\<lambda>e. target_relay (snd e) = Some i) es)" if "set es \<subseteq> set ops" for es
    using that by (induction es) (auto simp: k [THEN conjunct2, THEN conjunct1, symmetric])
  have "get_row (fold relay_rows.kstep (map k ops) (st_relays st)) i =
      get_row (fold relay_rows.kstep (filter (\<lambda>e. relay_rows.target e = i) (map k ops)) (st_relays st)) i"
    using assms(1) k by (intro relay_rows.run_filter) (auto simp: relays_inv_def)
  then show ?thesis by (simp add: GetRelayByNodeID_no_faults run flt filter_is_subset)
qed

theorem relay_isolation_witness:
  "let st = sample_store [] [sample_row ''a'' 1, sample_row ''b'' 2];
       ops = [(no_faults, OpHeartbeat 5 ''a'' None), (no_faults, OpDeleteRelay ''b'')] in
   GetRelayByNodeID no_faults ''a'' (fold run_relay_op ops st) =
     GetRelayByNodeID no_faults ''a'' (run_relay_op (no_faults, OpHeartbeat 5 ''a'' None) st)"
proof -
  have "relays_inv (st_relays (sample_store [] [sample_row ''a'' 1, sample_row ''b'' 2]))"
    by (simp add: relays_inv_def sample_store_def sample_row_def)
  from relay_isolation [OF this, of "[(no_faults, OpHeartbeat 5 ''a'' None), (no_faults, OpDeleteRelay ''b'')]" "''a''"]
  show ?thesis unfolding Let_def by simp
qed



section \<open>CleanupStaleRelays\<close>

text \<open>What the two statements do to a row, given the length of the window in nanoseconds.\<close>

definition stale_row :: "time \<Rightarrow> int \<Rightarrow> RelayRow \<Rightarrow> bool" where
  "stale_row now w r \<longleftrightarrow> Relay_Status r = ''active'' \<and> Relay_LastSeenAt r < now - w"

definition expired_row :: "time \<Rightarrow> int \<Rightarrow> RelayRow \<Rightarrow> bool" where
  "expired_row now w r \<longleftrightarrow>
     (Relay_Status r = ''active'' \<or> Relay_Status r = ''unreachable'') \<and> Relay_LastSeenAt r < now - 2 * w"

definition mark_row :: "time \<Rightarrow> RelayRow \<Rightarrow> RelayRow" where
  "mark_row now r = r\<lparr>Relay_Status := ''unreachable'', Relay_UpdatedAt := now\<rparr>"

lemma cleanup_rows:
  "0 \<le> w \<Longrightarrow> delete_where (\<lambda>r. Relay_Status r = ''unreachable'' \<and> Relay_LastSeenAt r < now - 2 * w)
      (update_where (stale_row now w) (mark_row now) rs) =
   map (\<lambda>r. if stale_row now w r then mark_row now r else r) (filter (\<lambda>r. \<not> expired_row now w r) rs)"
  by (induction rs) (auto simp: stale_row_def expired_row_def mark_row_def)

lemma count_expired:
  "0 \<le> w \<Longrightarrow> count_where (\<lambda>r. Relay_Status r = ''unreachable'' \<and> Relay_LastSeenAt r < now - 2 * w)
      (update_where (stale_row now w) (mark_row now) rs) = count_where (expired_row now w) rs"
  by (induction rs) (auto simp: stale_row_def expired_row_def mark_row_def)

lemma cleanup_windows:
  assumes "ttl \<le> 4611686018"
  shows "seconds (- ttl_window ttl) = - (ttl_window ttl * Second)"
    "seconds (- 2 * ttl_window ttl) = - (2 * (ttl_window ttl * Second))" "0 \<le> ttl_window ttl * Second"
  using assms seconds_neg_exact [of "ttl_window ttl"] seconds_neg_exact [of "2 * ttl_window ttl"]
  by (auto simp: ttl_window_def Second_def)

lemma CleanupStaleRelays_no_faults:
  assumes "ttl \<le> 4611686018"
  shows "CleanupStaleRelays no_faults now ttl st =
    (let w = ttl_window ttl * Second in
     (st\<lparr>st_relays := map (\<lambda>r. if stale_row now w r then mark_row now r else r)
           (filter (\<lambda>r. \<not> expired_row now w r) (st_relays st))\<rparr>,
      count_where (stale_row now w) (st_relays st), count_where (expired_row now w) (st_relays st), None))"
proof -
  have p: "(\<lambda>r. Relay_Status r = ''active'' \<and> Relay_LastSeenAt r < now - ttl_window ttl * Second) =
      stale_row now (ttl_window ttl * Second)"
    "(\<lambda>r. r\<lparr>Relay_Status := ''unreachable'', Relay_UpdatedAt := now\<rparr>) = mark_row now"
    by (auto simp: stale_row_def mark_row_def)
  show ?thesis
    using cleanup_windows [OF assms]
    by (simp add: cleanup_stale_defs Let_def exec_update_def exec_delete_def affected_or_zero_def
        p cleanup_rows count_expired)
qed

text \<open>C34.  \<open>CleanupStaleRelays\<close>, for a TTL of up to 4611686018 seconds (300 when it is not
  positive): the relays left are exactly those not silent for two windows (or neither active nor
  unreachable), an active one silent for one window is marked unreachable and nothing else
  changes; the two numbers are those of the relays marked and deleted, so a relay silent for two
  windows counts in both; running it again at the same instant does nothing; and whatever the
  driver does, a relay that is active and was seen within the window stays as it is.\<close>

theorem CleanupStaleRelays_correct:
  assumes "ttl \<le> 4611686018"
  defines "w \<equiv> ttl_window ttl * Second"
  shows "CleanupStaleRelays no_faults now ttl st =
      (st\<lparr>st_relays := map (\<lambda>r. if stale_row now w r then mark_row now r else r)
           (filter (\<lambda>r. \<not> expired_row now w r) (st_relays st))\<rparr>,
       count_where (stale_row now w) (st_relays st), count_where (expired_row now w) (st_relays st), None) \<and>
    CleanupStaleRelays no_faults now ttl (fst (CleanupStaleRelays no_faults now ttl st)) =
      (fst (CleanupStaleRelays no_faults now ttl st), 0, 0, None) \<and>
    (\<forall>F. \<forall>r\<in>set (st_relays st). Relay_Status r = ''active'' \<longrightarrow> now - w \<le> Relay_LastSeenAt r \<longrightarrow>
       r \<in> set (st_relays (fst (CleanupStaleRelays F now ttl st))))"
proof -
  have "0 \<le> w" using cleanup_windows(3) [OF assms(1)] by (simp add: w_def)
  define rs where "rs = map (\<lambda>r. if stale_row now w r then mark_row now r else r)
      (filter (\<lambda>r. \<not> expired_row now w r) (st_relays st))"
  have no_stale: "\<forall>r\<in>set rs. \<not> stale_row now w r" and no_expired: "\<forall>r\<in>set rs. \<not> expired_row now w r"
    by (auto simp: rs_def stale_row_def expired_row_def mark_row_def)
  have again: "filter (\<lambda>r. \<not> expired_row now w r) rs = rs"
    "map (\<lambda>r. if stale_row now w r then mark_row now r else r) rs = rs"
    using no_expired by (rule filter_True) (use no_stale in \<open>auto intro: map_idI\<close>)
  have counts: "count_where (stale_row now w) rs = 0" "count_where (expired_row now w) rs = 0"
    using no_stale no_expired by simp_all
  have kept: "r \<in> set (st_relays (fst (CleanupStaleRelays F now ttl st)))"
    if "r \<in> set (st_relays st)" "Relay_Status r = ''active''" "now - w \<le> Relay_LastSeenAt r" for F r
    using that cleanup_windows [OF assms(1)]
    by (auto simp: cleanup_stale_defs Let_def case_prod_unfold exec_update_def exec_delete_def
        set_update_where w_def intro!: rev_image_eqI [of r])
  show ?thesis
    unfolding CleanupStaleRelays_no_faults [OF assms(1)] Let_def w_def [symmetric] rs_def [symmetric]
    using kept by (simp add: again counts)
qed

theorem CleanupStaleRelays_correct_witness:
  "fst (snd (CleanupStaleRelays no_faults (1000 * Second) 100
      (sample_store [] [sample_row ''a'' 1, sample_row ''b'' (850 * Second), sample_row ''c'' (950 * Second)]))) = 2"
proof -
  have "(100::int) \<le> 4611686018" by simp
  from CleanupStaleRelays_correct [OF this, of "1000 * Second"
      "sample_store [] [sample_row ''a'' 1, sample_row ''b'' (850 * Second), sample_row ''c'' (950 * Second)]"]
  show ?thesis by (simp add: stale_row_def sample_store_def sample_row_def ttl_window_def Second_def)
qed

text \<open>The range of the TTL: up to 9223372036 seconds the cutoff of \<open>ListActiveRelays\<close> and
  \<open>CountActiveRelays\<close> lies \<open>ttl\<close> seconds in the past; above it, up to the next
  wrap-around, the product \<open>time.Duration(ttl) * time.Second\<close> overflows \<open>int64\<close> and the cutoff
  lies in the future, so that a relay seen just now is not active.\<close>

theorem ttl_cutoff_range:
  "(0 < ttl \<and> ttl \<le> 9223372036 \<longrightarrow> CountActiveRelays no_faults now ttl st =
      Inr (int (count_where (\<lambda>r. Relay_Status r = ''active'' \<and> now - ttl * Second \<le> Relay_LastSeenAt r)
        (st_relays st)))) \<and>
   (9223372036 < ttl \<and> ttl \<le> 18446744073 \<and> (\<forall>r\<in>set (st_relays st). Relay_LastSeenAt r \<le> now) \<longrightarrow>
      CountActiveRelays no_faults now ttl st = Inr 0)"
proof (intro conjI impI)
  assume "0 < ttl \<and> ttl \<le> 9223372036"
  then have "seconds (- ttl_window ttl) = - (ttl * Second)"
    using seconds_neg_exact by (simp add: ttl_window_def)
  then show "CountActiveRelays no_faults now ttl st =
      Inr (int (count_where (\<lambda>r. Relay_Status r = ''active'' \<and> now - ttl * Second \<le> Relay_LastSeenAt r)
        (st_relays st)))"
    by (simp add: CountActiveRelays_def query_count_def)
next
  assume a: "9223372036 < ttl \<and> ttl \<le> 18446744073 \<and> (\<forall>r\<in>set (st_relays st). Relay_LastSeenAt r \<le> now)"
  then have "0 < seconds (- ttl_window ttl)"
    using seconds_neg_overflow by (simp add: ttl_window_def)
  with a have "count_where (\<lambda>r. Relay_Status r = ''active'' \<and> now + seconds (- ttl_window ttl) \<le> Relay_LastSeenAt r)
      (st_relays st) = 0"
    by fastforce
  then show "CountActiveRelays no_faults now ttl st = Inr 0"
    by (simp add: CountActiveRelays_def query_count_def)
qed

theorem ttl_cutoff_range_witness:
  "CountActiveRelays no_faults (1000 * Second) 9223372037 (sample_store [] [sample_row ''a'' (1000 * Second)]) = Inr 0 \<and>
   CountActiveRelays no_faults (1000 * Second) 60 (sample_store [] [sample_row ''a'' (1000 * Second)]) = Inr 1"
  using ttl_cutoff_range [of 60 "1000 * Second" "sample_store [] [sample_row ''a'' (1000 * Second)]"]
    ttl_cutoff_range [of 9223372037 "1000 * Second" "sample_store [] [sample_row ''a'' (1000 * Second)]"]
  by (simp add: sample_store_def sample_row_def Second_def)

end
