(* ===== verification/Node_Handlers.thy ===== *)
theory Node_Handlers
  imports Auth Relay_Store
begin

text \<open>
  The handlers of \<open>api/nodes.go\<close>: registration, lookup, deletion and status of a node, and the
  status of the VPN.  A handler gets the fault oracle \<open>F\<close>, the readings \<open>clk\<close> of its successive
  \<open>time.Now()\<close> calls, the request and the state it works on, and returns the state and the
  response.
\<close>

section \<open>Registration\<close>

definition vpn_key_opts :: "VPNConfig \<Rightarrow> CreateKeyOpts" where
  "vpn_key_opts v =
     (if Provider v = ''tailscale'' then
        \<lparr>opt_Reusable = TailscaleKeyReusable v, opt_ExpiryHours = TailscaleKeyExpiryHours v,
         opt_Tags = (if TailscaleTag v \<noteq> [] then [TailscaleTag v] else [])\<rparr>
      else if Provider v = ''headscale'' then
        \<lparr>opt_Reusable = HeadscaleKeyReusable v, opt_ExpiryHours = HeadscaleKeyExpiryHours v, opt_Tags = []\<rparr>
      else \<lparr>opt_Reusable = False, opt_ExpiryHours = 0, opt_Tags = []\<rparr>)"

definition empty_vpn_config :: VPNConfigResponse where
  "empty_vpn_config = \<lparr>vc_AuthKey = [], vc_ControlURL = [], vc_Provider = []\<rparr>"

definition vpn_config_of ::
  "vpn_world \<Rightarrow> Config \<Rightarrow> VPNProvider option \<Rightarrow> Metrics \<Rightarrow> Metrics \<times> VPNConfigResponse" where
  "vpn_config_of W cfg vpnProvider m =
     (let v = cfg_VPN cfg in
      case vpnProvider of
        Some p \<Rightarrow>
          if Enabled v \<and> Provider v \<noteq> [] then
            (case CreatePreAuthKey W (vpn_key_opts v) p m of
               (_, m', Inl _) \<Rightarrow> (m', empty_vpn_config)
             | (_, m', Inr k) \<Rightarrow>
                 (m', \<lparr>vc_AuthKey = vk_AuthKey k, vc_ControlURL = vk_ControlURL k, vc_Provider = vk_Provider k\<rparr>))
          else (m, empty_vpn_config)
      | None \<Rightarrow> (m, empty_vpn_config))"

definition sendRegisterResponse ::
  "vpn_world \<Rightarrow> Request \<Rightarrow> Node \<Rightarrow> int \<Rightarrow> Config \<Rightarrow> VPNProvider option \<Rightarrow> Metrics \<Rightarrow> Metrics \<times> Response" where
  "sendRegisterResponse W r n statusCode cfg vpnProvider m =
     (let registryURL = (if Host r = [] then ''http://coord-server:8080'' else ''http://'' @ Host r);
          (m', vc) = vpn_config_of W cfg vpnProvider m
      in (m', json_response statusCode (RegisterBody
            \<lparr>rs_NodeID = Node_ID n, rs_Name = Node_Name n, rs_MeshURL = Node_MeshURL n, rs_VPNConfig = vc,
             rs_RegistryURL = registryURL, rs_CreatedAt = Node_CreatedAt n\<rparr>)))"

definition new_node :: "(nat \<Rightarrow> time) \<Rightarrow> string \<Rightarrow> string \<Rightarrow> RegisterNodeRequest \<Rightarrow> Node" where
  "new_node clk nodeID authHash req =
     \<lparr>Node_ID = nodeID, Node_AuthKeyHash = authHash, Node_Name = rn_Name req,
      Node_StorageReservedGB = (case rn_Storage req of None \<Rightarrow> 0 | Some s \<Rightarrow> ReservedGB s),
      Node_StorageAvailableGB = (case rn_Storage req of None \<Rightarrow> 0 | Some s \<Rightarrow> AvailableGB s),
      Node_VPNPublicKey = [], Node_MeshURL = rn_MeshURL req, Node_Status = NodeStatusActive,
      Node_CreatedAt = clk 0, Node_UpdatedAt = clk 1, Node_LastSeenAt = None, Node_DeletedAt = None\<rparr>"

definition auth_key_hint :: string where
  "auth_key_hint = ''invalid auth_key format (must start with '' @ CHR 0x27 # ''gc_'' @ CHR 0x27 #
     '' and be at least 20 characters long)''"

definition RegisterNodeHandler ::
  "faults \<Rightarrow> (nat \<Rightarrow> time) \<Rightarrow> string option \<Rightarrow> JSON \<Rightarrow> vpn_world \<Rightarrow> Config \<Rightarrow> VPNProvider option \<Rightarrow> Request \<Rightarrow>
   SQLiteStore \<times> Metrics \<Rightarrow> (SQLiteStore \<times> Metrics) \<times> Response" where
  "RegisterNodeHandler F clk rnd J W cfg vpnProvider r s =
     (case s of (st, m) \<Rightarrow>
      case decode_register_node J (RequestBody r) of (ok, req) \<Rightarrow>
      if \<not> ok then ((st, m), WriteBadRequest ''invalid request JSON body'')
      else if \<not> ValidateAuthKeyFormat (rn_AuthKey req) then ((st, m), WriteBadRequest auth_key_hint)
      else
        let authHash = HashAuthKey (rn_AuthKey req) (HMACSecret (cfg_Auth cfg)) in
        case GetNodeByAuthKeyHash F authHash st of
          Inr existing \<Rightarrow>
            (case sendRegisterResponse W r existing 200 cfg vpnProvider m of (m', resp) \<Rightarrow> ((st, m'), resp))
        | Inl e \<Rightarrow>
            if e \<noteq> ErrNodeNotFound then ((st, m), WriteInternalServerError)
            else
              (case CreateNode F (clk 2) (new_node clk (GenerateNodeID rnd) authHash req) st of
                 (st', Some _, _) \<Rightarrow> ((st', m), WriteInternalServerError)
               | (st', None, n) \<Rightarrow>
                   (case sendRegisterResponse W r n 201 cfg vpnProvider m of (m', resp) \<Rightarrow> ((st', m'), resp))))"

section \<open>Lookup, deletion, VPN status\<close>

definition GetNodeHandler :: "faults \<Rightarrow> string \<Rightarrow> SQLiteStore \<Rightarrow> Response" where
  "GetNodeHandler F nodeID st =
     (if nodeID = [] then WriteBadRequest ''missing id URL parameter''
      else case GetNodeByID F nodeID st of
        Inl e \<Rightarrow> if e = ErrNodeNotFound then WriteNotFound ''node'' nodeID else WriteInternalServerError
      | Inr n \<Rightarrow> json_response 200 (NodeBody n))"

definition DeleteNodeHandler :: "faults \<Rightarrow> (nat \<Rightarrow> time) \<Rightarrow> string \<Rightarrow> SQLiteStore \<Rightarrow> SQLiteStore \<times> Response" where
  "DeleteNodeHandler F clk nodeID st =
     (if nodeID = [] then (st, WriteBadRequest ''missing id URL parameter'')
      else case DeleteNode F (clk 0) nodeID st of
        (st', Some e) \<Rightarrow>
          (st', if e = ErrNodeNotFound then WriteNotFound ''node'' nodeID else WriteInternalServerError)
      | (st', None) \<Rightarrow> (st', no_content))"

definition GetVPNStatusHandler :: "vpn_world \<Rightarrow> VPNProvider option \<Rightarrow> Metrics \<Rightarrow> Metrics \<times> Response" where
  "GetVPNStatusHandler W vpnProvider m =
     (case vpnProvider of
        None \<Rightarrow> (m, WriteJSONError 200 (error_response ''vpn provider not initialized''))
      | Some p \<Rightarrow> (case GetStatus W p m of (m', status) \<Rightarrow> (m', json_response 200 (VPNStatusBody status))))"

section \<open>Status of a node\<close>

definition IsNodeOnline :: "time option \<Rightarrow> time \<Rightarrow> int \<Rightarrow> bool" where
  "IsNodeOnline lastSeen now thresholdSecs0 =
     (case lastSeen of
        None \<Rightarrow> False
      | Some t \<Rightarrow>
          if IsZero t then False
          else let thresholdSecs = (if thresholdSecs0 \<le> 0 then DefaultOnlineThresholdSeconds else thresholdSecs0);
                   cutoff = now + seconds (- thresholdSecs)
               in \<not> t < cutoff)"

text \<open>\<open>t.Year() > 1\<close>: the zero time lies at the start of year 1, which has 365 days.\<close>

definition year_after_1 :: "time \<Rightarrow> bool" where
  "year_after_1 t \<longleftrightarrow> 365 * 24 * Hour \<le> t"

definition GetNodeStatusHandler ::
  "faults \<Rightarrow> (nat \<Rightarrow> time) \<Rightarrow> Config \<Rightarrow> Request \<Rightarrow> string \<Rightarrow> SQLiteStore \<Rightarrow> Response" where
  "GetNodeStatusHandler F clk cfg r nodeID st =
     (if \<not> authorizeAdminOnly cfg r then WriteUnauthorized ''admin API key required''
      else if nodeID = [] then WriteBadRequest ''missing node_id URL parameter''
      else case GetRelayByNodeID F nodeID st of
        Inl e \<Rightarrow> if e = ErrRelayNotFound then WriteNotFound ''node'' nodeID else WriteInternalServerError
      | Inr relay \<Rightarrow>
          let lastSeen = (if \<not> IsZero (Relay_LastSeenAt relay) \<and> year_after_1 (Relay_LastSeenAt relay)
                then Some (Relay_LastSeenAt relay) else None)
          in json_response 200 (NodeStatusBody
            \<lparr>ns_NodeID = Relay_NodeID relay,
             ns_IsOnline = IsNodeOnline lastSeen (clk 0) (OnlineThresholdSeconds (cfg_Registry cfg)),
             ns_LastSeen = lastSeen, ns_URL = Relay_URL relay, ns_Version = Relay_Version relay,
             ns_UptimeSecs = Relay_UptimeSecs relay,
             ns_Storage = \<lparr>ReservedGB = Relay_StorageReservedGB relay,
                           AvailableGB = Relay_StorageAvailableGB relay\<rparr>\<rparr>))"

lemmas node_handler_defs [handler_defs] = RegisterNodeHandler_def sendRegisterResponse_def GetNodeHandler_def
  DeleteNodeHandler_def GetVPNStatusHandler_def GetNodeStatusHandler_def

section \<open>Lemmas\<close>

text \<open>The table part of the registration is \<open>registry.register\<close> of the interface.\<close>

definition register_candidate ::
  "(nat \<Rightarrow> time) \<Rightarrow> string option \<Rightarrow> Config \<Rightarrow> RegisterNodeRequest \<Rightarrow> Node" where
  "register_candidate clk rnd cfg req =
     fill_node (clk 2) (new_node clk (GenerateNodeID rnd) (HashAuthKey (rn_AuthKey req) (HMACSecret (cfg_Auth cfg))) req)"

lemma register_candidate_simps [simp]:
  "Node_AuthKeyHash (register_candidate clk rnd cfg req) = HashAuthKey (rn_AuthKey req) (HMACSecret (cfg_Auth cfg))"
  "Node_ID (register_candidate clk rnd cfg req) = GenerateNodeID rnd"
  "live (register_candidate clk rnd cfg req)"
  by (simp_all add: register_candidate_def fill_node_def new_node_def live_def NodeStatusActive_def)

lemma RegisterNodeHandler_register:
  assumes "decode_register_node J (RequestBody r) = (True, req)" "ValidateAuthKeyFormat (rn_AuthKey req)"
  shows "RegisterNodeHandler no_faults clk rnd J W cfg vpn r (st, m) =
    (case registry.register (register_candidate clk rnd cfg req) st of
       None \<Rightarrow> ((st, m), WriteInternalServerError)
     | Some (st', n, known) \<Rightarrow>
         (case sendRegisterResponse W r n (if known then 200 else 201) cfg vpn m of (m', resp) \<Rightarrow> ((st', m'), resp)))"
proof -
  have lk: "GetNodeByAuthKeyHash no_faults h st =
      (case node_lookup h st of None \<Rightarrow> Inl ErrNodeNotFound | Some n \<Rightarrow> Inr n)" for h
    by (simp add: GetNodeByAuthKeyHash_no_faults node_lookup_def)
  show ?thesis
    using assms
    by (simp add: RegisterNodeHandler_def Let_def lk registry.register_def CreateNode_insert
        register_candidate_def [symmetric] split: option.split)
qed

lemma sendRegisterResponse_resp:
  "\<exists>m' vc url. sendRegisterResponse W r n code cfg vpn m = (m', json_response code (RegisterBody
      \<lparr>rs_NodeID = Node_ID n, rs_Name = Node_Name n, rs_MeshURL = Node_MeshURL n, rs_VPNConfig = vc,
       rs_RegistryURL = url, rs_CreatedAt = Node_CreatedAt n\<rparr>))"
  by (auto simp: sendRegisterResponse_def Let_def split: prod.split)

lemma node_lookup_owner:
  "node_lookup (HashAuthKey key (HMACSecret (cfg_Auth cfg))) st = Some n \<Longrightarrow> owns cfg key (Node_ID n) st"
  by (auto simp: node_lookup_def owns_def dest!: find_SomeD)

lemma authorize_bearer:
  assumes "nodes_inv (st_nodes st)" "trimmed key" "key \<noteq> []" "owns cfg key i st"
  shows "authorizeNodeOwnership no_faults cfg (r\<lparr>Authorization := ''Bearer '' @ key\<rparr>) i st"
  using assms owns_lookup [OF assms(1), of cfg key i] bearer_token_Bearer [of key]
  by (auto simp: authorizeNodeOwnership_def Let_def)

text \<open>The node a registration response names.\<close>

definition registered_id :: "Response \<Rightarrow> string option" where
  "registered_id resp = (case ResponseBody resp of RegisterBody b \<Rightarrow> Some (rs_NodeID b) | _ \<Rightarrow> None)"

lemma ValidateAuthKeyFormat_nonempty: "ValidateAuthKeyFormat k \<Longrightarrow> k \<noteq> []"
  by (auto simp: ValidateAuthKeyFormat_def MinAuthKeyLength_def split: if_splits)

section \<open>Properties\<close>

text \<open>C21.  Registration is idempotent: after a registration that was answered 200 or 201, the
  response names a live node that owns the key; a bearer of the key (if the key has no white space
  around it) is accepted for that node; every further registration with the same key, with any
  other fields, at any time and with any randomness, is answered 200 with the same node and leaves
  the database as it is; and the nodes of other keys are not affected.\<close>

theorem RegisterNode_idempotent:
  assumes "nodes_inv (st_nodes st)"
    and "decode_register_node J (RequestBody r) = (True, req)"
    and "RegisterNodeHandler no_faults clk rnd J W cfg vpn r (st, m) = ((st', m'), resp)"
    and "Status resp = 200 \<or> Status resp = 201"
  shows "nodes_inv (st_nodes st') \<and>
    (\<exists>i. registered_id resp = Some i \<and> owns cfg (rn_AuthKey req) i st' \<and>
      (trimmed (rn_AuthKey req) \<longrightarrow>
         authorizeNodeOwnership no_faults cfg (q\<lparr>Authorization := ''Bearer '' @ rn_AuthKey req\<rparr>) i st') \<and>
      (\<forall>clk' rnd' J' W' r' req' m2.
         decode_register_node J' (RequestBody r') = (True, req') \<and> rn_AuthKey req' = rn_AuthKey req \<longrightarrow>
         (case RegisterNodeHandler no_faults clk' rnd' J' W' cfg vpn r' (st', m2) of
            ((st2, _), resp2) \<Rightarrow> st2 = st' \<and> Status resp2 = 200 \<and> registered_id resp2 = Some i))) \<and>
    (\<forall>h. h \<noteq> HashAuthKey (rn_AuthKey req) (HMACSecret (cfg_Auth cfg)) \<longrightarrow>
       GetNodeByAuthKeyHash no_faults h st' = GetNodeByAuthKeyHash no_faults h st)"
proof -
  let ?h = "HashAuthKey (rn_AuthKey req) (HMACSecret (cfg_Auth cfg))"
  let ?c = "register_candidate clk rnd cfg req"
  have valid: "ValidateAuthKeyFormat (rn_AuthKey req)"
    using assms(2-4) by (auto simp: RegisterNodeHandler_def split: if_splits)
  then obtain n known where reg: "registry.register ?c st = Some (st', n, known)"
      and resp: "sendRegisterResponse W r n (if known then 200 else 201) cfg vpn m = (m', resp)"
    using assms(3,4) RegisterNodeHandler_register [OF assms(2) valid, of clk rnd W cfg vpn st m]
    by (auto split: option.splits prod.splits)
  have lk: "node_lookup ?h st' = Some n" and key: "Node_AuthKeyHash n = ?h"
    using registry.register_lookup [OF assms(1) _ reg] by simp_all
  have inv: "nodes_inv (st_nodes st')" using registry.register_ok [OF assms(1) _ reg] by simp
  have i: "registered_id resp = Some (Node_ID n)"
    using sendRegisterResponse_resp [of W r n "if known then 200 else 201" cfg vpn m] resp
    by (auto simp: registered_id_def)
  have again: "st2 = st' \<and> Status resp2 = 200 \<and> registered_id resp2 = Some (Node_ID n)"
    if dec: "decode_register_node J' (RequestBody r') = (True, req')" and k: "rn_AuthKey req' = rn_AuthKey req"
      and run: "RegisterNodeHandler no_faults clk' rnd' J' W' cfg vpn r' (st', m2) = ((st2, m3), resp2)"
    for clk' rnd' J' W' r' req' m2 st2 m3 resp2
  proof -
    have v: "ValidateAuthKeyFormat (rn_AuthKey req')" using valid k by simp
    have "registry.register (register_candidate clk' rnd' cfg req') st' = Some (st', n, True)"
      using registry.register_again [OF assms(1) _ reg] by (simp add: k)
    with run RegisterNodeHandler_register [OF dec v, of clk' rnd' W' cfg vpn st' m2]
    have "st2 = st'" "sendRegisterResponse W' r' n 200 cfg vpn m2 = (m3, resp2)"
      by (auto split: prod.splits)
    with sendRegisterResponse_resp [of W' r' n 200 cfg vpn m2] show ?thesis
      by (auto simp: registered_id_def)
  qed
  have others: "GetNodeByAuthKeyHash no_faults h st' = GetNodeByAuthKeyHash no_faults h st" if "h \<noteq> ?h" for h
    using registry.register_others [OF assms(1) _ reg, of h] that
    by (simp add: GetNodeByAuthKeyHash_no_faults node_lookup_def)
  have own: "owns cfg (rn_AuthKey req) (Node_ID n) st'" using lk by (rule node_lookup_owner)
  then have "trimmed (rn_AuthKey req) \<Longrightarrow>
      authorizeNodeOwnership no_faults cfg (q\<lparr>Authorization := ''Bearer '' @ rn_AuthKey req\<rparr>) (Node_ID n) st'"
    using authorize_bearer [OF inv] ValidateAuthKeyFormat_nonempty [OF valid] by blast
  with inv i own again others show ?thesis by (fastforce split: prod.split)
qed

definition sample_json :: "string \<Rightarrow> JSON" where
  "sample_json key =
     \<lparr>decode_register_node = (\<lambda>_. (True, \<lparr>rn_AuthKey = key, rn_Name = ''n'', rn_Storage = None, rn_MeshURL = []\<rparr>)),
      decode_register_relay = (\<lambda>_. (True, \<lparr>rr_NodeID = ''a'', rr_URL = ''ws://h:1'', rr_Fingerprint = [],
        rr_Storage = None, rr_ReplicationFactor = 0, rr_Version = [], rr_Capabilities = None\<rparr>)),
      decode_heartbeat = (\<lambda>_. (True, \<lparr>hb_AvailableGB = Some 7\<rparr>)),
      decode_heartbeat_v1 = (\<lambda>_. (False, \<lparr>hv_URL = [], hv_Fingerprint = [], hv_Storage = None,
        hv_Version = [], hv_UptimeSecs = 0\<rparr>))\<rparr>"

definition sample_key :: string where
  "sample_key = ''gc_01234567890123456''"

lemma sample_key_ok: "trimmed sample_key" "ValidateAuthKeyFormat sample_key"
proof -
  show t: "trimmed sample_key" unfolding TrimSpace_eq_self [symmetric] sample_key_def by code_simp
  then show "ValidateAuthKeyFormat sample_key"
    by (simp add: ValidateAuthKeyFormat_def Let_def) (simp add: sample_key_def MinAuthKeyLength_def AuthKeyPrefix_def)
qed

theorem RegisterNode_idempotent_witness:
  "let ((st', m'), resp) = RegisterNodeHandler no_faults (\<lambda>n. int n + 5) (Some ''01234567'') (sample_json sample_key)
         test_world Defaults None (sample_request ''POST'' ''/v1/nodes/register'' []) (sample_store [] [], initial_metrics)
   in Status resp = 201 \<and> nodes_inv (st_nodes st') \<and> (\<exists>i. registered_id resp = Some i \<and> owns Defaults sample_key i st')"
proof -
  let ?r = "sample_request ''POST'' ''/v1/nodes/register'' []"
  let ?req = "\<lparr>rn_AuthKey = sample_key, rn_Name = ''n'', rn_Storage = None, rn_MeshURL = []\<rparr>"
  have inv: "nodes_inv (st_nodes (sample_store [] []))" by (simp add: nodes_inv_def sample_store_def)
  have dec: "decode_register_node (sample_json sample_key) (RequestBody ?r) = (True, ?req)"
    by (simp add: sample_json_def)
  obtain st' m' resp where run: "RegisterNodeHandler no_faults (\<lambda>n. int n + 5) (Some ''01234567'') (sample_json sample_key)
         test_world Defaults None ?r (sample_store [] [], initial_metrics) = ((st', m'), resp)"
    by (metis prod.collapse)
  let ?c = "register_candidate (\<lambda>n. int n + 5) (Some ''01234567'') Defaults ?req"
  obtain s where "registry.register ?c (sample_store [] []) = Some (s, ?c, False)"
    by (simp add: registry.register_def node_lookup_def node_insert_def sample_store_def)
  moreover have "ValidateAuthKeyFormat (rn_AuthKey ?req)" using sample_key_ok(2) by simp
  ultimately have "sendRegisterResponse test_world ?r ?c 201 Defaults None initial_metrics = (m', resp)"
    using run RegisterNodeHandler_register [OF dec, of "\<lambda>n. int n + 5" "Some ''01234567''" test_world Defaults None
        "sample_store [] []" initial_metrics]
    by (simp split: prod.splits)
  then have st: "Status resp = 201"
    using sendRegisterResponse_resp [of test_world ?r ?c 201 Defaults None initial_metrics] by auto
  then have "Status resp = 200 \<or> Status resp = 201" by simp
  from RegisterNode_idempotent [OF inv dec run this] run st show ?thesis by (simp add: Let_def) blast
qed



end
