(* ===== verification/Validation.thy ===== *)
theory Validation
  imports Go_Std
begin

text \<open>
  The checks of \<open>api/validation.go\<close>: relay URLs, TLS fingerprints and capability lists.  The part
  of \<open>net/url\<close> they use (\<open>Parse\<close>, \<open>Hostname\<close>, \<open>Port\<close>, of Go 1.25.0) is written out; an error
  of \<open>Parse\<close> is \<open>None\<close>.
\<close>

section \<open>net/url\<close>

record URL =
  url_Scheme :: string
  url_Opaque :: string
  url_Host :: string

datatype url_mode = EncodeHost | EncodeZone | EncodeOther

definition is_alpha :: "char \<Rightarrow> bool" where
  "is_alpha c \<longleftrightarrow> 65 \<le> byte c \<and> byte c \<le> 90 \<or> 97 \<le> byte c \<and> byte c \<le> 122"

definition should_escape_host :: "char \<Rightarrow> bool" where
  "should_escape_host c \<longleftrightarrow> \<not> (is_alpha c \<or> is_digit c \<or>
     c \<in> set ''!$&()*+,;=:[]<>-_.~'' \<or> c = CHR 0x27 \<or> c = CHR 0x22)"

definition unhex :: "char \<Rightarrow> nat" where
  "unhex c = (if is_digit c then byte c - 48 else if 97 \<le> byte c then byte c - 87 else byte c - 55)"

fun unescape :: "url_mode \<Rightarrow> string \<Rightarrow> string option" where
  "unescape m [] = Some []"
| "unescape m (c # s) =
     (if c = CHR ''%'' then
        (case s of
           a # b # rest \<Rightarrow>
             if \<not> is_hex a \<or> \<not> is_hex b then None
             else if m = EncodeHost \<and> unhex a < 8 \<and> \<not> (a = CHR ''2'' \<and> b = CHR ''5'') then None
             else if m = EncodeZone \<and> \<not> (a = CHR ''2'' \<and> b = CHR ''5'') \<and>
                  16 * unhex a + unhex b \<noteq> 32 \<and> should_escape_host (char_of (16 * unhex a + unhex b)) then None
             else map_option (Cons (char_of (16 * unhex a + unhex b))) (unescape m rest)
         | _ \<Rightarrow> None)
      else if m \<noteq> EncodeOther \<and> byte c < 128 \<and> should_escape_host c then None
      else map_option (Cons c) (unescape m s))"

text \<open>\<open>getScheme\<close>: the scheme and the rest, or \<open>None\<close> when the scheme is missing before a colon.\<close>

fun get_scheme :: "string \<Rightarrow> string \<Rightarrow> string \<Rightarrow> (string \<times> string) option" where
  "get_scheme raw acc [] = Some ([], raw)"
| "get_scheme raw acc (c # s) =
     (if is_alpha c then get_scheme raw (acc @ [c]) s
      else if is_digit c \<or> c = CHR ''+'' \<or> c = CHR ''-'' \<or> c = CHR ''.''
      then (if acc = [] then Some ([], raw) else get_scheme raw (acc @ [c]) s)
      else if c = CHR '':'' then (if acc = [] then None else Some (acc, s))
      else Some ([], raw))"

definition validOptionalPort :: "string \<Rightarrow> bool" where
  "validOptionalPort p \<longleftrightarrow> p = [] \<or> hd p = CHR '':'' \<and> list_all is_digit (tl p)"

definition validUserinfo :: "string \<Rightarrow> bool" where
  "validUserinfo s \<longleftrightarrow> list_all (\<lambda>c. is_alpha c \<or> is_digit c \<or> c \<in> set ''-._:~!$&()*+,;=%@'' \<or> c = CHR 0x27) s"

fun find_zone :: "string \<Rightarrow> nat option" where
  "find_zone [] = None"
| "find_zone (c # s) = (if HasPrefix (c # s) ''%25'' then Some 0 else map_option Suc (find_zone s))"

definition parseHost :: "string \<Rightarrow> string option" where
  "parseHost host =
     (if HasPrefix host ''['' then
        (case last_index (CHR '']'') host of
           None \<Rightarrow> None
         | Some i \<Rightarrow>
             if \<not> validOptionalPort (drop (i + 1) host) then None
             else case find_zone (take i host) of
               Some z \<Rightarrow>
                 (case (unescape EncodeHost (take z host), unescape EncodeZone (drop z (take i host)),
                        unescape EncodeHost (drop i host)) of
                    (Some a, Some b, Some c) \<Rightarrow> Some (a @ b @ c)
                  | _ \<Rightarrow> None)
             | None \<Rightarrow> unescape EncodeHost host)
      else case last_index (CHR '':'') host of
        Some i \<Rightarrow> if \<not> validOptionalPort (drop i host) then None else unescape EncodeHost host
      | None \<Rightarrow> unescape EncodeHost host)"

definition parseAuthority :: "string \<Rightarrow> string option" where
  "parseAuthority authority =
     (case last_index (CHR ''@'') authority of
        None \<Rightarrow> parseHost authority
      | Some i \<Rightarrow>
          let userinfo = take i authority in
          case parseHost (drop (i + 1) authority) of
            None \<Rightarrow> None
          | Some host \<Rightarrow>
              if \<not> validUserinfo userinfo then None
              else (case Cut (CHR '':'') userinfo of
                      None \<Rightarrow> if unescape EncodeOther userinfo = None then None else Some host
                    | Some (u, p) \<Rightarrow>
                        if unescape EncodeOther u = None \<or> unescape EncodeOther p = None then None else Some host))"

definition before :: "char \<Rightarrow> string \<Rightarrow> string" where
  "before c s = (case Cut c s of None \<Rightarrow> s | Some (a, _) \<Rightarrow> a)"

definition from_slash :: "string \<Rightarrow> string \<times> string" where
  "from_slash s = (takeWhile (\<lambda>c. c \<noteq> CHR ''/'') s, dropWhile (\<lambda>c. c \<noteq> CHR ''/'') s)"

definition parse_rest :: "string \<Rightarrow> string \<Rightarrow> URL option" where
  "parse_rest scheme rest0 =
     (let rest = before (CHR ''?'') rest0 in
      if \<not> HasPrefix rest ''/'' \<and> scheme \<noteq> []
      then Some \<lparr>url_Scheme = scheme, url_Opaque = rest, url_Host = []\<rparr>
      else if \<not> HasPrefix rest ''/'' \<and> CHR '':'' \<in> set (before (CHR ''/'') rest) then None
      else if (scheme \<noteq> [] \<or> \<not> HasPrefix rest ''///'') \<and> HasPrefix rest ''//'' then
        (case from_slash (drop 2 rest) of
           (authority, path) \<Rightarrow>
             (case parseAuthority authority of
                None \<Rightarrow> None
              | Some host \<Rightarrow>
                  if unescape EncodeOther path = None then None
                  else Some \<lparr>url_Scheme = scheme, url_Opaque = [], url_Host = host\<rparr>))
      else if unescape EncodeOther rest = None then None
      else Some \<lparr>url_Scheme = scheme, url_Opaque = [], url_Host = []\<rparr>)"

definition parse_url :: "string \<Rightarrow> URL option" where
  "parse_url raw =
     (if \<exists>c\<in>set raw. byte c < 32 \<or> byte c = 127 then None
      else if raw = ''*'' then Some \<lparr>url_Scheme = [], url_Opaque = [], url_Host = []\<rparr>
      else case get_scheme raw [] raw of
        None \<Rightarrow> None
      | Some (scheme, rest) \<Rightarrow> parse_rest (map ascii_lower scheme) rest)"

definition url_Parse :: "string \<Rightarrow> URL option" where
  "url_Parse raw =
     (case Cut (CHR ''#'') raw of
        None \<Rightarrow> parse_url raw
      | Some (u, frag) \<Rightarrow>
          (case parse_url u of
             None \<Rightarrow> None
           | Some url \<Rightarrow> if unescape EncodeOther frag = None then None else Some url))"

text \<open>\<open>splitHostPort\<close> of \<open>net/url\<close>, behind \<open>Hostname()\<close> and \<open>Port()\<close>.\<close>

definition split_host_port :: "string \<Rightarrow> string \<times> string" where
  "split_host_port hp =
     (let (host, port) =
        (case last_index (CHR '':'') hp of
           Some i \<Rightarrow> if validOptionalPort (drop i hp) then (take i hp, drop (i + 1) hp) else (hp, [])
         | None \<Rightarrow> (hp, []))
      in (if HasPrefix host ''['' \<and> suffix '']'' host then butlast (tl host) else host, port))"

definition Hostname :: "URL \<Rightarrow> string" where "Hostname u = fst (split_host_port (url_Host u))"
definition Port :: "URL \<Rightarrow> string" where "Port u = snd (split_host_port (url_Host u))"

section \<open>The checks\<close>

datatype ValidationError =
    URLEmpty | URLInvalid | SchemeInvalid string | HostMissing | PortMissing
  | FingerprintEmpty | FingerprintLength nat | FingerprintHex
  | CapabilityEmpty | CapabilityDuplicate string

definition ValidateRelayURL :: "string \<Rightarrow> ValidationError option" where
  "ValidateRelayURL url0 =
     (let urlStr = TrimSpace url0 in
      if urlStr = [] then Some URLEmpty
      else case url_Parse urlStr of
        None \<Rightarrow> Some URLInvalid
      | Some u \<Rightarrow>
          if url_Scheme u \<noteq> ''ws'' \<and> url_Scheme u \<noteq> ''wss'' then Some (SchemeInvalid (url_Scheme u))
          else if url_Host u = [] \<or> Hostname u = [] then Some HostMissing
          else if Port u = [] then Some PortMissing
          else None)"

definition ValidateFingerprint :: "string \<Rightarrow> ValidationError option" where
  "ValidateFingerprint fp0 =
     (let fp = TrimSpace fp0 in
      if fp = [] then Some FingerprintEmpty
      else let hexPart = (if HasPrefix fp ''sha256:'' then TrimPrefix fp ''sha256:'' else fp) in
        if length hexPart \<noteq> 64 then Some (FingerprintLength (length hexPart))
        else if \<not> hex_decodable hexPart then Some FingerprintHex
        else None)"

text \<open>The loop, with the capabilities seen so far.\<close>

fun check_caps :: "string list \<Rightarrow> string list \<Rightarrow> ValidationError option" where
  "check_caps seen [] = None"
| "check_caps seen (c0 # cs) =
     (let c = TrimSpace c0 in
      if c = [] then Some CapabilityEmpty
      else if c \<in> set seen then Some (CapabilityDuplicate c)
      else check_caps (c # seen) cs)"

definition ValidateCapabilities :: "string list \<Rightarrow> ValidationError option" where
  "ValidateCapabilities caps = check_caps [] caps"

text \<open>The text of an error, without the detail the library adds to its own.\<close>

fun error_text :: "ValidationError \<Rightarrow> string" where
  "error_text URLEmpty = ''relay URL cannot be empty''"
| "error_text URLInvalid = ''invalid URL format''"
| "error_text (SchemeInvalid s) = ''invalid URL scheme ('' @ CHR 0x27 # s @ CHR 0x27 # ''); must be '' @
     CHR 0x27 # ''ws'' @ CHR 0x27 # '' or '' @ CHR 0x27 # ''wss'' @ [CHR 0x27]"
| "error_text HostMissing = ''relay URL must include a valid host''"
| "error_text PortMissing = ''relay URL must include an explicit port (e.g. :8443)''"
| "error_text FingerprintEmpty = ''fingerprint cannot be empty''"
| "error_text (FingerprintLength n) =
     ''invalid fingerprint; must be a 64-character hex SHA-256 hash (length obtained: '' @ Itoa (int n) @ '')''"
| "error_text FingerprintHex = ''invalid hexadecimal characters in fingerprint''"
| "error_text CapabilityEmpty = ''capabilities list cannot contain empty elements''"
| "error_text (CapabilityDuplicate c) = ''duplicate capability detected: '' @ CHR 0x27 # c @ [CHR 0x27]"

section \<open>Lemmas\<close>

lemma check_caps_iff:
  "check_caps seen cs = None \<longleftrightarrow>
     [] \<notin> TrimSpace ` set cs \<and> distinct (map TrimSpace cs) \<and> set seen \<inter> TrimSpace ` set cs = {}"
  by (induction cs arbitrary: seen) (auto simp: Let_def)

lemma unescape_plain:
  "\<forall>c\<in>set s. c \<noteq> CHR ''%'' \<Longrightarrow> m = EncodeOther \<or> (\<forall>c\<in>set s. \<not> should_escape_host c) \<Longrightarrow> unescape m s = Some s"
  by (induction s) auto

lemma get_scheme_letters:
  "list_all is_alpha s \<Longrightarrow> acc @ s \<noteq> [] \<Longrightarrow> get_scheme raw acc (s @ CHR '':'' # rest) = Some (acc @ s, rest)"
  by (induction s arbitrary: acc) (auto simp: is_alpha_def is_digit_def byte_def)

lemma ValidateFingerprint_iff:
  "ValidateFingerprint fp = None \<longleftrightarrow>
     (\<exists>h. (TrimSpace fp = h \<or> TrimSpace fp = ''sha256:'' @ h) \<and> length h = 64 \<and> list_all is_hex h)"
proof (cases "HasPrefix (TrimSpace fp) ''sha256:''")
  case True
  then obtain h where h: "TrimSpace fp = ''sha256:'' @ h" by (auto simp: prefix_def)
  have "\<not> is_hex CHR ''s''" by (simp add: is_hex_def is_digit_def byte_def)
  then show ?thesis
    by (auto simp: ValidateFingerprint_def Let_def h TrimPrefix_def hex_decodable_def)
next
  case False
  then have "TrimSpace fp \<noteq> ''sha256:'' @ h" for h by (metis prefixI)
  with False show ?thesis
    by (auto simp: ValidateFingerprint_def Let_def hex_decodable_def)
qed

text \<open>Letters, digits, dots and hyphens: the characters of a host name.\<close>

definition host_char :: "char \<Rightarrow> bool" where
  "host_char c \<longleftrightarrow> is_alpha c \<or> is_digit c \<or> c = CHR ''.'' \<or> c = CHR ''-''"

definition path_char :: "char \<Rightarrow> bool" where
  "path_char c \<longleftrightarrow> 32 \<le> byte c \<and> byte c \<noteq> 127 \<and> c \<noteq> CHR ''%'' \<and> c \<noteq> CHR ''#'' \<and> c \<noteq> CHR ''?''"

lemma host_char_plain:
  assumes "host_char c"
  shows "path_char c" "c \<noteq> CHR '':''" "c \<noteq> CHR ''@''" "c \<noteq> CHR ''/''" "c \<noteq> CHR ''[''" "\<not> should_escape_host c"
  using assms by (auto simp: host_char_def path_char_def is_alpha_def is_digit_def byte_def should_escape_host_def)

lemma path_charD: "path_char c \<Longrightarrow> c \<noteq> CHR ''#'' \<and> c \<noteq> CHR ''?'' \<and> \<not> byte c < 32 \<and> byte c \<noteq> 127"
  by (simp add: path_char_def)

lemma host_char_authority: "host_char c \<Longrightarrow> path_char c \<and> c \<noteq> CHR ''/'' \<and> c \<noteq> CHR ''@''"
  using host_char_plain by blast

lemma path_char_consts: "path_char CHR '':''" "path_char CHR ''/''"
  by (simp_all add: path_char_def byte_def)

lemma digit_host_char: "is_digit c \<Longrightarrow> host_char c"
  by (simp add: host_char_def)

lemma should_escape_colon: "\<not> should_escape_host CHR '':''"
  by (simp add: should_escape_host_def)

text \<open>A URL put together from a scheme, an authority without userinfo and a path.\<close>

lemma url_Parse_parts:
  assumes "list_all is_alpha s" "s \<noteq> []" "map ascii_lower s = s"
    and "\<forall>c\<in>set a. path_char c \<and> c \<noteq> CHR ''/'' \<and> c \<noteq> CHR ''@''" "parseHost a = Some host"
    and "\<forall>c\<in>set path. path_char c" "path = [] \<or> hd path = CHR ''/''"
  shows "url_Parse (s @ ''://'' @ a @ path) = Some \<lparr>url_Scheme = s, url_Opaque = [], url_Host = host\<rparr>"
proof -
  let ?rest = "''//'' @ a @ path"
  let ?u = "s @ CHR '':'' # ?rest"
  have sch: "path_char c" if "is_alpha c" for c
    using that by (auto simp: is_alpha_def path_char_def byte_def)
  have chars: "\<forall>c\<in>set ?u. path_char c"
  proof -
    have "\<forall>c\<in>set s. path_char c" using assms(1) sch by (simp add: list_all_iff)
    moreover have "\<forall>c\<in>set a. path_char c" using assms(4) by blast
    ultimately show ?thesis using assms(6) by (simp add: ball_Un path_char_consts)
  qed
  then have cut: "Cut (CHR ''#'') ?u = None" and nctl: "\<not> (\<exists>c\<in>set ?u. byte c < 32 \<or> byte c = 127)"
    unfolding Cut_None using path_charD by blast+
  have "\<forall>c\<in>set ?rest. path_char c" using chars unfolding set_append set_simps by blast
  then have "CHR ''?'' \<notin> set ?rest" using path_charD by blast
  then have rest: "before (CHR ''?'') ?rest = ?rest" unfolding before_def Cut_None [symmetric] by simp
  have slash: "from_slash (a @ path) = (a, path)"
    using assms(4,7) by (cases path) (auto simp: from_slash_def takeWhile_append dropWhile_append)
  have at: "last_index (CHR ''@'') a = None" using assms(4) unfolding last_index_None by blast
  have auth: "parseAuthority a = Some host"
    by (simp add: parseAuthority_def at assms(5) del: last_index_None)
  have path: "unescape EncodeOther path = Some path"
    using assms(6) by (intro unescape_plain) (auto simp: path_char_def)
  have "get_scheme ?u [] ?u = Some (s, ?rest)"
    using get_scheme_letters [OF assms(1), of "[]" ?u ?rest] assms(2) by simp
  moreover have "?u \<noteq> ''*''" using assms(2) by (cases s) auto
  ultimately have "parse_url ?u = parse_rest s ?rest"
    using nctl assms(3) unfolding parse_url_def by simp
  moreover have "parse_rest s ?rest = Some \<lparr>url_Scheme = s, url_Opaque = [], url_Host = host\<rparr>"
    unfolding parse_rest_def rest Let_def using assms(2) by (simp add: slash auth path)
  moreover have "url_Parse ?u = parse_url ?u" unfolding url_Parse_def cut by simp
  ultimately show ?thesis by simp
qed

lemma parseHost_port:
  assumes "\<forall>c\<in>set h. host_char c" "h \<noteq> []" "list_all is_digit p"
  shows "parseHost (h @ CHR '':'' # p) = Some (h @ CHR '':'' # p)"
    "split_host_port (h @ CHR '':'' # p) = (h, p)"
proof -
  have p: "\<forall>c\<in>set p. host_char c" using assms(3) digit_host_char by (simp add: list_all_iff)
  have li: "last_index (CHR '':'') (h @ CHR '':'' # p) = Some (length h)"
    using p host_char_plain(2) by (intro last_index_append) blast
  have h0: "hd h \<noteq> CHR ''[''" using assms(1,2) host_char_plain(5) by (cases h) auto
  then have br: "\<not> HasPrefix (h @ CHR '':'' # p) ''[''" "\<not> HasPrefix h ''[''"
    using assms(2) by (cases h; simp)+
  have "unescape EncodeHost (h @ CHR '':'' # p) = Some (h @ CHR '':'' # p)"
    using assms(1) p host_char_plain should_escape_colon by (intro unescape_plain) (auto simp: path_char_def)
  then show "parseHost (h @ CHR '':'' # p) = Some (h @ CHR '':'' # p)"
    using br li assms(3) by (simp add: parseHost_def validOptionalPort_def)
  show "split_host_port (h @ CHR '':'' # p) = (h, p)"
    using br li assms(3) by (simp add: split_host_port_def validOptionalPort_def)
qed

lemma parseHost_plain:
  assumes "\<forall>c\<in>set h. host_char c" "h \<noteq> []"
  shows "parseHost h = Some h" "split_host_port h = (h, [])"
proof -
  have li: "last_index (CHR '':'') h = None"
    using assms(1) host_char_plain(2) unfolding last_index_None by blast
  have h0: "hd h \<noteq> CHR ''[''" using assms host_char_plain(5) by (cases h) auto
  then have br: "\<not> HasPrefix h ''[''" using assms(2) by (cases h) simp_all
  have "unescape EncodeHost h = Some h"
    using assms(1) host_char_plain by (intro unescape_plain) (auto simp: path_char_def)
  then show "parseHost h = Some h" "split_host_port h = (h, [])"
    using br by (simp_all add: parseHost_def split_host_port_def li del: last_index_None)
qed

lemma ValidateRelayURL_parsed:
  assumes "url_Parse u = Some x" "trimmed u" "u \<noteq> []" "url_Scheme x = ''ws'' \<or> url_Scheme x = ''wss''"
    and "url_Host x \<noteq> []" "Hostname x \<noteq> []"
  shows "ValidateRelayURL u = (if Port x = [] then Some PortMissing else None)"
  using assms by (auto simp: ValidateRelayURL_def Let_def)

section \<open>Properties\<close>

text \<open>C35.  \<open>ValidateRelayURL\<close>.  Sound: an accepted URL parses, its scheme is \<open>ws\<close> or \<open>wss\<close>, its
  host name is not empty and its port is a non-empty string of digits.  Complete for the usual
  form: \<open>ws://host:port/path\<close> is accepted for every host name and every digits of the port,
  also one no TCP port can have, and rejected for its port alone when that is left out.\<close>

theorem ValidateRelayURL_correct:
  shows "(ValidateRelayURL u = None \<longrightarrow>
      (\<exists>x. url_Parse (TrimSpace u) = Some x \<and> (url_Scheme x = ''ws'' \<or> url_Scheme x = ''wss'') \<and>
         Hostname x \<noteq> [] \<and> Port x \<noteq> [] \<and> list_all is_digit (Port x))) \<and>
    ((s = ''ws'' \<or> s = ''wss'') \<and> h \<noteq> [] \<and> (\<forall>c\<in>set h. host_char c) \<and> list_all is_digit p \<and>
     (\<forall>c\<in>set path. path_char c) \<and> (path = [] \<or> hd path = CHR ''/'') \<longrightarrow>
       (trimmed (s @ ''://'' @ h @ '':'' @ p @ path) \<longrightarrow>
          ValidateRelayURL (s @ ''://'' @ h @ '':'' @ p @ path) = (if p = [] then Some PortMissing else None)) \<and>
       (trimmed (s @ ''://'' @ h @ path) \<longrightarrow> ValidateRelayURL (s @ ''://'' @ h @ path) = Some PortMissing))"
proof (intro conjI impI)
  assume ok: "ValidateRelayURL u = None"
  then obtain x where x: "url_Parse (TrimSpace u) = Some x" "url_Scheme x = ''ws'' \<or> url_Scheme x = ''wss''"
      "Hostname x \<noteq> []" "Port x \<noteq> []"
    by (auto simp: ValidateRelayURL_def Let_def split: if_splits option.splits)
  then have "list_all is_digit (Port x)"
    by (auto simp: Port_def split_host_port_def validOptionalPort_def tl_drop drop_Suc
        split: option.splits if_splits)
  with x show "\<exists>x. url_Parse (TrimSpace u) = Some x \<and> (url_Scheme x = ''ws'' \<or> url_Scheme x = ''wss'') \<and>
         Hostname x \<noteq> [] \<and> Port x \<noteq> [] \<and> list_all is_digit (Port x)" by blast
next
  assume a: "(s = ''ws'' \<or> s = ''wss'') \<and> h \<noteq> [] \<and> (\<forall>c\<in>set h. host_char c) \<and> list_all is_digit p \<and>
     (\<forall>c\<in>set path. path_char c) \<and> (path = [] \<or> hd path = CHR ''/'')"
  have s: "list_all is_alpha s" "s \<noteq> []" "map ascii_lower s = s"
    using a by (auto simp: is_alpha_def byte_def ascii_lower_def)
  have p: "\<forall>c\<in>set p. host_char c" using a digit_host_char by (simp add: list_all_iff)
  have hc: "\<forall>c\<in>set h. host_char c" using a by blast
  have ph: "parseHost (h @ CHR '':'' # p) = Some (h @ CHR '':'' # p)" "split_host_port (h @ CHR '':'' # p) = (h, p)"
    using parseHost_port a by blast+
  have auth: "\<forall>c\<in>set (h @ CHR '':'' # p). path_char c \<and> c \<noteq> CHR ''/'' \<and> c \<noteq> CHR ''@''"
  proof -
    have "\<forall>c\<in>set h \<union> set p. path_char c \<and> c \<noteq> CHR ''/'' \<and> c \<noteq> CHR ''@''"
      using hc p host_char_authority by blast
    then show ?thesis by (simp add: ball_Un path_char_consts)
  qed
  have full: "url_Parse (s @ ''://'' @ (h @ CHR '':'' # p) @ path) =
      Some \<lparr>url_Scheme = s, url_Opaque = [], url_Host = h @ CHR '':'' # p\<rparr>"
    using url_Parse_parts [OF s auth ph(1)] a by blast
  show "ValidateRelayURL (s @ ''://'' @ h @ '':'' @ p @ path) = (if p = [] then Some PortMissing else None)"
    if "trimmed (s @ ''://'' @ h @ '':'' @ p @ path)"
    using ValidateRelayURL_parsed [OF full] that a by (simp add: Hostname_def Port_def ph(2))
  have auth': "\<forall>c\<in>set h. path_char c \<and> c \<noteq> CHR ''/'' \<and> c \<noteq> CHR ''@''"
    using hc host_char_authority by blast
  have bare: "url_Parse (s @ ''://'' @ h @ path) = Some \<lparr>url_Scheme = s, url_Opaque = [], url_Host = h\<rparr>"
    using url_Parse_parts [OF s auth' parseHost_plain(1)] a by blast
  have "split_host_port h = (h, [])" using parseHost_plain(2) a by blast
  then show "ValidateRelayURL (s @ ''://'' @ h @ path) = Some PortMissing" if "trimmed (s @ ''://'' @ h @ path)"
    using ValidateRelayURL_parsed [OF bare] that a by (simp add: Hostname_def Port_def)
qed

theorem ValidateRelayURL_correct_witness:
  "ValidateRelayURL ''wss://relay-1.example.com:99999/ws'' = None"
proof -
  have "trimmed ''wss://relay-1.example.com:99999/ws''" unfolding TrimSpace_eq_self [symmetric] by code_simp
  moreover have "(\<forall>c\<in>set ''relay-1.example.com''. host_char c) \<and> list_all is_digit ''99999'' \<and>
      (\<forall>c\<in>set ''/ws''. path_char c)"
    by (simp add: host_char_def is_alpha_def is_digit_def byte_def path_char_def)
  ultimately show ?thesis
    using ValidateRelayURL_correct [of "[]" "''wss''" "''relay-1.example.com''" "''99999''" "''/ws''"] by simp
qed

text \<open>\<open>ValidateCapabilities\<close> accepts exactly the lists whose trimmed entries are not empty and
  pairwise distinct, and \<open>ValidateFingerprint\<close> accepts exactly 64 hexadecimal digits, with or
  without the prefix \<open>sha256:\<close> and white space around; in particular the encoding of every
  32-byte digest.\<close>

theorem ValidateCapabilities_Fingerprint:
  "(ValidateCapabilities caps = None \<longleftrightarrow> (\<forall>c\<in>set caps. \<not> TrimSpace c = []) \<and> distinct (map TrimSpace caps)) \<and>
   (ValidateFingerprint fp = None \<longleftrightarrow>
      (\<exists>h. (TrimSpace fp = h \<or> TrimSpace fp = ''sha256:'' @ h) \<and> length h = 64 \<and> list_all is_hex h)) \<and>
   (length d = 32 \<longrightarrow> ValidateFingerprint (EncodeToString d) = None)"
proof (intro conjI impI)
  show "ValidateCapabilities caps = None \<longleftrightarrow> (\<forall>c\<in>set caps. \<not> TrimSpace c = []) \<and> distinct (map TrimSpace caps)"
    unfolding ValidateCapabilities_def check_caps_iff by auto (metis imageI)
  show fp: "ValidateFingerprint fp = None \<longleftrightarrow>
      (\<exists>h. (TrimSpace fp = h \<or> TrimSpace fp = ''sha256:'' @ h) \<and> length h = 64 \<and> list_all is_hex h)" for fp
    by (rule ValidateFingerprint_iff)
  show "ValidateFingerprint (EncodeToString d) = None" if "length d = 32"
    unfolding fp using that hex_decodable_EncodeToString [of d]
    by (intro exI [of _ "EncodeToString d"]) (simp add: hex_decodable_def)
qed

theorem ValidateCapabilities_Fingerprint_witness:
  "ValidateFingerprint (EncodeToString (replicate 32 CHR 0xa5)) = None"
  using ValidateCapabilities_Fingerprint [of "[]" "[]" "replicate 32 CHR 0xa5"] by simp

end
