(* ===== verification/Relay_Handlers.thy ===== *)
theory Relay_Handlers
  imports Node_Handlers Validation
begin

text \<open>
  The relay cache and the handlers of \<open>api/relays.go\<close>.  The cache pointer may be nil
  (\<open>None\<close>).  \<open>GetRelaysHandler\<close> is put together from its three phases (cache lookup, query,
  filling the cache), since other requests may run between the last two.
\<close>

section \<open>RelayCache\<close>

record RelayCache =
  cachedAt :: time
  cache_ttl :: duration
  cached_relays :: "RelayDTO list"
  cached_total :: int
  hasCached :: bool

definition NewRelayCache :: "int \<Rightarrow> RelayCache" where
  "NewRelayCache ttlSeconds =
     \<lparr>cachedAt = 0, cache_ttl = seconds (if ttlSeconds \<le> 0 then 15 else ttlSeconds), cached_relays = [],
      cached_total = 0, hasCached = False\<rparr>"

definition cache_Get :: "time \<Rightarrow> RelayCache \<Rightarrow> (RelayDTO list \<times> int) option" where
  "cache_Get now c =
     (if \<not> hasCached c then None
      else if now - cachedAt c > cache_ttl c then None
      else Some (cached_relays c, cached_total c))"

definition cache_Set :: "time \<Rightarrow> RelayDTO list \<Rightarrow> int \<Rightarrow> RelayCache \<Rightarrow> RelayCache" where
  "cache_Set now relays cnt c =
     c\<lparr>cached_relays := relays, cached_total := cnt, cachedAt := now, hasCached := True\<rparr>"

definition Invalidate :: "RelayCache \<Rightarrow> RelayCache" where
  "Invalidate c = c\<lparr>hasCached := False\<rparr>"

definition toRelayDTO :: "Relay \<Rightarrow> RelayDTO" where
  "toRelayDTO r =
     \<lparr>dto_NodeID = Relay_NodeID r, dto_URL = Relay_URL r, dto_Fingerprint = Relay_Fingerprint r,
      dto_Storage = Some \<lparr>ReservedGB = Relay_StorageReservedGB r, AvailableGB = Relay_StorageAvailableGB r\<rparr>,
      dto_ReplicationFactor = Relay_ReplicationFactor r, dto_Version = Relay_Version r,
      dto_UptimeSecs = Relay_UptimeSecs r, dto_Capabilities = Relay_Capabilities r,
      dto_LastSeen = Relay_LastSeenAt r\<rparr>"

section \<open>GET /relays\<close>

text \<open>The two query parameters; \<open>tp\<close> is \<open>time.Parse(time.RFC3339, _)\<close>.\<close>

definition since_hint :: string where
  "since_hint = CHR 0x27 # ''since'' @ CHR 0x27 # '' parameter must be a valid RFC3339 timestamp''"

definition storage_hint :: string where
  "storage_hint = CHR 0x27 # ''min_storage_gb'' @ CHR 0x27 # '' parameter must be a positive integer''"

definition parse_filters :: "(string \<Rightarrow> time option) \<Rightarrow> Request \<Rightarrow> Response + (time option \<times> u64)" where
  "parse_filters tp r =
     (if q_since r \<noteq> [] \<and> tp (q_since r) = None then Inl (WriteBadRequest since_hint)
      else let since = (if q_since r \<noteq> [] then tp (q_since r) else None) in
        if q_min_storage_gb r \<noteq> [] then
          (case ParseUint64 (q_min_storage_gb r) of
             None \<Rightarrow> Inl (WriteBadRequest storage_hint)
           | Some v \<Rightarrow> Inr (since, v))
        else Inr (since, 0))"

definition relays_response :: "RelayDTO list \<Rightarrow> int \<Rightarrow> time \<Rightarrow> Response" where
  "relays_response dtos cnt now =
     json_response 200 (RelaysBody \<lparr>gr_Relays = dtos, gr_Total = cnt, gr_GeneratedAt = now\<rparr>)"

text \<open>Phase 1: parse the filters and try the cache.\<close>

datatype relays_phase = Answered Response | Queried "time option" u64

definition GetRelays_begin :: "(nat \<Rightarrow> time) \<Rightarrow> (string \<Rightarrow> time option) \<Rightarrow> Request \<Rightarrow> RelayCache option \<Rightarrow> relays_phase" where
  "GetRelays_begin clk tp r cache =
     (case parse_filters tp r of
        Inl resp \<Rightarrow> Answered resp
      | Inr (since, minStorageGB) \<Rightarrow>
          (case cache of
             Some c \<Rightarrow>
               if since = None \<and> minStorageGB = 0 then
                 (case cache_Get (clk 0) c of
                    Some (dtos, cnt) \<Rightarrow> Answered (relays_response dtos cnt (clk 1))
                  | None \<Rightarrow> Queried since minStorageGB)
               else Queried since minStorageGB
           | None \<Rightarrow> Queried since minStorageGB))"

text \<open>Phase 2: the query.\<close>

definition GetRelays_query ::
  "faults \<Rightarrow> (nat \<Rightarrow> time) \<Rightarrow> Config \<Rightarrow> time option \<Rightarrow> u64 \<Rightarrow> SQLiteStore \<Rightarrow> store_error + RelayDTO list \<times> int" where
  "GetRelays_query F clk cfg since minStorageGB st =
     map_sum id (\<lambda>(relays, cnt). (map toRelayDTO relays, cnt))
       (ListActiveRelays F (clk 2) (RelayTTLSeconds (cfg_Registry cfg)) since minStorageGB
          (MaxRelaysPerResponse (cfg_Registry cfg)) st)"

text \<open>Phase 3: fill the cache and answer.\<close>

definition GetRelays_finish ::
  "(nat \<Rightarrow> time) \<Rightarrow> time option \<Rightarrow> u64 \<Rightarrow> RelayDTO list \<times> int \<Rightarrow> RelayCache option \<Rightarrow> RelayCache option \<times> Response" where
  "GetRelays_finish clk since minStorageGB res cache =
     (case res of (dtos, cnt) \<Rightarrow>
       (if since = None \<and> minStorageGB = 0 then map_option (cache_Set (clk 3) dtos cnt) cache else cache,
        relays_response dtos cnt (clk 4)))"

definition GetRelaysHandler ::
  "faults \<Rightarrow> (nat \<Rightarrow> time) \<Rightarrow> (string \<Rightarrow> time option) \<Rightarrow> Config \<Rightarrow> Request \<Rightarrow> SQLiteStore \<Rightarrow> RelayCache option \<Rightarrow>
   RelayCache option \<times> Response" where
  "GetRelaysHandler F clk tp cfg r st cache =
     (case GetRelays_begin clk tp r cache of
        Answered resp \<Rightarrow> (cache, resp)
      | Queried since minStorageGB \<Rightarrow>
          (case GetRelays_query F clk cfg since minStorageGB st of
             Inl _ \<Rightarrow> (cache, WriteInternalServerError)
           | Inr res \<Rightarrow> GetRelays_finish clk since minStorageGB res cache))"

section \<open>POST /relays\<close>

definition validation_failed :: "string \<Rightarrow> ValidationError \<Rightarrow> Response" where
  "validation_failed what e = WriteBadRequest (what @ '' validation failed: '' @ error_text e)"

definition check_register_relay :: "RegisterRelayRequest \<Rightarrow> Response option" where
  "check_register_relay req =
     (if rr_NodeID req = [] then Some (WriteBadRequest ''node_id field is required'')
      else case ValidateRelayURL (rr_URL req) of
        Some e \<Rightarrow> Some (validation_failed ''url'' e)
      | None \<Rightarrow>
          (case (if rr_Fingerprint req \<noteq> [] then ValidateFingerprint (rr_Fingerprint req) else None) of
             Some e \<Rightarrow> Some (validation_failed ''fingerprint'' e)
           | None \<Rightarrow>
               map_option (validation_failed ''capabilities'')
                 (ValidateCapabilities (case rr_Capabilities req of None \<Rightarrow> [] | Some cs \<Rightarrow> cs))))"

definition announced_relay :: "time \<Rightarrow> RegisterRelayRequest \<Rightarrow> Node \<Rightarrow> Relay" where
  "announced_relay now req node =
     \<lparr>Relay_NodeID = Node_ID node, Relay_URL = rr_URL req, Relay_Fingerprint = rr_Fingerprint req,
      Relay_StorageReservedGB = (case rr_Storage req of Some s \<Rightarrow> ReservedGB s | None \<Rightarrow> Node_StorageReservedGB node),
      Relay_StorageAvailableGB = (case rr_Storage req of Some s \<Rightarrow> AvailableGB s | None \<Rightarrow> Node_StorageAvailableGB node),
      Relay_ReplicationFactor = rr_ReplicationFactor req, Relay_Version = rr_Version req, Relay_UptimeSecs = 0,
      Relay_Capabilities = rr_Capabilities req, Relay_Status = RelayStatusActive, Relay_LastSeenAt = now,
      Relay_CreatedAt = 0, Relay_UpdatedAt = 0\<rparr>"

definition RegisterRelayHandler ::
  "faults \<Rightarrow> (nat \<Rightarrow> time) \<Rightarrow> JSON \<Rightarrow> Request \<Rightarrow> SQLiteStore \<times> RelayCache option \<Rightarrow>
   (SQLiteStore \<times> RelayCache option) \<times> Response" where
  "RegisterRelayHandler F clk J r s =
     (case s of (st, cache) \<Rightarrow>
      case decode_register_relay J (RequestBody r) of (ok, req) \<Rightarrow>
      if \<not> ok then ((st, cache), WriteBadRequest ''invalid request JSON body'')
      else case check_register_relay req of
        Some resp \<Rightarrow> ((st, cache), resp)
      | None \<Rightarrow>
          (case GetNodeByID F (rr_NodeID req) st of
             Inl e \<Rightarrow>
               ((st, cache), if e = ErrNodeNotFound then WriteNotFound ''node'' (rr_NodeID req)
                             else WriteInternalServerError)
           | Inr node \<Rightarrow>
               (case UpsertRelay F (clk 1) (announced_relay (clk 0) req node) st of
                  (st', Some _, _) \<Rightarrow> ((st', cache), WriteInternalServerError)
                | (st', None, relay) \<Rightarrow>
                    ((st', map_option Invalidate cache), json_response 201 (RelayBody (toRelayDTO relay))))))"

section \<open>PUT /v1/relays/{node\_id}\<close>

definition check_heartbeat_v1 :: "HeartbeatV1RelayRequest \<Rightarrow> Response option" where
  "check_heartbeat_v1 req =
     (case ValidateRelayURL (hv_URL req) of
        Some e \<Rightarrow> Some (validation_failed ''url'' e)
      | None \<Rightarrow>
          (case ValidateFingerprint (hv_Fingerprint req) of
             Some e \<Rightarrow> Some (validation_failed ''fingerprint'' e)
           | None \<Rightarrow>
               if hv_Storage req = None then Some (WriteBadRequest ''storage payload is required'')
               else if TrimSpace (hv_Version req) = []
               then Some (WriteBadRequest ''version field is required and cannot be empty'')
               else None))"

definition heartbeat_relay :: "time \<Rightarrow> HeartbeatV1RelayRequest \<Rightarrow> Relay \<Rightarrow> Relay" where
  "heartbeat_relay now req relay =
     relay\<lparr>Relay_URL := hv_URL req, Relay_Fingerprint := hv_Fingerprint req,
           Relay_StorageReservedGB := (case hv_Storage req of Some s \<Rightarrow> ReservedGB s | None \<Rightarrow> 0),
           Relay_StorageAvailableGB := (case hv_Storage req of Some s \<Rightarrow> AvailableGB s | None \<Rightarrow> 0),
           Relay_Version := hv_Version req, Relay_UptimeSecs := hv_UptimeSecs req,
           Relay_Status := RelayStatusActive, Relay_LastSeenAt := now\<rparr>"

definition PutV1RelayHeartbeatHandler ::
  "faults \<Rightarrow> (nat \<Rightarrow> time) \<Rightarrow> JSON \<Rightarrow> Config \<Rightarrow> Request \<Rightarrow> string \<Rightarrow> SQLiteStore \<times> RelayCache option \<Rightarrow>
   (SQLiteStore \<times> RelayCache option) \<times> Response" where
  "PutV1RelayHeartbeatHandler F clk J cfg r nodeID s =
     (case s of (st, cache) \<Rightarrow>
      if nodeID = [] then ((st, cache), WriteBadRequest ''missing node_id URL parameter'')
      else if \<not> authorizeNodeOwnership F cfg r nodeID st
      then ((st, cache), WriteUnauthorized ''unauthorized access to node_id'')
      else case decode_heartbeat_v1 J (RequestBody r) of (ok, req) \<Rightarrow>
      if \<not> ok then ((st, cache), WriteBadRequest ''invalid request JSON body'')
      else case check_heartbeat_v1 req of
        Some resp \<Rightarrow> ((st, cache), resp)
      | None \<Rightarrow>
          (case GetRelayByNodeID F nodeID st of
             Inl e \<Rightarrow>
               ((st, cache), if e = ErrRelayNotFound then WriteNotFound ''relay'' nodeID
                             else WriteInternalServerError)
           | Inr relay \<Rightarrow>
               (case UpdateRelayFull F (clk 1) (heartbeat_relay (clk 0) req relay) st of
                  (st', Some _, _) \<Rightarrow> ((st', cache), WriteInternalServerError)
                | (st', None, relay') \<Rightarrow>
                    ((st', map_option Invalidate cache), json_response 200 (RelayBody (toRelayDTO relay'))))))"

section \<open>PUT and DELETE /relays/{node\_id}\<close>

definition HeartbeatRelayHandler ::
  "faults \<Rightarrow> (nat \<Rightarrow> time) \<Rightarrow> JSON \<Rightarrow> Request \<Rightarrow> string \<Rightarrow> SQLiteStore \<times> RelayCache option \<Rightarrow>
   (SQLiteStore \<times> RelayCache option) \<times> Response" where
  "HeartbeatRelayHandler F clk J r nodeID s =
     (case s of (st, cache) \<Rightarrow>
      if nodeID = [] then ((st, cache), WriteBadRequest ''missing node_id URL parameter'')
      else
        let storage = (if ContentLength r > 0 then hb_AvailableGB (snd (decode_heartbeat J (RequestBody r))) else None)
        in case UpdateRelayHeartbeat F (clk 0) nodeID storage st of
             (st', Some e) \<Rightarrow>
               ((st', cache), if e = ErrRelayNotFound then WriteNotFound ''relay'' nodeID else WriteInternalServerError)
           | (st', None) \<Rightarrow> ((st', map_option Invalidate cache), no_content))"

definition DeleteRelayHandler ::
  "faults \<Rightarrow> string \<Rightarrow> SQLiteStore \<times> RelayCache option \<Rightarrow> (SQLiteStore \<times> RelayCache option) \<times> Response" where
  "DeleteRelayHandler F nodeID s =
     (case s of (st, cache) \<Rightarrow>
      if nodeID = [] then ((st, cache), WriteBadRequest ''missing node_id URL parameter'')
      else case DeleteRelay F nodeID st of
        (st', Some e) \<Rightarrow>
          ((st', cache), if e = ErrRelayNotFound then WriteNotFound ''relay'' nodeID else WriteInternalServerError)
      | (st', None) \<Rightarrow> ((st', map_option Invalidate cache), no_content))"

lemmas relay_handler_defs [handler_defs] = GetRelaysHandler_def RegisterRelayHandler_def
  PutV1RelayHeartbeatHandler_def HeartbeatRelayHandler_def DeleteRelayHandler_def

section \<open>Lemmas\<close>

lemma scanRelay_InrD:
  "GetRelayByNodeID F i st = Inr r \<Longrightarrow> i \<in> Relay_NodeID ` set (st_relays st) \<and> Relay_NodeID r = i"
  by (auto dest!: GetRelayByNodeID_InrD)

lemma Status_validation_failed [simp]: "Status (validation_failed w e) = 400"
  by (simp add: validation_failed_def)

lemma check_register_relay_400: "check_register_relay req = Some resp \<Longrightarrow> Status resp = 400"
  by (auto simp: check_register_relay_def split: if_splits option.splits)

lemma check_heartbeat_v1_400: "check_heartbeat_v1 req = Some resp \<Longrightarrow> Status resp = 400"
  by (auto simp: check_heartbeat_v1_def split: if_splits option.splits)

lemma parse_filters_400: "parse_filters tp r = Inl resp \<Longrightarrow> Status resp = 400"
  by (auto simp: parse_filters_def Let_def split: if_splits option.splits)

lemma Status_relays_response [simp]: "Status (relays_response dtos cnt now) = 200"
  by (simp add: relays_response_def)

lemma GetRelays_begin_status: "GetRelays_begin clk tp r cache = Answered resp \<Longrightarrow> Status resp = 400 \<or> Status resp = 200"
  using parse_filters_400 [of tp r resp]
  by (auto simp: GetRelays_begin_def split: if_splits option.splits sum.splits)

text \<open>An update that reports an error without a fault of \<open>RowsAffected\<close> has changed nothing.\<close>

lemma exec_update_error:
  "exec_update F q p f rs = (rs', res) \<Longrightarrow> affected_error nf res = Some e \<Longrightarrow> \<not> F (Affected q) \<Longrightarrow> rs' = rs"
  by (auto simp: exec_update_def split: if_splits)

lemma exec_delete_error:
  "exec_delete F q p rs = (rs', res) \<Longrightarrow> affected_error nf res = Some e \<Longrightarrow> \<not> F (Affected q) \<Longrightarrow> rs' = rs"
  by (auto simp: exec_delete_def delete_where_def split: if_splits)

lemma error_keeps_store:
  "\<not> F (Affected Q_DeleteNode) \<Longrightarrow> DeleteNode F t i st = (st', Some e) \<Longrightarrow> st' = st"
  "\<not> F (Affected Q_Heartbeat) \<Longrightarrow> UpdateRelayHeartbeat F t i gb st = (st', Some e) \<Longrightarrow> st' = st"
  "\<not> F (Affected Q_UpdateRelayFull) \<Longrightarrow> UpdateRelayFull F t r st = (st', Some e, r') \<Longrightarrow> st' = st"
  "\<not> F (Affected Q_DeleteRelay) \<Longrightarrow> DeleteRelay F i st = (st', Some e) \<Longrightarrow> st' = st"
  "UpsertRelay F t r st = (st', Some e, r') \<Longrightarrow> st' = st"
  "CreateNode F t n st = (st', Some e, n') \<Longrightarrow> st' = st"
proof -
  show "\<not> F (Affected Q_DeleteNode) \<Longrightarrow> DeleteNode F t i st = (st', Some e) \<Longrightarrow> st' = st"
    by (auto simp: DeleteNode_def dest: exec_update_error split: prod.splits)
  show "\<not> F (Affected Q_Heartbeat) \<Longrightarrow> UpdateRelayHeartbeat F t i gb st = (st', Some e) \<Longrightarrow> st' = st"
    by (auto simp: UpdateRelayHeartbeat_def Let_def dest: exec_update_error split: prod.splits)
  show "\<not> F (Affected Q_UpdateRelayFull) \<Longrightarrow> UpdateRelayFull F t r st = (st', Some e, r') \<Longrightarrow> st' = st"
    by (auto simp: UpdateRelayFull_def Let_def dest: exec_update_error split: prod.splits)
  show "\<not> F (Affected Q_DeleteRelay) \<Longrightarrow> DeleteRelay F i st = (st', Some e) \<Longrightarrow> st' = st"
    by (auto simp: DeleteRelay_def dest: exec_delete_error split: prod.splits)
  show "UpsertRelay F t r st = (st', Some e, r') \<Longrightarrow> st' = st"
    by (auto simp: UpsertRelay_def Let_def split: if_splits)
  show "CreateNode F t n st = (st', Some e, n') \<Longrightarrow> st' = st"
    by (auto simp: CreateNode_def Let_def split: if_splits)
qed

text \<open>No driver call reports a failure of \<open>RowsAffected\<close>.\<close>

definition counts_rows :: "faults \<Rightarrow> bool" where
  "counts_rows F \<longleftrightarrow> (\<forall>q. \<not> F (Affected q))"

lemma counts_rowsD [simp]: "counts_rows F \<Longrightarrow> \<not> F (Affected q)"
  by (simp add: counts_rows_def)

lemma counts_rows_no_faults [simp]: "counts_rows no_faults"
  by (simp add: counts_rows_def)

section \<open>Coherence of the cache\<close>

text \<open>What a valid cache holds is the answer of the query to the database as it is now, at some
  earlier instant.\<close>

definition cache_coherent :: "Config \<Rightarrow> SQLiteStore \<times> RelayCache option \<Rightarrow> bool" where
  "cache_coherent cfg s \<longleftrightarrow>
     (\<forall>c. snd s = Some c \<and> hasCached c \<longrightarrow>
       (\<exists>t. GetRelays_query no_faults (\<lambda>_. t) cfg None 0 (fst s) = Inr (cached_relays c, cached_total c)))"

lemma cache_coherent_invalid: "cache_coherent cfg (st, map_option Invalidate cache)"
  by (auto simp: cache_coherent_def Invalidate_def)

lemma GetRelays_query_cong:
  assumes "st_relays st' = st_relays st"
  shows "GetRelays_query F clk cfg since gb st' = GetRelays_query F clk cfg since gb st"
  unfolding GetRelays_query_def ListActiveRelays_def Let_def assms ..

lemma GetRelays_query_clk:
  "GetRelays_query F (\<lambda>_. clk 2) cfg since gb st = GetRelays_query F clk cfg since gb st"
  by (simp add: GetRelays_query_def)

lemma ListActiveRelays_faultless:
  "ListActiveRelays F now ttl since gb lim st = Inr x \<Longrightarrow> ListActiveRelays no_faults now ttl since gb lim st = Inr x"
  by (auto simp: ListActiveRelays_def query_count_def Let_def dest!: collect_rows_Inr split: if_splits sum.splits)

lemma GetRelays_query_faultless:
  "GetRelays_query F clk cfg since gb st = Inr x \<Longrightarrow> GetRelays_query no_faults clk cfg since gb st = Inr x"
  using ListActiveRelays_faultless [of F "clk 2" "RelayTTLSeconds (cfg_Registry cfg)" since gb
      "MaxRelaysPerResponse (cfg_Registry cfg)" st]
  by (cases "ListActiveRelays F (clk 2) (RelayTTLSeconds (cfg_Registry cfg)) since gb
      (MaxRelaysPerResponse (cfg_Registry cfg)) st") (simp_all add: GetRelays_query_def)

lemma cache_coherent_cong:
  "st_relays st' = st_relays st \<Longrightarrow> cache_coherent cfg (st, cache) \<Longrightarrow> cache_coherent cfg (st', cache)"
  using GetRelays_query_cong [of st' st no_faults _ cfg None 0] by (auto simp: cache_coherent_def)

lemma cache_coherent_GetRelays:
  assumes "cache_coherent cfg (st, cache)" "GetRelaysHandler F clk tp cfg r st cache = (cache', resp)"
  shows "cache_coherent cfg (st, cache')"
proof (cases "GetRelays_begin clk tp r cache")
  case (Answered resp')
  with assms show ?thesis by (simp add: GetRelaysHandler_def)
next
  case (Queried since gb)
  show ?thesis
  proof (cases "GetRelays_query F clk cfg since gb st")
    case (Inl e)
    with Queried assms show ?thesis by (simp add: GetRelaysHandler_def)
  next
    case (Inr x)
    from GetRelays_query_faultless [OF this]
    have "GetRelays_query no_faults (\<lambda>_. clk 2) cfg since gb st = Inr x"
      by (simp add: GetRelays_query_clk)
    with Queried Inr assms show ?thesis
      by (auto simp: GetRelaysHandler_def GetRelays_finish_def cache_coherent_def cache_Set_def
          split: prod.splits if_splits)
  qed
qed

end
