(* ===== verification/Rate_Limit.thy ===== *)
theory Rate_Limit
  imports Auth Complex_Main
begin

text \<open>
  The rate limiter of \<open>middleware/ratelimit.go\<close>: token buckets by client address, the cleanup of
  the stale ones, the middleware and the client address.  A \<open>float64\<close> is a rational, and \<open>rnd\<close> is
  the rounding of one floating-point operation; the conversion of a value outside \<open>int64\<close> (such as
  \<open>+Inf\<close>, the quotient by a zero fill rate) is left to the implementation by the language and is
  the parameter \<open>big\<close>.
\<close>

section \<open>State\<close>

record ipBucket =
  tokens :: rat
  lastRefill :: time

type_synonym IPRateLimiter = "string \<Rightarrow> ipBucket option"

definition NewIPRateLimiter :: IPRateLimiter where
  "NewIPRateLimiter = Map.empty"

definition cleanupStaleBuckets :: "time \<Rightarrow> IPRateLimiter \<Rightarrow> IPRateLimiter" where
  "cleanupStaleBuckets now l =
     (let cutoff = now - 10 * Minute in
      (\<lambda>a. case l a of None \<Rightarrow> None | Some b \<Rightarrow> if lastRefill b < cutoff then None else Some b))"

section \<open>Allow\<close>

text \<open>\<open>Duration.Seconds\<close> and the conversion \<open>int(f)\<close>; \<open>None\<close> is an infinity.\<close>

definition dur_seconds :: "(rat \<Rightarrow> rat) \<Rightarrow> duration \<Rightarrow> rat" where
  "dur_seconds rnd d =
     (let sec = sgn d * (\<bar>d\<bar> div Second); nsec = d - sec * Second
      in rnd (rnd (of_int sec) + rnd (of_int nsec / of_int Second)))"

definition float_to_int :: "int \<Rightarrow> rat option \<Rightarrow> int" where
  "float_to_int big q =
     (case q of
        None \<Rightarrow> big
      | Some x \<Rightarrow> if - (2 ^ 63) \<le> x \<and> x < 2 ^ 63 then sgn (\<lfloor>x\<rfloor>) * \<lfloor>\<bar>x\<bar>\<rfloor> else big)"

text \<open>The tokens after the refill since the last call.\<close>

definition refill :: "(rat \<Rightarrow> rat) \<Rightarrow> time \<Rightarrow> rat \<Rightarrow> int \<Rightarrow> ipBucket \<Rightarrow> rat" where
  "refill rnd now fillRate burst b =
     (let elapsed = dur_seconds rnd (now - lastRefill b);
          t = rnd (tokens b + rnd (elapsed * fillRate))
      in if t > of_int burst then of_int burst else t)"

definition Allow ::
  "(rat \<Rightarrow> rat) \<Rightarrow> int \<Rightarrow> time \<Rightarrow> string \<Rightarrow> int \<Rightarrow> int \<Rightarrow> IPRateLimiter \<Rightarrow> IPRateLimiter \<times> bool \<times> int" where
  "Allow rnd big now ip rpm burst l =
     (let fillRate = rnd (of_int rpm / 60) in
      case l ip of
        None \<Rightarrow> (l(ip \<mapsto> \<lparr>tokens = rnd (of_int burst - 1), lastRefill = now\<rparr>), True, 0)
      | Some b \<Rightarrow>
          let t = refill rnd now fillRate burst b
          in if t \<ge> 1
             then (l(ip \<mapsto> \<lparr>tokens = rnd (t - 1), lastRefill = now\<rparr>), True, 0)
             else let missing = rnd (1 - t);
                      retryAfterSec = float_to_int big
                        (if fillRate = 0 then None else Some (of_int \<lceil>rnd (missing / fillRate)\<rceil>))
                  in (l(ip \<mapsto> \<lparr>tokens = t, lastRefill = now\<rparr>), False,
                      if retryAfterSec \<le> 0 then 1 else retryAfterSec))"

section \<open>The middleware\<close>

definition writeTooManyRequests :: "int \<Rightarrow> Response" where
  "writeTooManyRequests retryAfterSeconds =
     (let n = (if retryAfterSeconds \<le> 0 then 1 else retryAfterSeconds)
      in (json_response 429 (ErrorBody ((error_response ''rate limit exceeded'')
            \<lparr>er_Reason := ''HTTP request limit exceeded''\<rparr>)))\<lparr>RetryAfter := Some (Itoa n)\<rparr>)"

definition ExtractClientIP :: "Request \<Rightarrow> string" where
  "ExtractClientIP r =
     (let xff = XForwardedFor r;
          ip = (if xff \<noteq> [] then TrimSpace (hd (Split CHR '','' xff)) else [])
      in if ip \<noteq> [] then ip
         else case SplitHostPort (RemoteAddr r) of None \<Rightarrow> RemoteAddr r | Some (host, _) \<Rightarrow> host)"

definition request_rpm :: "Config \<Rightarrow> Request \<Rightarrow> int" where
  "request_rpm cfg r =
     (if Method r = ''PUT'' \<and> HasPrefix (URLPath r) ''/relays/''
      then HeartbeatRPM (cfg_RateLimit cfg) else RequestsPerMinute (cfg_RateLimit cfg))"

definition RateLimitMiddleware ::
  "(rat \<Rightarrow> rat) \<Rightarrow> int \<Rightarrow> time \<Rightarrow> Config \<Rightarrow> Request \<Rightarrow> IPRateLimiter \<times> Metrics \<Rightarrow>
   (IPRateLimiter \<times> Metrics) \<times> Response option" where
  "RateLimitMiddleware rnd big now cfg r s =
     (case s of (l, m) \<Rightarrow>
      if is_public (PublicPaths (cfg_Auth cfg)) (URLPath r) then ((l, m), None)
      else case Allow rnd big now (ExtractClientIP r) (request_rpm cfg r) (Burst (cfg_RateLimit cfg)) l of
        (l', allowed, retryAfter) \<Rightarrow>
          if \<not> allowed then ((l', inc_RateLimitRejected m), Some (writeTooManyRequests retryAfter))
          else ((l', m), None))"

section \<open>Lemmas\<close>

text \<open>
  What is used of a rounding: it is monotone and exact on the integers of up to 53 bits, as the
  rounding of IEEE 754 is.
\<close>

definition rounding :: "(rat \<Rightarrow> rat) \<Rightarrow> bool" where
  "rounding rnd \<longleftrightarrow> mono rnd \<and> (\<forall>n. \<bar>n\<bar> \<le> 2 ^ 53 \<longrightarrow> rnd (of_int n) = of_int n)"

text \<open>Exact arithmetic is such a rounding.\<close>

definition exact :: "rat \<Rightarrow> rat" where
  [simp]: "exact x = x"

lemma rounding_exact: "rounding exact"
  by (simp add: rounding_def mono_def)

lemma rounding_mono: "rounding rnd \<Longrightarrow> x \<le> y \<Longrightarrow> rnd x \<le> rnd y"
  by (simp add: rounding_def mono_def)

lemma rounding_int: "rounding rnd \<Longrightarrow> \<bar>n\<bar> \<le> 2 ^ 53 \<Longrightarrow> rnd (of_int n) = of_int n"
  by (simp add: rounding_def)

lemma rounding_0: "rounding rnd \<Longrightarrow> rnd 0 = 0"
  using rounding_int [of rnd 0] by simp

lemma rounding_nonneg: "rounding rnd \<Longrightarrow> 0 \<le> x \<Longrightarrow> 0 \<le> rnd x"
  using rounding_mono [of rnd 0 x] rounding_0 [of rnd] by simp

lemma dur_seconds_exact: "dur_seconds exact d = of_int d / of_int Second"
proof -
  have "of_int d = (of_int (sgn d * (\<bar>d\<bar> div Second)) * of_int Second +
      of_int (d - sgn d * (\<bar>d\<bar> div Second) * Second) :: rat)"
    by simp
  then show ?thesis by (simp add: dur_seconds_def Let_def Second_def field_simps)
qed

lemma dur_seconds_nonneg:
  assumes "rounding rnd" "0 \<le> d" shows "0 \<le> dur_seconds rnd d"
proof -
  have sec: "0 \<le> sgn d * (\<bar>d\<bar> div Second)" "0 \<le> d - sgn d * (\<bar>d\<bar> div Second) * Second"
    using assms(2) by (auto simp: Second_def sgn_if)
  have "0 \<le> of_int (d - sgn d * (\<bar>d\<bar> div Second) * Second) / (of_int Second :: rat)"
    by (rule divide_nonneg_nonneg) (use sec(2) in \<open>simp_all only: of_int_0_le_iff\<close>, simp add: Second_def)
  moreover have "0 \<le> (of_int (sgn d * (\<bar>d\<bar> div Second)) :: rat)"
    using sec(1) by (simp only: of_int_0_le_iff)
  ultimately show ?thesis
    unfolding dur_seconds_def Let_def by (intro rounding_nonneg [OF assms(1)] add_nonneg_nonneg)
qed

text \<open>The invariant of a limiter that is only used with one burst.\<close>

definition buckets_inv :: "int \<Rightarrow> IPRateLimiter \<Rightarrow> bool" where
  "buckets_inv burst l \<longleftrightarrow> (\<forall>ip b. l ip = Some b \<longrightarrow> 0 \<le> tokens b \<and> tokens b \<le> of_int burst)"

lemma buckets_inv_empty [simp]: "buckets_inv burst Map.empty"
  by (simp add: buckets_inv_def)

lemma buckets_inv_update:
  "buckets_inv burst l \<Longrightarrow> 0 \<le> t \<Longrightarrow> t \<le> of_int burst \<Longrightarrow>
   buckets_inv burst (l(ip \<mapsto> \<lparr>tokens = t, lastRefill = now\<rparr>))"
  by (auto simp: buckets_inv_def)

lemma buckets_inv_cleanup: "buckets_inv burst l \<Longrightarrow> buckets_inv burst (cleanupStaleBuckets now l)"
  by (auto simp: buckets_inv_def cleanupStaleBuckets_def Let_def split: option.splits if_splits)

lemma rounding_pred:
  assumes "rounding rnd" "1 \<le> t" "t \<le> of_int n" "1 \<le> n" "n \<le> 2 ^ 53"
  shows "0 \<le> rnd (t - 1)" "rnd (t - 1) \<le> of_int n"
proof -
  have "0 \<le> t - 1" "t - 1 \<le> of_int n" using assms(2,3) by linarith+
  then show "0 \<le> rnd (t - 1)" "rnd (t - 1) \<le> of_int n"
    using rounding_nonneg [OF assms(1)] rounding_mono [OF assms(1)] rounding_int [OF assms(1), of n] assms(4,5)
    by (simp_all add: abs_le_iff) metis
qed

lemma if_cases_fst:
  "fst (if c then (l(a \<mapsto> \<lparr>tokens = x, lastRefill = now\<rparr>), p) else (l(a \<mapsto> \<lparr>tokens = y, lastRefill = now\<rparr>), q)) =
   l(a \<mapsto> \<lparr>tokens = (if c then x else y), lastRefill = now\<rparr>)"
  by simp

lemma Allow_bucket:
  assumes "l ip = Some b"
  shows "fst (Allow rnd big now ip rpm burst l) =
    l(ip \<mapsto> \<lparr>tokens = (let t = refill rnd now (rnd (of_int rpm / 60)) burst b in if 1 \<le> t then rnd (t - 1) else t),
       lastRefill = now\<rparr>)"
  unfolding Allow_def Let_def assms option.case by (rule if_cases_fst)

lemma buckets_inv_Allow:
  assumes "rounding rnd" "1 \<le> burst" "burst \<le> 2 ^ 53" "0 \<le> rpm" "buckets_inv burst l"
    and "\<And>b. l ip = Some b \<Longrightarrow> lastRefill b \<le> now"
  shows "buckets_inv burst (fst (Allow rnd big now ip rpm burst l))"
proof (cases "l ip")
  case None
  have "0 \<le> rnd (of_int burst - 1)" "rnd (of_int burst - 1) \<le> of_int burst"
    using rounding_pred [OF assms(1), of "of_int burst" burst] assms(2,3) by simp_all
  with None assms(5) show ?thesis by (simp add: Allow_def Let_def buckets_inv_update)
next
  case (Some b)
  define t where "t = refill rnd now (rnd (of_int rpm / 60)) burst b"
  have "0 \<le> dur_seconds rnd (now - lastRefill b) * rnd (of_int rpm / 60)"
    using assms(4,6) Some
    by (intro mult_nonneg_nonneg dur_seconds_nonneg [OF assms(1)] rounding_nonneg [OF assms(1)]) simp_all
  then have r: "0 \<le> rnd (tokens b + rnd (dur_seconds rnd (now - lastRefill b) * rnd (of_int rpm / 60)))"
    using assms(5) Some by (intro rounding_nonneg [OF assms(1)] add_nonneg_nonneg) (auto simp: buckets_inv_def)
  have "(0::rat) \<le> of_int burst" using assms(2) by simp
  with r have t: "0 \<le> t" "t \<le> of_int burst"
    by (simp_all add: t_def refill_def Let_def)
  have "1 \<le> t \<Longrightarrow> 0 \<le> rnd (t - 1) \<and> rnd (t - 1) \<le> of_int burst"
    using rounding_pred [OF assms(1) _ t(2) assms(2,3)] by blast
  moreover have "fst (Allow rnd big now ip rpm burst l) =
      l(ip \<mapsto> \<lparr>tokens = (if 1 \<le> t then rnd (t - 1) else t), lastRefill = now\<rparr>)"
    unfolding t_def by (rule trans [OF Allow_bucket [of l ip, OF Some]]) (simp add: Let_def)
  ultimately show ?thesis using t assms(5) by (simp add: buckets_inv_update)
qed

lemma Allow_other: "ip' \<noteq> ip \<Longrightarrow> fst (Allow rnd big now ip rpm burst l) ip' = l ip'"
  by (simp add: Allow_def Let_def split: option.split)

lemma Allow_new:
  "l ip = None \<Longrightarrow> Allow rnd big now ip rpm burst l =
     (l(ip \<mapsto> \<lparr>tokens = rnd (of_int burst - 1), lastRefill = now\<rparr>), True, 0)"
  by (simp add: Allow_def)

lemma Allow_allowed:
  "l ip = Some b \<Longrightarrow> 1 \<le> refill rnd now (rnd (of_int rpm / 60)) burst b \<Longrightarrow>
   Allow rnd big now ip rpm burst l =
     (l(ip \<mapsto> \<lparr>tokens = rnd (refill rnd now (rnd (of_int rpm / 60)) burst b - 1), lastRefill = now\<rparr>), True, 0)"
  by (simp add: Allow_def Let_def)

lemma Allow_rejected:
  "l ip = Some b \<Longrightarrow> refill rnd now (rnd (of_int rpm / 60)) burst b < 1 \<Longrightarrow>
   \<exists>n\<ge>1. Allow rnd big now ip rpm burst l =
     (l(ip \<mapsto> \<lparr>tokens = refill rnd now (rnd (of_int rpm / 60)) burst b, lastRefill = now\<rparr>), False, n)"
  by (simp add: Allow_def Let_def)

definition per_second :: "int \<Rightarrow> rat" where
  "per_second rpm = of_int rpm / 60"

lemma refill_exact:
  "refill exact now f burst b = min (of_int burst) (tokens b + of_int (now - lastRefill b) / of_int Second * f)"
  by (simp add: refill_def dur_seconds_exact Let_def min_def)

text \<open>The requests of all clients in order, and how many of those of one address are admitted.\<close>

fun admitted :: "int \<Rightarrow> int \<Rightarrow> string \<Rightarrow> (time \<times> string) list \<Rightarrow> IPRateLimiter \<Rightarrow> nat" where
  "admitted rpm burst ip [] l = 0"
| "admitted rpm burst ip ((t, a) # es) l =
     (case Allow exact 0 t a rpm burst l of
        (l', allowed, _) \<Rightarrow> (if a = ip \<and> allowed then 1 else 0) + admitted rpm burst ip es l')"

definition elapsed_tokens :: "int \<Rightarrow> time \<Rightarrow> time \<Rightarrow> rat" where
  "elapsed_tokens rpm t0 t1 = of_int (t1 - t0) / of_int Second * per_second rpm"

lemma elapsed_tokens_add: "elapsed_tokens rpm t0 t1 + elapsed_tokens rpm t1 t2 = elapsed_tokens rpm t0 t2"
  by (simp add: elapsed_tokens_def Second_def field_simps)

lemma elapsed_tokens_mono: "0 \<le> rpm \<Longrightarrow> t1 \<le> t2 \<Longrightarrow> elapsed_tokens rpm t0 t1 \<le> elapsed_tokens rpm t0 t2"
  unfolding elapsed_tokens_def per_second_def Second_def
  by (intro mult_right_mono divide_right_mono) simp_all

lemma admitted_bucket:
  assumes "0 \<le> rpm" "sorted (map fst es)" "\<forall>t\<in>fst ` set es. t0 \<le> t \<and> t \<le> t1"
    and "l ip = Some b" "lastRefill b = t0" "0 \<le> tokens b" "0 \<le> burst" "t0 \<le> t1"
  shows "of_nat (admitted rpm burst ip es l) \<le> tokens b + elapsed_tokens rpm t0 t1"
  using assms
proof (induction es arbitrary: l b t0)
  case Nil
  then show ?case using elapsed_tokens_mono [of rpm t0 t1 t0] by (simp add: elapsed_tokens_def)
next
  case (Cons e es)
  obtain t a where e: "e = (t, a)" by (cases e)
  obtain l' ok n where run: "Allow exact 0 t a rpm burst l = (l', ok, n)"
    by (cases "Allow exact 0 t a rpm burst l") auto
  have later: "sorted (map fst es)" "\<forall>u\<in>fst ` set es. t \<le> u \<and> u \<le> t1" "t0 \<le> t" "t \<le> t1"
    using Cons.prems(2,3) by (auto simp: e)
  show ?case
  proof (cases "a = ip")
    case False
    then have "l' ip = Some b" using Allow_other [of ip a exact 0 t rpm burst l] run Cons.prems(4) by auto
    moreover have "\<forall>u\<in>fst ` set es. t0 \<le> u \<and> u \<le> t1" using later by force
    ultimately have "of_nat (admitted rpm burst ip es l') \<le> tokens b + elapsed_tokens rpm t0 t1"
      using Cons.IH [of t0 l' b] Cons.prems later(1) by blast
    with run False show ?thesis by (simp add: e)
  next
    case True
    define u where "u = refill exact t (of_int rpm / 60) burst b"
    have "u \<le> tokens b + elapsed_tokens rpm t0 t"
      by (simp add: u_def refill_exact elapsed_tokens_def per_second_def Cons.prems(5))
    moreover have "0 \<le> u"
      using Cons.prems(1,6,7) later(3)
      by (simp add: u_def refill_exact Cons.prems(5) Second_def)
    moreover have "of_nat (admitted rpm burst ip es l') + (if ok then 1 else 0) \<le> u + elapsed_tokens rpm t t1"
    proof (cases "1 \<le> u")
      case True
      then have "l' ip = Some \<lparr>tokens = u - 1, lastRefill = t\<rparr>" "ok"
        using Allow_allowed [of l ip b exact t rpm burst 0] run Cons.prems(4) \<open>a = ip\<close> by (auto simp: u_def)
      with Cons.IH [of t l' "\<lparr>tokens = u - 1, lastRefill = t\<rparr>"] Cons.prems(1,7) later True show ?thesis
        by simp
    next
      case False
      then have "l' ip = Some \<lparr>tokens = u, lastRefill = t\<rparr>" "\<not> ok"
        using Allow_rejected [of l ip b exact t rpm burst 0] run Cons.prems(4) \<open>a = ip\<close> by (auto simp: u_def)
      with Cons.IH [of t l' "\<lparr>tokens = u, lastRefill = t\<rparr>"] Cons.prems(1,7) later \<open>0 \<le> u\<close> show ?thesis
        by simp
    qed
    ultimately have "of_nat (admitted rpm burst ip es l') + (if ok then 1 else 0) \<le> tokens b + elapsed_tokens rpm t0 t1"
      using elapsed_tokens_add [of rpm t0 t t1] by linarith
    with run True show ?thesis by (simp add: e split: if_splits)
  qed
qed

text \<open>The number of seconds in a rejection, in exact arithmetic.\<close>

lemma retry_after_exact:
  assumes "l ip = Some b" "0 < rpm" "refill exact now (of_int rpm / 60) burst b = t" "0 \<le> t" "t < 1"
  defines "c \<equiv> \<lceil>(1 - t) / (of_int rpm / 60)\<rceil>"
  shows "Allow exact big now ip rpm burst l = (l(ip \<mapsto> \<lparr>tokens = t, lastRefill = now\<rparr>), False, c)"
    and "1 - t \<le> of_int c * (of_int rpm / 60)" and "0 < c"
proof -
  have f: "(0::rat) < of_int rpm / 60" "(1 / 60::rat) \<le> of_int rpm / 60" using assms(2) by simp_all
  then have "0 < (1 - t) / (of_int rpm / 60)" using assms(5) by simp
  then show c0: "0 < c" unfolding c_def by simp
  have "(1 - t) / (of_int rpm / 60) \<le> of_int c" unfolding c_def by (rule le_of_int_ceiling)
  then show "1 - t \<le> of_int c * (of_int rpm / 60)" using f(1) by (simp add: pos_divide_le_eq)
  have "1 - t \<le> 60 * (of_int rpm / 60)" using f(2) assms(4) by simp
  then have "(1 - t) / (of_int rpm / 60) \<le> of_int 60" using f(1) by (simp add: pos_divide_le_eq)
  then have "c \<le> 60" unfolding c_def by (simp add: ceiling_le_iff)
  then have rng: "(of_int c :: rat) < 2 ^ 63" "- (2 ^ 63) \<le> (of_int c :: rat)" using c0 by simp_all
  have "float_to_int big (Some (of_int c)) = c"
    using rng c0 by (simp add: float_to_int_def)
  then show "Allow exact big now ip rpm burst l = (l(ip \<mapsto> \<lparr>tokens = t, lastRefill = now\<rparr>), False, c)"
    using assms(1,3,5) f(1) c0 by (auto simp: Allow_def Let_def c_def divide_le_0_iff)
qed

section \<open>Properties\<close>

text \<open>C16.  The rate limit, in exact arithmetic: over any sequence of requests of any clients, at
  non-decreasing instants between \<open>t0\<close> and \<open>t1\<close>, the number of admitted requests of an address
  that starts without a bucket is at most the burst plus the rate times the time between.\<close>

theorem rate_limit_bound:
  assumes "0 \<le> rpm" "1 \<le> burst" "sorted (map fst es)" "\<forall>t\<in>fst ` set es. t0 \<le> t \<and> t \<le> t1" "t0 \<le> t1"
    and "l ip = None"
  shows "of_nat (admitted rpm burst ip es l) \<le> of_int burst + of_int rpm / 60 * (of_int (t1 - t0) / of_int Second :: rat)"
proof -
  have "of_nat (admitted rpm burst ip es l) \<le> of_int burst + elapsed_tokens rpm t0 t1"
    using assms
  proof (induction es arbitrary: l)
    case Nil
    then show ?case using elapsed_tokens_mono [of rpm t0 t1 t0] by (simp add: elapsed_tokens_def)
  next
    case (Cons e es)
    obtain t a where e: "e = (t, a)" by (cases e)
    obtain l' ok n where run: "Allow exact 0 t a rpm burst l = (l', ok, n)"
      by (cases "Allow exact 0 t a rpm burst l") auto
    have later: "sorted (map fst es)" "\<forall>u\<in>fst ` set es. t \<le> u \<and> u \<le> t1" "t0 \<le> t" "t \<le> t1"
      "\<forall>u\<in>fst ` set es. t0 \<le> u \<and> u \<le> t1"
      using Cons.prems(3,4) by (auto simp: e)
    show ?case
    proof (cases "a = ip")
      case False
      then have "l' ip = None" using Allow_other [of ip a exact 0 t rpm burst l] run Cons.prems(6) by auto
      with Cons.IH [of l'] Cons.prems later run False show ?thesis by (simp add: e)
    next
      case True
      then have "ok" "l' ip = Some \<lparr>tokens = of_int burst - 1, lastRefill = t\<rparr>"
        using Allow_new [of l ip exact 0 t rpm burst] run Cons.prems(6) by auto
      with admitted_bucket [of rpm es t t1 l' ip _ burst] Cons.prems(1,2) later
      have "of_nat (admitted rpm burst ip es l') \<le> of_int burst - 1 + elapsed_tokens rpm t t1" by simp
      moreover have "elapsed_tokens rpm t t1 \<le> elapsed_tokens rpm t0 t1"
        using elapsed_tokens_add [of rpm t0 t t1] elapsed_tokens_mono [of rpm t0 t t0] Cons.prems(1) later(3)
        by (simp add: elapsed_tokens_def)
      ultimately show ?thesis using run True \<open>ok\<close> by (simp add: e)
    qed
  qed
  then show ?thesis by (simp add: elapsed_tokens_def per_second_def mult.commute)
qed

theorem rate_limit_bound_witness:
  "admitted 60 2 ''a'' [(0, ''a''), (0, ''b''), (0, ''a''), (0, ''a''), (Second, ''a'')] Map.empty \<le> 3"
proof -
  let ?es = "[(0, ''a''), (0, ''b''), (0, ''a''), (0, ''a''), (Second, ''a'')]"
  have "of_nat (admitted 60 2 ''a'' ?es Map.empty) \<le> (of_int 2 + of_int 60 / 60 * (of_int (Second - 0) / of_int Second) :: rat)"
    by (rule rate_limit_bound) (simp_all add: Second_def)
  then show ?thesis by (simp add: Second_def)
qed

text \<open>C17.  Whatever the rounding of the floating-point operations, with a positive burst and a
  non-negative rate \<open>Allow\<close> keeps every bucket between 0 and the burst, touches no other bucket,
  admits an address it does not know, and names a positive number of seconds when it rejects.  In
  exact arithmetic and with a positive rate a client that waits that long is admitted.\<close>

theorem Allow_correct:
  assumes "rounding rnd" and "1 \<le> burst" "burst \<le> 2 ^ 53" "0 \<le> rpm" and "buckets_inv burst l"
    and "\<forall>b. l ip = Some b \<longrightarrow> lastRefill b \<le> now"
  shows "buckets_inv burst (fst (Allow rnd big now ip rpm burst l)) \<and>
    (\<forall>ip'. ip' \<noteq> ip \<longrightarrow> fst (Allow rnd big now ip rpm burst l) ip' = l ip') \<and>
    (l ip = None \<longrightarrow> fst (snd (Allow rnd big now ip rpm burst l))) \<and>
    (\<not> fst (snd (Allow rnd big now ip rpm burst l)) \<longrightarrow> 1 \<le> snd (snd (Allow rnd big now ip rpm burst l))) \<and>
    (0 < rpm \<and> rpm < 2 ^ 53 \<longrightarrow> (case Allow exact big now ip rpm burst l of (l', allowed, n) \<Rightarrow>
       \<not> allowed \<longrightarrow> fst (snd (Allow exact big (now + n * Second) ip rpm burst l'))))"
proof (intro conjI allI impI)
  show "buckets_inv burst (fst (Allow rnd big now ip rpm burst l))"
    using assms by (intro buckets_inv_Allow) auto
  show "fst (Allow rnd big now ip rpm burst l) ip' = l ip'" if "ip' \<noteq> ip" for ip'
    using that by (rule Allow_other)
  show "fst (snd (Allow rnd big now ip rpm burst l))" if "l ip = None"
    using that by (simp add: Allow_new)
  show "1 \<le> snd (snd (Allow rnd big now ip rpm burst l))" if rej: "\<not> fst (snd (Allow rnd big now ip rpm burst l))"
  proof -
    obtain b where b: "l ip = Some b" using rej by (cases "l ip") (simp_all add: Allow_new)
    show ?thesis
      using rej Allow_allowed [of l ip b rnd now rpm burst big] Allow_rejected [of l ip b rnd now rpm burst big] b
      by (cases "1 \<le> refill rnd now (rnd (of_int rpm / 60)) burst b") auto
  qed
  assume rpm: "0 < rpm \<and> rpm < 2 ^ 53"
  obtain l' allowed n where run: "Allow exact big now ip rpm burst l = (l', allowed, n)"
    by (cases "Allow exact big now ip rpm burst l") auto
  have "fst (snd (Allow exact big (now + n * Second) ip rpm burst l'))" if rej: "\<not> allowed"
  proof -
    obtain b where b: "l ip = Some b" using run rej by (cases "l ip") (auto simp: Allow_new)
    define t where "t = refill exact now (of_int rpm / 60) burst b"
    have t1: "t < 1" using rej run Allow_allowed [of l ip b exact now rpm burst big] b
      by (cases "1 \<le> t") (auto simp: t_def)
    have "0 \<le> tokens b" "lastRefill b \<le> now" using assms(5,6) b by (auto simp: buckets_inv_def)
    then have t0: "0 \<le> t"
      using rpm assms(2) by (simp add: t_def refill_exact Second_def)
    have rpm0: "0 < rpm" using rpm by simp
    note ra = retry_after_exact [of l ip b rpm now burst t, OF b rpm0 t_def [symmetric] t0 t1]
    have n: "l' = l(ip \<mapsto> \<lparr>tokens = t, lastRefill = now\<rparr>)" "n = \<lceil>(1 - t) / (of_int rpm / 60)\<rceil>"
      using run ra(1) by simp_all
    have "1 \<le> refill exact (now + n * Second) (of_int rpm / 60) burst \<lparr>tokens = t, lastRefill = now\<rparr>"
      using ra(2) assms(2) by (simp add: refill_exact n(2) Second_def)
    then show ?thesis
      using Allow_allowed [of l' ip "\<lparr>tokens = t, lastRefill = now\<rparr>" exact "now + n * Second" rpm burst big]
      by (simp add: n(1))
  qed
  then show "case Allow exact big now ip rpm burst l of (l', allowed, n) \<Rightarrow>
       \<not> allowed \<longrightarrow> fst (snd (Allow exact big (now + n * Second) ip rpm burst l'))"
    by (simp add: run)
qed

theorem Allow_correct_witness:
  "let l = fst (Allow exact 0 0 ''a'' 60 1 Map.empty) in
   1 \<le> snd (snd (Allow exact 0 5 ''a'' 60 1 l)) \<and> \<not> fst (snd (Allow exact 0 5 ''a'' 60 1 l))"
proof -
  let ?l = "fst (Allow exact 0 0 ''a'' 60 1 Map.empty)"
  have l: "?l = [''a'' \<mapsto> \<lparr>tokens = 0, lastRefill = 0\<rparr>]" by (simp add: Allow_new)
  have inv: "buckets_inv 1 ?l" unfolding l by (simp add: buckets_inv_def)
  have ages: "\<forall>b. ?l ''a'' = Some b \<longrightarrow> lastRefill b \<le> 5" unfolding l by simp
  have rej: "\<not> fst (snd (Allow exact 0 5 ''a'' 60 1 ?l))"
    unfolding l by (simp add: Allow_def Let_def refill_exact Second_def)
  have "(1::int) \<le> 1" "(1::int) \<le> 2 ^ 53" "(0::int) \<le> 60" by simp_all
  from Allow_correct [OF rounding_exact this inv ages, of 0] rej show ?thesis unfolding Let_def by blast
qed

text \<open>The cleanup of stale buckets cannot be observed, in exact arithmetic, when the burst is at
  most ten minutes of the rate: an address whose bucket it removed is treated from then on exactly
  as if the bucket were still there.\<close>

theorem cleanup_unobservable:
  assumes "1 \<le> burst" "burst \<le> 10 * rpm" and "buckets_inv burst l" and "t \<le> now"
  shows "snd (Allow exact big now ip rpm burst (cleanupStaleBuckets t l)) = snd (Allow exact big now ip rpm burst l) \<and>
    fst (Allow exact big now ip rpm burst (cleanupStaleBuckets t l)) ip = fst (Allow exact big now ip rpm burst l) ip"
proof (cases "cleanupStaleBuckets t l ip = l ip")
  case True
  then show ?thesis by (simp add: Allow_def Let_def split: option.split)
next
  case False
  then obtain b where b: "l ip = Some b" "lastRefill b < t - 10 * Minute" "cleanupStaleBuckets t l ip = None"
    by (auto simp: cleanupStaleBuckets_def Let_def split: option.splits if_splits)
  have "of_int (10 * Minute) / of_int Second * (of_int rpm / 60) \<le>
      (of_int (now - lastRefill b) / of_int Second * (of_int rpm / 60) :: rat)"
    using b(2) assms(1,2,4) unfolding Second_def
    by (intro mult_right_mono divide_right_mono) simp_all
  then have "of_int (10 * rpm) \<le> (of_int (now - lastRefill b) / of_int Second * (of_int rpm / 60) :: rat)"
    by (simp add: Minute_def Second_def)
  moreover have "(of_int burst :: rat) \<le> of_int (10 * rpm)" using assms(2) by (simp only: of_int_le_iff)
  moreover have "0 \<le> tokens b" using assms(3) b(1) by (auto simp: buckets_inv_def)
  ultimately have "refill exact now (of_int rpm / 60) burst b = of_int burst"
    unfolding refill_exact by (intro min_absorb1) linarith
  moreover have "(1::rat) \<le> of_int burst" using assms(1) by simp
  ultimately show ?thesis
    using Allow_allowed [of l ip b exact now rpm burst big] Allow_new [of "cleanupStaleBuckets t l" ip exact big now rpm burst] b
    by simp
qed

theorem cleanup_unobservable_witness:
  "let l = [''a'' \<mapsto> \<lparr>tokens = 0, lastRefill = 0\<rparr>] in
   snd (Allow exact 0 (20 * Minute) ''a'' 60 30 (cleanupStaleBuckets (15 * Minute) l)) =
     snd (Allow exact 0 (20 * Minute) ''a'' 60 30 l)"
proof -
  have inv: "buckets_inv 30 [''a'' \<mapsto> \<lparr>tokens = 0, lastRefill = 0\<rparr>]" by (simp add: buckets_inv_def)
  have "(1::int) \<le> 30" "(30::int) \<le> 10 * 60" "15 * Minute \<le> 20 * Minute"
    by (simp_all add: Minute_def Second_def)
  from cleanup_unobservable [OF this(1,2) inv this(3)] show ?thesis unfolding Let_def by blast
qed

end
