(* ===== verification/Router.thy ===== *)
theory Router
  imports Relay_Handlers Rate_Limit
begin

text \<open>
  \<open>api/router.go\<close>: how a request goes through the middlewares and to its handler, as one step on
  the state of the server.  Matching a method and a path to a route is \<open>chi\<close>'s work: the route is a
  parameter (\<open>match\<close>), and so is the client address its \<open>RealIP\<close> middleware writes into the
  request.  \<open>RequestID\<close>, \<open>Recoverer\<close> and \<open>RequestLogger\<close> change nothing a handler reads.
\<close>

section \<open>The server\<close>

record Server =
  srv_store :: SQLiteStore
  srv_cache :: "RelayCache option"
  srv_limiter :: IPRateLimiter
  srv_metrics :: Metrics

text \<open>The routes \<open>NewRouter\<close> registers, with their URL parameters, and chi's own two answers.\<close>

datatype Route =
    R_Health | R_Info | R_Metrics
  | R_RegisterNode | R_NodeStatus string | R_GetNode string | R_DeleteNode string
  | R_VPNStatus | R_PutV1Relay string
  | R_GetRelays | R_PostRelay | R_PutRelay string | R_DeleteRelay string
  | R_NotFound | R_MethodNotAllowed

definition protected :: "Route \<Rightarrow> bool" where
  "protected rt \<longleftrightarrow> rt \<notin> {R_Health, R_Info, R_Metrics, R_NotFound, R_MethodNotAllowed}"

text \<open>
  Everything outside the server that one request meets: the driver's faults, the clock (\<open>clk 0\<close>
  and up for the handler, \<open>limiter_now\<close> for the rate limiter, \<open>latency\<close> for the duration of the whole request), randomness, the decoders, the VPN
  APIs, \<open>time.Parse\<close>, chi, and the floating-point parameters.
\<close>

record World =
  wf_faults :: faults
  wf_clk :: "nat \<Rightarrow> time"
  limiter_now :: time
  latency :: duration
  rand_bytes :: "string option"
  wf_json :: JSON
  wf_vpn :: vpn_world
  time_parse :: "string \<Rightarrow> time option"
  match :: "string \<Rightarrow> string \<Rightarrow> Route"
  real_ip :: "Request \<Rightarrow> string"
  float_round :: "rat \<Rightarrow> rat"
  float_big :: int

text \<open>What \<open>NewRouter\<close> is given and keeps: the configuration, the start time, the provider, and
  whether there is a rate limiter.\<close>

record Setup =
  su_cfg :: Config
  su_startTime :: time
  su_vpn :: "VPNProvider option"
  su_limited :: bool

definition NewRouter :: "Setup \<Rightarrow> SQLiteStore \<Rightarrow> Server" where
  "NewRouter S st =
     \<lparr>srv_store = st, srv_cache = Some (NewRelayCache (DiscoveryCacheTTLSeconds (cfg_Registry (su_cfg S)))),
      srv_limiter = NewIPRateLimiter, srv_metrics = initial_metrics\<rparr>"

section \<open>Dispatch\<close>

definition with_store :: "Server \<Rightarrow> SQLiteStore \<times> Response \<Rightarrow> Server \<times> Response" where
  "with_store s x = (s\<lparr>srv_store := fst x\<rparr>, snd x)"

definition with_relays :: "Server \<Rightarrow> (SQLiteStore \<times> RelayCache option) \<times> Response \<Rightarrow> Server \<times> Response" where
  "with_relays s x = (s\<lparr>srv_store := fst (fst x), srv_cache := snd (fst x)\<rparr>, snd x)"

definition plain_response :: "int \<Rightarrow> Body \<Rightarrow> Response" where
  "plain_response code b = \<lparr>Status = code, ContentTypeJSON = False, RetryAfter = None, ResponseBody = b\<rparr>"

fun handle :: "Setup \<Rightarrow> World \<Rightarrow> Request \<Rightarrow> Route \<Rightarrow> Server \<Rightarrow> Server \<times> Response" where
  "handle S W r R_Health s = (s, HealthHandler (wf_faults W) (srv_store s))"
| "handle S W r R_Info s = (s, InfoHandler (su_cfg S) (su_startTime S) (wf_clk W 0))"
| "handle S W r R_Metrics s = (s, plain_response 200 MetricsBody)"
| "handle S W r R_RegisterNode s =
     (case RegisterNodeHandler (wf_faults W) (wf_clk W) (rand_bytes W) (wf_json W) (wf_vpn W) (su_cfg S) (su_vpn S) r
            (srv_store s, srv_metrics s) of
        ((st, m), resp) \<Rightarrow> (s\<lparr>srv_store := st, srv_metrics := m\<rparr>, resp))"
| "handle S W r (R_NodeStatus i) s =
     (s, GetNodeStatusHandler (wf_faults W) (wf_clk W) (su_cfg S) r i (srv_store s))"
| "handle S W r (R_GetNode i) s = (s, GetNodeHandler (wf_faults W) i (srv_store s))"
| "handle S W r (R_DeleteNode i) s = with_store s (DeleteNodeHandler (wf_faults W) (wf_clk W) i (srv_store s))"
| "handle S W r R_VPNStatus s =
     (case GetVPNStatusHandler (wf_vpn W) (su_vpn S) (srv_metrics s) of (m, resp) \<Rightarrow> (s\<lparr>srv_metrics := m\<rparr>, resp))"
| "handle S W r (R_PutV1Relay i) s =
     with_relays s (PutV1RelayHeartbeatHandler (wf_faults W) (wf_clk W) (wf_json W) (su_cfg S) r i
        (srv_store s, srv_cache s))"
| "handle S W r R_GetRelays s =
     (case GetRelaysHandler (wf_faults W) (wf_clk W) (time_parse W) (su_cfg S) r (srv_store s) (srv_cache s) of
        (cache, resp) \<Rightarrow> (s\<lparr>srv_cache := cache\<rparr>, resp))"
| "handle S W r R_PostRelay s =
     with_relays s (RegisterRelayHandler (wf_faults W) (wf_clk W) (wf_json W) r (srv_store s, srv_cache s))"
| "handle S W r (R_PutRelay i) s =
     with_relays s (HeartbeatRelayHandler (wf_faults W) (wf_clk W) (wf_json W) r i (srv_store s, srv_cache s))"
| "handle S W r (R_DeleteRelay i) s =
     with_relays s (DeleteRelayHandler (wf_faults W) i (srv_store s, srv_cache s))"
| "handle S W r R_NotFound s = (s, plain_response 404 PlainBody)"
| "handle S W r R_MethodNotAllowed s = (s, plain_response 405 NoBody)"

text \<open>The group of protected routes puts \<open>AuthMiddleware\<close> in front of the handlers.\<close>

definition dispatch :: "Setup \<Rightarrow> World \<Rightarrow> Request \<Rightarrow> Server \<Rightarrow> Server \<times> Response" where
  "dispatch S W r s =
     (let rt = match W (Method r) (URLPath r) in
      if protected rt then
        (case AuthMiddleware (su_cfg S) r (srv_metrics s) of
           (m, Some resp) \<Rightarrow> (s\<lparr>srv_metrics := m\<rparr>, resp)
         | (m, None) \<Rightarrow> handle S W r rt (s\<lparr>srv_metrics := m\<rparr>))
      else handle S W r rt s)"

definition rate_limited :: "Setup \<Rightarrow> World \<Rightarrow> Request \<Rightarrow> Server \<Rightarrow> Server \<times> Response" where
  "rate_limited S W r s =
     (if su_limited S then
        (case RateLimitMiddleware (float_round W) (float_big W) (limiter_now W) (su_cfg S) r
                (srv_limiter s, srv_metrics s) of
           ((l, m), Some resp) \<Rightarrow> (s\<lparr>srv_limiter := l, srv_metrics := m\<rparr>, resp)
         | ((l, m), None) \<Rightarrow> dispatch S W r (s\<lparr>srv_limiter := l, srv_metrics := m\<rparr>))
      else dispatch S W r s)"

definition ServeHTTP :: "Setup \<Rightarrow> World \<Rightarrow> Request \<Rightarrow> Server \<Rightarrow> Server \<times> Response" where
  "ServeHTTP S W r0 s =
     (let r = r0\<lparr>RemoteAddr := real_ip W r0\<rparr>;
          (s', resp) = rate_limited S W r s
      in (s'\<lparr>srv_metrics := MetricsMiddleware (Method r) (URLPath r) (Status resp) (latency W) (srv_metrics s')\<rparr>, resp))"

section \<open>Lemmas\<close>

text \<open>What a request does to the store and the cache: nothing, or what its handler does.\<close>

lemma ServeHTTP_cases:
  assumes "ServeHTTP S W r s = (s', resp)"
  obtains (blocked) "srv_store s' = srv_store s" "srv_cache s' = srv_cache s" "400 \<le> Status resp"
  | (handled) q s0 s1 where "q = r\<lparr>RemoteAddr := real_ip W r\<rparr>"
      "srv_store s0 = srv_store s" "srv_cache s0 = srv_cache s"
      "handle S W q (match W (Method r) (URLPath r)) s0 = (s1, resp)"
      "srv_store s' = srv_store s1" "srv_cache s' = srv_cache s1"
proof -
  let ?q = "r\<lparr>RemoteAddr := real_ip W r\<rparr>"
  have disp: "(srv_store s1 = srv_store s0 \<and> srv_cache s1 = srv_cache s0 \<and> 400 \<le> Status resp1) \<or>
      (\<exists>s2. srv_store s2 = srv_store s0 \<and> srv_cache s2 = srv_cache s0 \<and>
         handle S W ?q (match W (Method r) (URLPath r)) s2 = (s1, resp1))"
    if "dispatch S W ?q s0 = (s1, resp1)" for s0 s1 resp1
  proof (cases "protected (match W (Method r) (URLPath r))")
    case False
    with that show ?thesis by (auto simp: dispatch_def Let_def)
  next
    case True
    obtain m x where am: "AuthMiddleware (su_cfg S) ?q (srv_metrics s0) = (m, x)" by (cases "AuthMiddleware (su_cfg S) ?q (srv_metrics s0)")
    show ?thesis
    proof (cases x)
      case None
      with that True am show ?thesis
        by (intro disjI2 exI [of _ "s0\<lparr>srv_metrics := m\<rparr>"]) (simp add: dispatch_def Let_def)
    next
      case (Some a)
      then have "Status a = 401"
        using am by (auto simp: AuthMiddleware_def Let_def writeUnauthorized_def split: if_splits option.splits)
      with that True am Some show ?thesis by (auto simp: dispatch_def Let_def)
    qed
  qed
  obtain s1 where rl: "rate_limited S W ?q s = (s1, resp)" and s': "srv_store s' = srv_store s1" "srv_cache s' = srv_cache s1"
    using assms by (auto simp: ServeHTTP_def Let_def split: prod.splits)
  have "(srv_store s1 = srv_store s \<and> srv_cache s1 = srv_cache s \<and> 400 \<le> Status resp) \<or>
      (\<exists>s2. srv_store s2 = srv_store s \<and> srv_cache s2 = srv_cache s \<and>
         handle S W ?q (match W (Method r) (URLPath r)) s2 = (s1, resp))"
  proof (cases "su_limited S")
    case False
    with rl disp show ?thesis by (simp add: rate_limited_def)
  next
    case True
    obtain l m x where rm: "RateLimitMiddleware (float_round W) (float_big W) (limiter_now W) (su_cfg S) ?q
        (srv_limiter s, srv_metrics s) = ((l, m), x)"
      by (metis prod.collapse)
    show ?thesis
    proof (cases x)
      case None
      with rl True rm disp [of "s\<lparr>srv_limiter := l, srv_metrics := m\<rparr>"] show ?thesis
        by (simp add: rate_limited_def)
    next
      case (Some a)
      then have "Status a = 429"
        using rm by (auto simp: RateLimitMiddleware_def writeTooManyRequests_def Let_def split: if_splits prod.splits)
      with rl True rm Some show ?thesis by (auto simp: rate_limited_def)
    qed
  qed
  with s' blocked handled [OF refl] show thesis by auto
qed

section \<open>What the handlers do to the database\<close>

text \<open>The invariant of the database: both tables are well formed, and every relay belongs to a row
  of the \<open>nodes\<close> table (the foreign key of the schema, which SQLite does not enforce here).\<close>

definition db_inv :: "SQLiteStore \<Rightarrow> bool" where
  "db_inv st \<longleftrightarrow> nodes_inv (st_nodes st) \<and> relays_inv (st_relays st) \<and>
     Relay_NodeID ` set (st_relays st) \<subseteq> Node_ID ` set (st_nodes st)"

lemma relay_ids_upsert_row:
  "Relay_NodeID ` set (upsert_row new rs) = insert (Relay_NodeID new) (Relay_NodeID ` set rs)"
proof (cases "Relay_NodeID new \<in> Relay_NodeID ` set rs")
  case True
  then have "map Relay_NodeID (upsert_row new rs) = map Relay_NodeID rs"
    by (simp add: upsert_row_def update_where_def)
  then have "Relay_NodeID ` set (upsert_row new rs) = Relay_NodeID ` set rs" by (metis list.set_map)
  with True show ?thesis by auto
qed (auto simp: upsert_row_def)

lemma exec_update_ids: "(\<And>r. k (f r) = k r) \<Longrightarrow> k ` set (fst (exec_update F q p f rs)) = k ` set rs"
  using exec_update_keys [of F q p f rs "fst (exec_update F q p f rs)" "snd (exec_update F q p f rs)" k]
  by (metis list.set_map surjective_pairing)

lemma exec_delete_ids: "k ` set (fst (exec_delete F q p rs)) \<subseteq> k ` set rs"
  by (auto simp: exec_delete_def)

lemma relay_ids_ops [simp]:
  "Relay_NodeID ` set (st_relays (fst (UpdateRelayHeartbeat F t i gb st))) = Relay_NodeID ` set (st_relays st)"
  "Relay_NodeID ` set (st_relays (fst (UpdateRelayFull F t r st))) = Relay_NodeID ` set (st_relays st)"
  "Relay_NodeID ` set (st_relays (fst (DeleteRelay F i st))) \<subseteq> Relay_NodeID ` set (st_relays st)"
  by (simp_all add: UpdateRelayHeartbeat_def UpdateRelayFull_def DeleteRelay_def Let_def case_prod_unfold
      exec_update_ids exec_delete_ids split: option.split)

lemma relay_ids_UpsertRelay:
  "Relay_NodeID ` set (st_relays (fst (UpsertRelay F t r st))) \<subseteq> insert (Relay_NodeID r) (Relay_NodeID ` set (st_relays st))"
  by (simp add: UpsertRelay_def Let_def relay_ids_upsert_row subset_insertI)

lemma relay_ids_Cleanup:
  "Relay_NodeID ` set (st_relays (fst (mark_stale F t w st))) = Relay_NodeID ` set (st_relays st)"
  "Relay_NodeID ` set (st_relays (fst (delete_expired F t w st))) \<subseteq> Relay_NodeID ` set (st_relays st)"
  by (simp_all add: mark_stale_def delete_expired_def Let_def case_prod_unfold exec_update_ids exec_delete_ids)

lemma node_ids_ops [simp]:
  "Node_ID ` set (st_nodes (fst (DeleteNode F t i st))) = Node_ID ` set (st_nodes st)"
  "Node_ID ` set (st_nodes (fst (CleanupInactiveNodes F t now h st))) = Node_ID ` set (st_nodes st)"
  "Node_ID ` set (st_nodes st) \<subseteq> Node_ID ` set (st_nodes (fst (CreateNode F t n st)))"
  by (auto simp: DeleteNode_def CleanupInactiveNodes_def CreateNode_def Let_def case_prod_unfold
      exec_update_ids)

lemma other_table [simp]:
  "st_relays (fst (DeleteNode F t i st)) = st_relays st" "st_relays (fst (CreateNode F t n st)) = st_relays st"
  "st_relays (fst (CleanupInactiveNodes F t now h st)) = st_relays st"
  "st_nodes (fst (UpsertRelay F t r st)) = st_nodes st" "st_nodes (fst (UpdateRelayHeartbeat F t i gb st)) = st_nodes st"
  "st_nodes (fst (UpdateRelayFull F t r st)) = st_nodes st" "st_nodes (fst (DeleteRelay F i st)) = st_nodes st"
  "st_nodes (fst (CleanupStaleRelays F t ttl st)) = st_nodes st"
  "st_nodes (fst (mark_stale F t w st)) = st_nodes st" "st_nodes (fst (delete_expired F t w st)) = st_nodes st"
  by (simp_all add: store_defs DeleteNode_def CreateNode_def CleanupInactiveNodes_def Let_def case_prod_unfold)

lemma db_inv_step:
  assumes "db_inv st" "nodes_inv (st_nodes st')" "relays_inv (st_relays st')"
    and "Node_ID ` set (st_nodes st) \<subseteq> Node_ID ` set (st_nodes st')"
    and "Relay_NodeID ` set (st_relays st') \<subseteq> Relay_NodeID ` set (st_relays st) \<union> Node_ID ` set (st_nodes st)"
  shows "db_inv st'"
proof -
  have chain: "A \<subseteq> N \<Longrightarrow> N \<subseteq> N' \<Longrightarrow> A' \<subseteq> A \<union> N \<Longrightarrow> A' \<subseteq> N'" for A A' N N' :: "string set"
    by blast
  show ?thesis
    using assms chain [of _ "Node_ID ` set (st_nodes st)" "Node_ID ` set (st_nodes st')"]
    unfolding db_inv_def by metis
qed

lemma db_invD:
  "db_inv st \<Longrightarrow> nodes_inv (st_nodes st)" "db_inv st \<Longrightarrow> relays_inv (st_relays st)"
  "db_inv st \<Longrightarrow> Relay_NodeID ` set (st_relays st) \<subseteq> Node_ID ` set (st_nodes st)"
  unfolding db_inv_def by blast+

lemma db_inv_ops [inv_intros]:
  "db_inv st \<Longrightarrow> db_inv (fst (DeleteNode F t i st))"
  "db_inv st \<Longrightarrow> Node_DeletedAt n = None \<Longrightarrow> db_inv (fst (CreateNode F t n st))"
  "db_inv st \<Longrightarrow> db_inv (fst (CleanupInactiveNodes F t now h st))"
  "db_inv st \<Longrightarrow> Relay_NodeID r \<in> Node_ID ` set (st_nodes st) \<Longrightarrow> db_inv (fst (UpsertRelay F t r st))"
  "db_inv st \<Longrightarrow> db_inv (fst (UpdateRelayHeartbeat F t i gb st))"
  "db_inv st \<Longrightarrow> db_inv (fst (UpdateRelayFull F t r st))"
  "db_inv st \<Longrightarrow> db_inv (fst (DeleteRelay F i st))"
  "db_inv st \<Longrightarrow> db_inv (fst (mark_stale F t w st))"
  "db_inv st \<Longrightarrow> db_inv (fst (delete_expired F t w st))"
proof -
  assume inv: "db_inv st"
  note step = db_inv_step [OF inv] and tabs = db_invD [OF inv]
  show "db_inv (fst (DeleteNode F t i st))" by (rule step) (auto intro: inv_intros tabs)
  show "db_inv (fst (CreateNode F t n st))" if "Node_DeletedAt n = None"
    using that node_ids_ops(3) by (intro step) (auto simp del: node_ids_ops intro: inv_intros tabs)
  show "db_inv (fst (CleanupInactiveNodes F t now h st))" by (rule step) (auto intro: inv_intros tabs)
  show "db_inv (fst (UpsertRelay F t r st))" if "Relay_NodeID r \<in> Node_ID ` set (st_nodes st)"
  proof (rule step)
    have "X \<subseteq> insert i A \<Longrightarrow> i \<in> N \<Longrightarrow> X \<subseteq> A \<union> N" for X A N :: "string set" and i by blast
    then show "Relay_NodeID ` set (st_relays (fst (UpsertRelay F t r st))) \<subseteq>
        Relay_NodeID ` set (st_relays st) \<union> Node_ID ` set (st_nodes st)"
      using relay_ids_UpsertRelay [of F t r st] that by metis
  qed (simp_all add: inv_intros tabs)
  show "db_inv (fst (UpdateRelayHeartbeat F t i gb st))" by (rule step) (auto intro: inv_intros tabs)
  show "db_inv (fst (UpdateRelayFull F t r st))" by (rule step) (auto intro: inv_intros tabs)
  show "db_inv (fst (DeleteRelay F i st))"
    by (rule step) (use relay_ids_ops(3) [of F i st] in \<open>simp_all add: inv_intros tabs le_supI1\<close>)
  show "db_inv (fst (mark_stale F t w st))"
    by (rule step) (use relay_ids_Cleanup(1) [of F t w st] in \<open>simp_all add: inv_intros tabs\<close>)
  show "db_inv (fst (delete_expired F t w st))"
    by (rule step) (use relay_ids_Cleanup(2) [of F t w st] in \<open>simp_all add: inv_intros tabs le_supI1\<close>)
qed

lemma db_inv_CleanupStaleRelays [inv_intros]: "db_inv st \<Longrightarrow> db_inv (fst (CleanupStaleRelays F t ttl st))"
  by (simp add: fst_CleanupStaleRelays Let_def inv_intros)

lemma db_inv_announced [inv_intros]:
  "db_inv st \<Longrightarrow> n \<in> set (st_nodes st) \<Longrightarrow> db_inv (fst (UpsertRelay F t (announced_relay u req n) st))"
  by (rule db_inv_ops(4)) (simp_all add: announced_relay_def)

text \<open>One handler, as a relation on the database: what each of them can do.\<close>

lemma new_node_DeletedAt [simp]: "Node_DeletedAt (new_node clk i h req) = None"
  by (simp add: new_node_def)

lemma RegisterNodeHandler_store:
  assumes "RegisterNodeHandler F clk rnd J W cfg vpn r (st, m) = ((st', m'), resp)"
  shows "st' = st \<or> Status resp < 400 \<and> (\<exists>n. Node_DeletedAt n = None \<and> st' = fst (CreateNode F (clk 2) n st))"
proof -
  obtain ok req where dec: "decode_register_node J (RequestBody r) = (ok, req)"
    by (cases "decode_register_node J (RequestBody r)") auto
  let ?h = "HashAuthKey (rn_AuthKey req) (HMACSecret (cfg_Auth cfg))"
  let ?n = "new_node clk (GenerateNodeID rnd) ?h req"
  obtain st1 e n where cr: "CreateNode F (clk 2) ?n st = (st1, e, n)" by (cases "CreateNode F (clk 2) ?n st") auto
  have st1: "st1 = fst (CreateNode F (clk 2) ?n st)" by (simp add: cr)
  show ?thesis
  proof (cases "st' = st")
    case False
    with assms have "e = None" "st' = st1" "sendRegisterResponse W r n 201 cfg vpn m = (m', resp)"
      using error_keeps_store(6) [of F "clk 2" ?n st st1 _ n]
      by (auto simp: RegisterNodeHandler_def Let_def dec cr split: if_splits sum.splits option.splits prod.splits)
    with sendRegisterResponse_resp [of W r n 201 cfg vpn m] st1 show ?thesis
      by (auto intro!: exI [of _ ?n])
  qed simp
qed

text \<open>
  The outcome of a handler that changes a relay: an error answer, with the database as before
  (or changed all the same when \<open>RowsAffected\<close> failed) and the cache as before; or success,
  with the database \<open>st1\<close> and the cache dropped.
\<close>

definition relay_outcome ::
  "faults \<Rightarrow> SQLiteStore \<Rightarrow> RelayCache option \<Rightarrow> SQLiteStore \<Rightarrow> (SQLiteStore \<times> RelayCache option) \<times> Response \<Rightarrow> bool" where
  "relay_outcome F st cache st1 x \<longleftrightarrow> (case x of ((st', cache'), resp) \<Rightarrow>
     400 \<le> Status resp \<and> cache' = cache \<and> (st' = st \<or> st' = st1 \<and> \<not> counts_rows F) \<or>
     Status resp < 400 \<and> st' = st1 \<and> cache' = map_option Invalidate cache)"

lemma error_unchanged_or:
  "DeleteRelay F i st = (st', Some e) \<Longrightarrow> st' = st \<or> \<not> counts_rows F"
  "UpdateRelayHeartbeat F t i gb st = (st', Some e) \<Longrightarrow> st' = st \<or> \<not> counts_rows F"
  "UpdateRelayFull F t r st = (st', Some e, r') \<Longrightarrow> st' = st \<or> \<not> counts_rows F"
  using error_keeps_store counts_rowsD by metis+

lemma DeleteRelayHandler_outcome:
  "relay_outcome F st cache (fst (DeleteRelay F i st)) (DeleteRelayHandler F i (st, cache))"
proof -
  obtain st1 e where op: "DeleteRelay F i st = (st1, e)" by (cases "DeleteRelay F i st")
  show ?thesis
    using error_unchanged_or(1) [of F i st st1]
    by (cases e) (auto simp: relay_outcome_def DeleteRelayHandler_def op)
qed

lemma HeartbeatRelayHandler_outcome:
  "\<exists>gb. relay_outcome F st cache (fst (UpdateRelayHeartbeat F (clk 0) i gb st))
     (HeartbeatRelayHandler F clk J r i (st, cache))"
proof -
  let ?gb = "if ContentLength r > 0 then hb_AvailableGB (snd (decode_heartbeat J (RequestBody r))) else None"
  obtain st1 e where op: "UpdateRelayHeartbeat F (clk 0) i ?gb st = (st1, e)"
    by (cases "UpdateRelayHeartbeat F (clk 0) i ?gb st")
  show ?thesis
    using error_unchanged_or(2) [OF op [THEN trans]]
    by (intro exI [of _ ?gb], cases e) (auto simp: relay_outcome_def HeartbeatRelayHandler_def op Let_def)
qed

lemma PutV1RelayHeartbeatHandler_outcome:
  assumes "decode_heartbeat_v1 J (RequestBody r) = (ok, req)"
  shows "relay_outcome F st cache st (PutV1RelayHeartbeatHandler F clk J cfg r i (st, cache)) \<and>
     400 \<le> Status (snd (PutV1RelayHeartbeatHandler F clk J cfg r i (st, cache))) \<or>
   (\<exists>old. authorizeNodeOwnership F cfg r i st \<and> check_heartbeat_v1 req = None \<and>
      GetRelayByNodeID F i st = Inr old \<and>
      relay_outcome F st cache (fst (UpdateRelayFull F (clk 1) (heartbeat_relay (clk 0) req old) st))
        (PutV1RelayHeartbeatHandler F clk J cfg r i (st, cache)))"
proof (cases "i = [] \<or> \<not> authorizeNodeOwnership F cfg r i st \<or> \<not> ok \<or> check_heartbeat_v1 req \<noteq> None")
  case True
  then show ?thesis
    by (auto simp: relay_outcome_def PutV1RelayHeartbeatHandler_def assms dest: check_heartbeat_v1_400
        split: option.split)
next
  case False
  show ?thesis
  proof (cases "GetRelayByNodeID F i st")
    case (Inl e)
    with False show ?thesis by (auto simp: relay_outcome_def PutV1RelayHeartbeatHandler_def assms)
  next
    case (Inr old)
    let ?relay = "heartbeat_relay (clk 0) req old"
    obtain st1 e relay' where op: "UpdateRelayFull F (clk 1) ?relay st = (st1, e, relay')"
      by (cases "UpdateRelayFull F (clk 1) ?relay st") auto
    from False Inr op show ?thesis
      using error_unchanged_or(3) [of F "clk 1" ?relay st st1 _ relay']
      by (cases e) (auto simp: relay_outcome_def PutV1RelayHeartbeatHandler_def assms)
  qed
qed

lemma RegisterRelayHandler_outcome:
  assumes "decode_register_relay J (RequestBody r) = (ok, req)"
  shows "relay_outcome F st cache st (RegisterRelayHandler F clk J r (st, cache)) \<and>
     400 \<le> Status (snd (RegisterRelayHandler F clk J r (st, cache))) \<or>
   (\<exists>n\<in>set (st_nodes st). live n \<and> Node_ID n = rr_NodeID req \<and> check_register_relay req = None \<and>
      (Status (snd (RegisterRelayHandler F clk J r (st, cache))) = 201 \<and> \<not> F (Exec Q_UpsertRelay) \<or>
       Status (snd (RegisterRelayHandler F clk J r (st, cache))) = 500) \<and>
      relay_outcome F st cache (fst (UpsertRelay F (clk 1) (announced_relay (clk 0) req n) st))
        (RegisterRelayHandler F clk J r (st, cache)))"
proof (cases "\<not> ok \<or> check_register_relay req \<noteq> None")
  case True
  then show ?thesis
    by (auto simp: relay_outcome_def RegisterRelayHandler_def assms dest: check_register_relay_400
        split: option.split)
next
  case False
  show ?thesis
  proof (cases "GetNodeByID F (rr_NodeID req) st")
    case (Inl e)
    with False show ?thesis by (auto simp: relay_outcome_def RegisterRelayHandler_def assms)
  next
    case (Inr n)
    obtain st1 e relay' where op: "UpsertRelay F (clk 1) (announced_relay (clk 0) req n) st = (st1, e, relay')"
      by (cases "UpsertRelay F (clk 1) (announced_relay (clk 0) req n) st") auto
    moreover have "e = None \<Longrightarrow> \<not> F (Exec Q_UpsertRelay)"
      using op by (auto simp: UpsertRelay_def Let_def)
    ultimately show ?thesis
      using False Inr error_keeps_store(5) [of F "clk 1" _ st st1 _ relay'] GetNodeByID_InrD [OF Inr]
      by (cases e) (auto simp: relay_outcome_def RegisterRelayHandler_def assms)
  qed
qed

lemma GetRelaysHandler_error:
  assumes "GetRelaysHandler F clk tp cfg r st cache = (cache', resp)" "400 \<le> Status resp"
  shows "cache' = cache"
  using assms
  by (auto simp: GetRelaysHandler_def GetRelays_finish_def relays_response_def
      split: relays_phase.splits sum.splits prod.splits)

lemma DeleteNodeHandler_outcome:
  assumes "DeleteNodeHandler F clk i st = (st', resp)"
  shows "st' = st \<or> st' = fst (DeleteNode F (clk 0) i st) \<and> (Status resp = 204 \<or> \<not> counts_rows F)"
proof -
  obtain st1 e where op: "DeleteNode F (clk 0) i st = (st1, e)" by (cases "DeleteNode F (clk 0) i st")
  show ?thesis
    using assms error_keeps_store(1) [of F "clk 0" i st st1] counts_rowsD [of F Q_DeleteNode]
    by (cases e) (auto simp: DeleteNodeHandler_def op split: if_splits)
qed

text \<open>The three things a routed request can do to the database and the cache.\<close>

definition node_effect :: "faults \<Rightarrow> Server \<Rightarrow> Server \<Rightarrow> Response \<Rightarrow> bool" where
  "node_effect F s s1 resp \<longleftrightarrow>
     srv_cache s1 = srv_cache s \<and> st_relays (srv_store s1) = st_relays (srv_store s) \<and>
     (srv_store s1 = srv_store s \<or> Status resp < 400 \<or> \<not> counts_rows F) \<and>
     (db_inv (srv_store s) \<longrightarrow> db_inv (srv_store s1))"

definition relay_effect :: "faults \<Rightarrow> Server \<Rightarrow> Server \<Rightarrow> Response \<Rightarrow> bool" where
  "relay_effect F s s1 resp \<longleftrightarrow>
     (\<exists>st1. relay_outcome F (srv_store s) (srv_cache s) st1 ((srv_store s1, srv_cache s1), resp) \<and>
        st_nodes st1 = st_nodes (srv_store s) \<and> (db_inv (srv_store s) \<longrightarrow> db_inv st1))"

lemma node_effect_same: "srv_store s1 = srv_store s \<Longrightarrow> srv_cache s1 = srv_cache s \<Longrightarrow> node_effect F s s1 resp"
  by (simp add: node_effect_def)

lemma relay_effect_with:
  assumes "with_relays s x = (s1, resp)" "relay_outcome F (srv_store s) (srv_cache s) st1 x"
    and "st_nodes st1 = st_nodes (srv_store s)" "db_inv (srv_store s) \<Longrightarrow> db_inv st1"
  shows "relay_effect F s s1 resp"
proof -
  from assms(1) have "x = ((srv_store s1, srv_cache s1), resp)"
    by (cases x) (auto simp: with_relays_def)
  with assms(2-4) show ?thesis by (auto simp: relay_effect_def)
qed

lemma handle_effect:
  assumes "handle S W q rt s = (s1, resp)"
  shows "node_effect (wf_faults W) s s1 resp \<or> relay_effect (wf_faults W) s s1 resp \<or>
    srv_store s1 = srv_store s \<and>
      GetRelaysHandler (wf_faults W) (wf_clk W) (time_parse W) (su_cfg S) q (srv_store s) (srv_cache s) = (srv_cache s1, resp)"
proof (cases rt)
  case R_RegisterNode
  obtain st' m' where run: "RegisterNodeHandler (wf_faults W) (wf_clk W) (rand_bytes W) (wf_json W) (wf_vpn W)
      (su_cfg S) (su_vpn S) q (srv_store s, srv_metrics s) = ((st', m'), resp)" and "s1 = s\<lparr>srv_store := st', srv_metrics := m'\<rparr>"
    using assms R_RegisterNode by (auto split: prod.splits)
  with RegisterNodeHandler_store [OF run] have "node_effect (wf_faults W) s s1 resp"
    by (auto simp: node_effect_def intro: inv_intros)
  then show ?thesis ..
next
  case (R_DeleteNode i)
  obtain st' where run: "DeleteNodeHandler (wf_faults W) (wf_clk W) i (srv_store s) = (st', resp)"
      and "s1 = s\<lparr>srv_store := st'\<rparr>"
    using assms R_DeleteNode
    by (cases "DeleteNodeHandler (wf_faults W) (wf_clk W) i (srv_store s)") (auto simp: with_store_def)
  with DeleteNodeHandler_outcome [OF run] have "node_effect (wf_faults W) s s1 resp"
    by (auto simp: node_effect_def intro: inv_intros)
  then show ?thesis ..
next
  case (R_PutV1Relay i)
  let ?x = "PutV1RelayHeartbeatHandler (wf_faults W) (wf_clk W) (wf_json W) (su_cfg S) q i (srv_store s, srv_cache s)"
  have "with_relays s ?x = (s1, resp)" using assms R_PutV1Relay by simp
  note eff = relay_effect_with [OF this]
  from PutV1RelayHeartbeatHandler_outcome [of "wf_json W" q, OF surjective_pairing, of "wf_faults W" "srv_store s" "srv_cache s" "wf_clk W" "su_cfg S" i]
  have "relay_effect (wf_faults W) s s1 resp"
    by (elim disjE conjE exE bexE) (erule eff; simp add: inv_intros)+
  then show ?thesis by blast
next
  case R_PostRelay
  obtain ok req where dec: "decode_register_relay (wf_json W) (RequestBody q) = (ok, req)"
    by (cases "decode_register_relay (wf_json W) (RequestBody q)") auto
  let ?x = "RegisterRelayHandler (wf_faults W) (wf_clk W) (wf_json W) q (srv_store s, srv_cache s)"
  have "with_relays s ?x = (s1, resp)" using assms R_PostRelay by simp
  note eff = relay_effect_with [OF this]
  from RegisterRelayHandler_outcome [of "wf_json W" q, OF dec, of "wf_faults W" "srv_store s" "srv_cache s" "wf_clk W"]
  have "relay_effect (wf_faults W) s s1 resp"
    by (elim disjE conjE exE bexE) (erule eff; simp add: inv_intros)+
  then show ?thesis by blast
next
  case (R_PutRelay i)
  let ?x = "HeartbeatRelayHandler (wf_faults W) (wf_clk W) (wf_json W) q i (srv_store s, srv_cache s)"
  have "with_relays s ?x = (s1, resp)" using assms R_PutRelay by simp
  note eff = relay_effect_with [OF this]
  from HeartbeatRelayHandler_outcome [of "wf_faults W" "srv_store s" "srv_cache s" "wf_clk W" i "wf_json W" q]
  have "relay_effect (wf_faults W) s s1 resp"
    by (elim disjE conjE exE bexE) (erule eff; simp add: inv_intros)
  then show ?thesis by blast
next
  case (R_DeleteRelay i)
  let ?x = "DeleteRelayHandler (wf_faults W) i (srv_store s, srv_cache s)"
  have "with_relays s ?x = (s1, resp)" using assms R_DeleteRelay by simp
  note eff = relay_effect_with [OF this]
  from DeleteRelayHandler_outcome [of "wf_faults W" "srv_store s" "srv_cache s" i]
  have "relay_effect (wf_faults W) s s1 resp"
    by (rule eff) (simp_all add: inv_intros)
  then show ?thesis by blast
qed (use assms in \<open>auto split: prod.splits intro: node_effect_same\<close>)

section \<open>Properties\<close>

text \<open>C7.  An error changes nothing: whatever the route, the request, the clock, the VPN and the
  faults of the driver (other than a failing \<open>RowsAffected\<close>), a request answered with a status of
  400 or more leaves the database and the relay cache exactly as they were.\<close>

theorem failed_requests_change_nothing:
  assumes "ServeHTTP S W r s = (s', resp)" and "400 \<le> Status resp" and "counts_rows (wf_faults W)"
  shows "srv_store s' = srv_store s \<and> srv_cache s' = srv_cache s"
  using assms(1)
proof (cases rule: ServeHTTP_cases)
  case (handled q s0 s1)
  have "srv_store s1 = srv_store s0 \<and> srv_cache s1 = srv_cache s0"
    using handle_effect [OF handled(4)] assms(2,3)
    by (auto simp: node_effect_def relay_effect_def relay_outcome_def dest: GetRelaysHandler_error)
  with handled show ?thesis by simp
qed simp

text \<open>A world, a set-up and a server for the witnesses.\<close>

definition sample_world :: "Route \<Rightarrow> World" where
  "sample_world rt =
     \<lparr>wf_faults = no_faults, wf_clk = (\<lambda>n. 600 * Second), limiter_now = 600 * Second, latency = 1000,
      rand_bytes = Some ''01234567'', wf_json = sample_json sample_key, wf_vpn = test_world,
      time_parse = (\<lambda>_. None), match = (\<lambda>_ _. rt), real_ip = (\<lambda>r. ''1.2.3.4''),
      float_round = exact, float_big = 0\<rparr>"

definition sample_setup :: "Config \<Rightarrow> Setup" where
  "sample_setup cfg = \<lparr>su_cfg = cfg, su_startTime = 0, su_vpn = None, su_limited = False\<rparr>"

definition sample_server :: Server where
  "sample_server = NewRouter (sample_setup (auth_cfg True ''secret''))
     (sample_store [sample_node ''a'' (HashAuthKey ''gc_key-of-node-a-0001'' []) 1] [sample_row ''a'' (500 * Second)])"

lemma sample_server_simps [simp]:
  "srv_store sample_server =
     sample_store [sample_node ''a'' (HashAuthKey ''gc_key-of-node-a-0001'' []) 1] [sample_row ''a'' (500 * Second)]"
  "srv_cache sample_server = Some (NewRelayCache 15)"
  by (simp_all add: sample_server_def NewRouter_def sample_setup_def auth_cfg_def Defaults_def)

lemma db_inv_sample_server: "db_inv (srv_store sample_server)"
  by (simp add: db_inv_def nodes_inv_def relays_inv_def sample_store_def sample_node_def sample_row_def)

theorem failed_requests_change_nothing_witness:
  "let (s', resp) = ServeHTTP (sample_setup (auth_cfg True ''secret'')) (sample_world (R_DeleteNode ''a''))
         (sample_request ''DELETE'' ''/v1/nodes/a'' []) sample_server
   in Status resp = 401 \<and> srv_store s' = srv_store sample_server"
proof -
  let ?S = "sample_setup (auth_cfg True ''secret'')" and ?W = "sample_world (R_DeleteNode ''a'')"
  let ?r = "sample_request ''DELETE'' ''/v1/nodes/a'' []"
  obtain s' resp where run: "ServeHTTP ?S ?W ?r sample_server = (s', resp)"
    by (cases "ServeHTTP ?S ?W ?r sample_server")
  have "Status resp = 401"
    using run by (auto simp: ServeHTTP_def Let_def rate_limited_def dispatch_def sample_setup_def sample_world_def
        sample_request_def protected_def AuthMiddleware_def auth_cfg_def Defaults_def is_public_def writeUnauthorized_def
        split: prod.splits)
  moreover have "counts_rows (wf_faults ?W)" by (simp add: sample_world_def)
  ultimately show ?thesis using failed_requests_change_nothing [OF run] run by simp
qed



text \<open>C9.  The cache and concurrency: an unfiltered \<open>GET /relays\<close> queries the database and fills the
  cache in two steps, and \<open>Invalidate\<close> leaves no trace in between.  If the relay of a listed entry
  is deleted between the two, the deletion succeeds and drops the cache, and the first request then
  puts the old list back: until the cache's time to live is over every unfiltered \<open>GET /relays\<close>
  serves the deleted relay.\<close>

theorem cache_race:
  assumes "relays_inv (st_relays st)"
    and "GetRelays_begin clk tp r (Some c) = Queried None 0"
    and "GetRelays_query no_faults clk cfg None 0 st = Inr (dtos, cnt)" and "d \<in> set dtos" and "dto_NodeID d \<noteq> []"
  shows "\<exists>st1 c1 c2. DeleteRelayHandler no_faults (dto_NodeID d) (st, Some c) = ((st1, Some c1), no_content) \<and>
    GetRelayByNodeID no_faults (dto_NodeID d) st1 = Inl ErrRelayNotFound \<and> \<not> hasCached c1 \<and>
    fst (GetRelays_finish clk None 0 (dtos, cnt) (Some c1)) = Some c2 \<and>
    (\<forall>clk' r'. q_since r' = [] \<and> q_min_storage_gb r' = [] \<and> clk' 0 - clk 3 \<le> cache_ttl c \<longrightarrow>
       GetRelays_begin clk' tp r' (Some c2) = Answered (relays_response dtos cnt (clk' 1)))"
proof -
  let ?i = "dto_NodeID d"
  obtain relays where "ListActiveRelays no_faults (clk 2) (RelayTTLSeconds (cfg_Registry cfg)) None 0
      (MaxRelaysPerResponse (cfg_Registry cfg)) st = Inr (relays, cnt)" and dtos: "dtos = map toRelayDTO relays"
    using assms(3)
    by (cases "ListActiveRelays no_faults (clk 2) (RelayTTLSeconds (cfg_Registry cfg)) None 0
      (MaxRelaysPerResponse (cfg_Registry cfg)) st") (auto simp: GetRelays_query_def)
  from ListActiveRelays_Inr [OF this(1)] have "set relays \<subseteq> scanRelay ` set (st_relays st)"
    by (auto simp: Let_def dest!: in_set_takeD)
  with assms(4) dtos have "?i \<in> Relay_NodeID ` set (st_relays st)"
    by (auto simp: toRelayDTO_def)
  then have cnt: "count_where (\<lambda>r. Relay_NodeID r = ?i) (st_relays st) \<noteq> 0" by auto
  let ?st1 = "st\<lparr>st_relays := del_row ?i (st_relays st)\<rparr>"
  have "DeleteRelay no_faults ?i st = (?st1, None)"
    using cnt by (simp add: DeleteRelay_def exec_delete_def del_row_def del: count_where_eq_0)
  then have del: "DeleteRelayHandler no_faults ?i (st, Some c) = ((?st1, Some (Invalidate c)), no_content)"
    using assms(5) by (simp add: DeleteRelayHandler_def)
  have "distinct (map Relay_NodeID (st_relays st))" using assms(1) by (simp add: relays_inv_def)
  then have gone: "GetRelayByNodeID no_faults ?i ?st1 = Inl ErrRelayNotFound"
    by (simp add: GetRelayByNodeID_no_faults relay_rows.get_del)
  let ?c2 = "cache_Set (clk 3) dtos cnt (Invalidate c)"
  have "GetRelays_begin clk' tp r' (Some ?c2) = Answered (relays_response dtos cnt (clk' 1))"
    if "q_since r' = [] \<and> q_min_storage_gb r' = [] \<and> clk' 0 - clk 3 \<le> cache_ttl c" for clk' r'
    using that by (simp add: GetRelays_begin_def parse_filters_def cache_Get_def cache_Set_def Invalidate_def)
  with del gone show ?thesis
    by (intro exI [of _ ?st1] exI [of _ "Invalidate c"] exI [of _ ?c2]) (simp add: GetRelays_finish_def Invalidate_def)
qed

theorem cache_race_witness:
  "let st = sample_store [] [sample_row ''a'' (500 * Second)]; c = NewRelayCache 15; clk = (\<lambda>_. 600 * Second);
       d = toRelayDTO (scanRelay (sample_row ''a'' (500 * Second))) in
   \<exists>st1 c1 c2. DeleteRelayHandler no_faults ''a'' (st, Some c) = ((st1, Some c1), no_content) \<and>
     fst (GetRelays_finish clk None 0 ([d], 1) (Some c1)) = Some c2 \<and>
     GetRelays_begin clk (\<lambda>_. None) (sample_request ''GET'' ''/relays'' []) (Some c2) =
       Answered (relays_response [d] 1 (600 * Second))"
proof -
  let ?st = "sample_store [] [sample_row ''a'' (500 * Second)]" and ?clk = "\<lambda>_::nat. 600 * Second"
  let ?d = "toRelayDTO (scanRelay (sample_row ''a'' (500 * Second)))" and ?r = "sample_request ''GET'' ''/relays'' []"
  have inv: "relays_inv (st_relays ?st)" by (simp add: relays_inv_def sample_store_def sample_row_def)
  have b: "GetRelays_begin ?clk (\<lambda>_. None) ?r (Some (NewRelayCache 15)) = Queried None 0"
    by (simp add: GetRelays_begin_def parse_filters_def sample_request_def cache_Get_def NewRelayCache_def)
  have q: "GetRelays_query no_faults ?clk Defaults None 0 ?st = Inr ([?d], 1)"
    by (simp add: GetRelays_query_def ListActiveRelays_def query_count_def count_where_def listed_def
        sample_store_def sample_row_def Defaults_def ttl_window_def seconds_def Second_def order_by_desc_def)
  have i: "dto_NodeID ?d = ''a''" by (simp add: toRelayDTO_def sample_row_def)
  then have ne: "dto_NodeID ?d \<noteq> []" by simp
  have d: "?d \<in> set [?d]" by simp
  have ttl: "?clk 0 - ?clk 3 \<le> cache_ttl (NewRelayCache 15)" by (simp add: NewRelayCache_def seconds_def Second_def)
  from cache_race [OF inv b q d ne] obtain st1 c1 c2 where
      del: "DeleteRelayHandler no_faults ''a'' (?st, Some (NewRelayCache 15)) = ((st1, Some c1), no_content)"
      and fin: "fst (GetRelays_finish ?clk None 0 ([?d], 1) (Some c1)) = Some c2"
      and all: "\<And>clk' r'. q_since r' = [] \<and> q_min_storage_gb r' = [] \<and>
          clk' 0 - ?clk 3 \<le> cache_ttl (NewRelayCache 15) \<longrightarrow>
          GetRelays_begin clk' (\<lambda>_. None) r' (Some c2) = Answered (relays_response [?d] 1 (clk' 1))"
    unfolding i by blast
  have "q_since ?r = [] \<and> q_min_storage_gb ?r = []" by (simp add: sample_request_def)
  with all [of ?r ?clk] ttl have "GetRelays_begin ?clk (\<lambda>_. None) ?r (Some c2) = Answered (relays_response [?d] 1 (600 * Second))"
    by blast
  with del fin show ?thesis unfolding Let_def by blast
qed

end
