(* ===== verification/Logging.thy ===== *)
theory Logging
  imports Router
begin

text \<open>
  What a request writes to the log: \<open>middleware/logging.go\<close>, and the calls of \<open>slog\<close> in the other
  middlewares, in \<open>api/nodes.go\<close> and in the two VPN clients.  A line is its level, its message and
  its attributes; the texts of errors are left out.  The request identifier, the number of bytes and
  the duration in the access line come from chi, the encoder and the clock (\<open>LogInfo\<close>).
\<close>

section \<open>Levels\<close>

datatype Level = LevelDebug | LevelInfo | LevelWarn | LevelError

text \<open>The numbers of \<open>log/slog\<close>.\<close>

fun level_value :: "Level \<Rightarrow> int" where
  "level_value LevelDebug = -4"
| "level_value LevelInfo = 0"
| "level_value LevelWarn = 4"
| "level_value LevelError = 8"

instantiation Level :: linorder
begin

definition less_eq_Level :: "Level \<Rightarrow> Level \<Rightarrow> bool" where
  "less_eq_Level a b \<longleftrightarrow> level_value a \<le> level_value b"

definition less_Level :: "Level \<Rightarrow> Level \<Rightarrow> bool" where
  "less_Level a b \<longleftrightarrow> level_value a < level_value b"

instance
proof
  fix a b :: Level
  show "a \<le> b \<Longrightarrow> b \<le> a \<Longrightarrow> a = b"
    by (cases a; cases b) (simp_all add: less_eq_Level_def)
qed (auto simp: less_eq_Level_def less_Level_def)

end

section \<open>Lines\<close>

record LogLine =
  ll_Level :: Level
  ll_Msg :: string
  ll_Attrs :: "(string \<times> string) list"

record LogInfo =
  li_ReqID :: string
  li_Bytes :: int
  li_Duration :: string

text \<open>\<open>slog.SetDefault\<close> is never called: the default logger takes lines from \<open>LevelInfo\<close> on.\<close>

definition emitted :: "LogLine list \<Rightarrow> LogLine list" where
  "emitted ls = filter (\<lambda>l. LevelInfo \<le> ll_Level l) ls"

definition RequestLogger :: "LogInfo \<Rightarrow> Request \<Rightarrow> int \<Rightarrow> LogLine" where
  "RequestLogger i r status =
     \<lparr>ll_Level = LevelInfo, ll_Msg = ''HTTP Request'',
      ll_Attrs = [(''req_id'', li_ReqID i), (''method'', Method r), (''path'', URLPath r), (''status'', Itoa status),
        (''bytes'', Itoa (li_Bytes i)), (''duration'', li_Duration i), (''remote_addr'', RemoteAddr r)]\<rparr>"

definition auth_line :: "string \<Rightarrow> Request \<Rightarrow> LogLine" where
  "auth_line what r =
     \<lparr>ll_Level = LevelWarn, ll_Msg = ''Authentication failed: '' @ what,
      ll_Attrs = [(''path'', URLPath r), (''remote_addr'', RemoteAddr r)]\<rparr>"

definition format_hint :: string where
  "format_hint = ''invalid Authorization header format (expected '' @ CHR 0x27 # ''Bearer <token>'' @ [CHR 0x27] @ '')''"

definition AuthMiddleware_log :: "Config \<Rightarrow> Request \<Rightarrow> LogLine list" where
  "AuthMiddleware_log cfg r =
     (let a = cfg_Auth cfg in
      if \<not> RequireAuth a then []
      else if is_public (PublicPaths a) (URLPath r) then []
      else if Authorization r = [] then [auth_line ''missing Authorization header'' r]
      else case bearer_token (Authorization r) of
        None \<Rightarrow> [auth_line format_hint r]
      | Some token \<Rightarrow>
          if \<not> (length token > 0 \<and> ConstantTimeEq token (AdminAPIKey a)) \<and>
             \<not> (HasPrefix token ''gc_'' \<and> length token \<ge> 20)
          then [auth_line ''invalid API key'' r] else [])"

definition RateLimitMiddleware_log ::
  "(rat \<Rightarrow> rat) \<Rightarrow> int \<Rightarrow> time \<Rightarrow> Config \<Rightarrow> Request \<Rightarrow> IPRateLimiter \<Rightarrow> LogLine list" where
  "RateLimitMiddleware_log rnd big now cfg r l =
     (if is_public (PublicPaths (cfg_Auth cfg)) (URLPath r) then []
      else case Allow rnd big now (ExtractClientIP r) (request_rpm cfg r) (Burst (cfg_RateLimit cfg)) l of
        (l', allowed, retryAfter) \<Rightarrow>
          if \<not> allowed
          then [\<lparr>ll_Level = LevelWarn, ll_Msg = ''Rate limit exceeded for client IP'',
                 ll_Attrs = [(''ip'', ExtractClientIP r), (''path'', URLPath r), (''retry_after_seconds'', Itoa retryAfter)]\<rparr>]
          else [])"

section \<open>Registration\<close>

text \<open>The request for a VPN key; a second attempt announces itself.\<close>

definition vpn_log :: "vpn_world \<Rightarrow> Config \<Rightarrow> VPNProvider option \<Rightarrow> string \<Rightarrow> Metrics \<Rightarrow> LogLine list" where
  "vpn_log W cfg vpnProvider nodeID m =
     (let v = cfg_VPN cfg;
          off = [\<lparr>ll_Level = LevelDebug, ll_Msg = ''VPN integration disabled, returning empty vpn_config'', ll_Attrs = []\<rparr>]
      in case vpnProvider of
        None \<Rightarrow> off
      | Some p \<Rightarrow>
          if \<not> (Enabled v \<and> Provider v \<noteq> []) then off
          else (case CreatePreAuthKey W (vpn_key_opts v) p m of
            (sent, _, res) \<Rightarrow>
              (if length sent = 2
               then [\<lparr>ll_Level = LevelWarn,
                      ll_Msg = ProviderName p @ '': retrying CreatePreAuthKey call after transient error...'', ll_Attrs = []\<rparr>]
               else []) @
              (case res of
                 Inl _ \<Rightarrow> [\<lparr>ll_Level = LevelWarn,
                    ll_Msg = ''vpn: failed to generate pre-auth key, proceeding with empty vpn_config'',
                    ll_Attrs = [(''provider'', ProviderName p)]\<rparr>]
               | Inr k \<Rightarrow> [\<lparr>ll_Level = LevelInfo, ll_Msg = ''VPN pre-auth key generated successfully for node'',
                    ll_Attrs = [(''provider'', vk_Provider k), (''node_id'', nodeID)]\<rparr>])))"

definition RegisterNodeHandler_log ::
  "faults \<Rightarrow> (nat \<Rightarrow> time) \<Rightarrow> string option \<Rightarrow> JSON \<Rightarrow> vpn_world \<Rightarrow> Config \<Rightarrow> VPNProvider option \<Rightarrow> Request \<Rightarrow>
   SQLiteStore \<times> Metrics \<Rightarrow> LogLine list" where
  "RegisterNodeHandler_log F clk rnd J W cfg vpnProvider r s =
     (case s of (st, m) \<Rightarrow>
      case decode_register_node J (RequestBody r) of (ok, req) \<Rightarrow>
      if \<not> ok then []
      else if \<not> ValidateAuthKeyFormat (rn_AuthKey req) then []
      else
        let authHash = HashAuthKey (rn_AuthKey req) (HMACSecret (cfg_Auth cfg)); nodeID = GenerateNodeID rnd in
        case GetNodeByAuthKeyHash F authHash st of
          Inr existing \<Rightarrow>
            \<lparr>ll_Level = LevelInfo, ll_Msg = ''Idempotent node registration (already existing)'',
             ll_Attrs = [(''node_id'', Node_ID existing)]\<rparr> # vpn_log W cfg vpnProvider (Node_ID existing) m
        | Inl e \<Rightarrow>
            if e \<noteq> ErrNodeNotFound
            then [\<lparr>ll_Level = LevelError, ll_Msg = ''Error looking up node by auth key hash'', ll_Attrs = []\<rparr>]
            else
              (case CreateNode F (clk 2) (new_node clk nodeID authHash req) st of
                 (st', Some _, _) \<Rightarrow>
                   [\<lparr>ll_Level = LevelError, ll_Msg = ''Error saving new node to database'', ll_Attrs = [(''node_id'', nodeID)]\<rparr>]
               | (st', None, n) \<Rightarrow>
                   \<lparr>ll_Level = LevelInfo, ll_Msg = ''New node registered successfully'',
                    ll_Attrs = [(''node_id'', nodeID), (''name'', rn_Name req)]\<rparr> #
                   vpn_log W cfg vpnProvider (Node_ID n) m))"

section \<open>The other handlers\<close>

definition id_line :: "Level \<Rightarrow> string \<Rightarrow> string \<Rightarrow> LogLine" where
  "id_line lvl msg nodeID = \<lparr>ll_Level = lvl, ll_Msg = msg, ll_Attrs = [(''node_id'', nodeID)]\<rparr>"

definition GetNodeHandler_log :: "faults \<Rightarrow> string \<Rightarrow> SQLiteStore \<Rightarrow> LogLine list" where
  "GetNodeHandler_log F nodeID st =
     (if nodeID = [] then []
      else case GetNodeByID F nodeID st of
        Inl e \<Rightarrow> if e = ErrNodeNotFound then [] else [id_line LevelError ''Error looking up node by ID'' nodeID]
      | Inr n \<Rightarrow> [])"

definition DeleteNodeHandler_log :: "faults \<Rightarrow> (nat \<Rightarrow> time) \<Rightarrow> string \<Rightarrow> SQLiteStore \<Rightarrow> LogLine list" where
  "DeleteNodeHandler_log F clk nodeID st =
     (if nodeID = [] then []
      else case DeleteNode F (clk 0) nodeID st of
        (_, Some e) \<Rightarrow> if e = ErrNodeNotFound then [] else [id_line LevelError ''Error deleting node by ID'' nodeID]
      | (_, None) \<Rightarrow> [id_line LevelInfo ''Node marked as deleted (soft delete)'' nodeID])"

definition GetNodeStatusHandler_log :: "faults \<Rightarrow> Config \<Rightarrow> Request \<Rightarrow> string \<Rightarrow> SQLiteStore \<Rightarrow> LogLine list" where
  "GetNodeStatusHandler_log F cfg r nodeID st =
     (if \<not> authorizeAdminOnly cfg r then []
      else if nodeID = [] then []
      else case GetRelayByNodeID F nodeID st of
        Inl e \<Rightarrow> if e = ErrRelayNotFound then [] else [id_line LevelError ''Error looking up node relay for status'' nodeID]
      | Inr relay \<Rightarrow> [])"

definition GetRelaysHandler_log ::
  "faults \<Rightarrow> (nat \<Rightarrow> time) \<Rightarrow> (string \<Rightarrow> time option) \<Rightarrow> Config \<Rightarrow> Request \<Rightarrow> SQLiteStore \<Rightarrow> RelayCache option \<Rightarrow> LogLine list" where
  "GetRelaysHandler_log F clk tp cfg r st cache =
     (case GetRelays_begin clk tp r cache of
        Answered _ \<Rightarrow> []
      | Queried since minStorageGB \<Rightarrow>
          (case GetRelays_query F clk cfg since minStorageGB st of
             Inl _ \<Rightarrow> [\<lparr>ll_Level = LevelError, ll_Msg = ''Error looking up active relays'', ll_Attrs = []\<rparr>]
           | Inr _ \<Rightarrow> []))"

definition RegisterRelayHandler_log ::
  "faults \<Rightarrow> (nat \<Rightarrow> time) \<Rightarrow> JSON \<Rightarrow> Request \<Rightarrow> SQLiteStore \<Rightarrow> LogLine list" where
  "RegisterRelayHandler_log F clk J r st =
     (case decode_register_relay J (RequestBody r) of (ok, req) \<Rightarrow>
      if \<not> ok then []
      else case check_register_relay req of
        Some resp \<Rightarrow> []
      | None \<Rightarrow>
          (case GetNodeByID F (rr_NodeID req) st of
             Inl e \<Rightarrow>
               if e = ErrNodeNotFound then []
               else [id_line LevelError ''Error validating node existence for relay registration'' (rr_NodeID req)]
           | Inr node \<Rightarrow>
               (case UpsertRelay F (clk 1) (announced_relay (clk 0) req node) st of
                  (_, Some _, _) \<Rightarrow> [id_line LevelError ''Error in UpsertRelay'' (rr_NodeID req)]
                | (_, None, _) \<Rightarrow>
                    [\<lparr>ll_Level = LevelInfo, ll_Msg = ''Relay registered/updated successfully'',
                      ll_Attrs = [(''node_id'', rr_NodeID req), (''url'', rr_URL req)]\<rparr>])))"

definition PutV1RelayHeartbeatHandler_log ::
  "faults \<Rightarrow> (nat \<Rightarrow> time) \<Rightarrow> JSON \<Rightarrow> Config \<Rightarrow> Request \<Rightarrow> string \<Rightarrow> SQLiteStore \<Rightarrow> LogLine list" where
  "PutV1RelayHeartbeatHandler_log F clk J cfg r nodeID st =
     (if nodeID = [] then []
      else if \<not> authorizeNodeOwnership F cfg r nodeID st then []
      else case decode_heartbeat_v1 J (RequestBody r) of (ok, req) \<Rightarrow>
      if \<not> ok then []
      else case check_heartbeat_v1 req of
        Some resp \<Rightarrow> []
      | None \<Rightarrow>
          (case GetRelayByNodeID F nodeID st of
             Inl e \<Rightarrow>
               if e = ErrRelayNotFound then [] else [id_line LevelError ''Error looking up relay for heartbeat'' nodeID]
           | Inr relay \<Rightarrow>
               (case UpdateRelayFull F (clk 1) (heartbeat_relay (clk 0) req relay) st of
                  (_, Some _, _) \<Rightarrow> [id_line LevelError ''Error updating relay full heartbeat'' nodeID]
                | (_, None, _) \<Rightarrow>
                    [\<lparr>ll_Level = LevelInfo, ll_Msg = ''V1 Relay heartbeat updated successfully'',
                      ll_Attrs = [(''node_id'', nodeID), (''url'', hv_URL req)]\<rparr>])))"

definition HeartbeatRelayHandler_log ::
  "faults \<Rightarrow> (nat \<Rightarrow> time) \<Rightarrow> JSON \<Rightarrow> Request \<Rightarrow> string \<Rightarrow> SQLiteStore \<Rightarrow> LogLine list" where
  "HeartbeatRelayHandler_log F clk J r nodeID st =
     (if nodeID = [] then []
      else
        let storage = (if ContentLength r > 0 then hb_AvailableGB (snd (decode_heartbeat J (RequestBody r))) else None)
        in case UpdateRelayHeartbeat F (clk 0) nodeID storage st of
             (_, Some e) \<Rightarrow> if e = ErrRelayNotFound then [] else [id_line LevelError ''Error updating relay heartbeat'' nodeID]
           | (_, None) \<Rightarrow> [])"

definition DeleteRelayHandler_log :: "faults \<Rightarrow> string \<Rightarrow> SQLiteStore \<Rightarrow> LogLine list" where
  "DeleteRelayHandler_log F nodeID st =
     (if nodeID = [] then []
      else case DeleteRelay F nodeID st of
        (_, Some e) \<Rightarrow> if e = ErrRelayNotFound then [] else [id_line LevelError ''Error deleting relay'' nodeID]
      | (_, None) \<Rightarrow> [id_line LevelInfo ''Relay removed from registry successfully'' nodeID])"

lemmas handler_log_defs = GetNodeHandler_log_def DeleteNodeHandler_log_def GetNodeStatusHandler_log_def
  GetRelaysHandler_log_def RegisterRelayHandler_log_def PutV1RelayHeartbeatHandler_log_def
  HeartbeatRelayHandler_log_def DeleteRelayHandler_log_def

section \<open>A request\<close>

fun handler_log :: "Setup \<Rightarrow> World \<Rightarrow> Request \<Rightarrow> Route \<Rightarrow> Server \<Rightarrow> LogLine list" where
  "handler_log S W r R_RegisterNode s =
     RegisterNodeHandler_log (wf_faults W) (wf_clk W) (rand_bytes W) (wf_json W) (wf_vpn W) (su_cfg S) (su_vpn S) r
       (srv_store s, srv_metrics s)"
| "handler_log S W r (R_NodeStatus i) s = GetNodeStatusHandler_log (wf_faults W) (su_cfg S) r i (srv_store s)"
| "handler_log S W r (R_GetNode i) s = GetNodeHandler_log (wf_faults W) i (srv_store s)"
| "handler_log S W r (R_DeleteNode i) s = DeleteNodeHandler_log (wf_faults W) (wf_clk W) i (srv_store s)"
| "handler_log S W r (R_PutV1Relay i) s =
     PutV1RelayHeartbeatHandler_log (wf_faults W) (wf_clk W) (wf_json W) (su_cfg S) r i (srv_store s)"
| "handler_log S W r R_GetRelays s =
     GetRelaysHandler_log (wf_faults W) (wf_clk W) (time_parse W) (su_cfg S) r (srv_store s) (srv_cache s)"
| "handler_log S W r R_PostRelay s = RegisterRelayHandler_log (wf_faults W) (wf_clk W) (wf_json W) r (srv_store s)"
| "handler_log S W r (R_PutRelay i) s = HeartbeatRelayHandler_log (wf_faults W) (wf_clk W) (wf_json W) r i (srv_store s)"
| "handler_log S W r (R_DeleteRelay i) s = DeleteRelayHandler_log (wf_faults W) i (srv_store s)"
| "handler_log S W r rt s = []"

definition dispatch_log :: "Setup \<Rightarrow> World \<Rightarrow> Request \<Rightarrow> Server \<Rightarrow> LogLine list" where
  "dispatch_log S W r s =
     (let rt = match W (Method r) (URLPath r) in
      if protected rt \<and> snd (AuthMiddleware (su_cfg S) r (srv_metrics s)) \<noteq> None then AuthMiddleware_log (su_cfg S) r
      else handler_log S W r rt s)"

definition rate_limited_log :: "Setup \<Rightarrow> World \<Rightarrow> Request \<Rightarrow> Server \<Rightarrow> LogLine list" where
  "rate_limited_log S W r s =
     (if su_limited S then
        (case RateLimitMiddleware (float_round W) (float_big W) (limiter_now W) (su_cfg S) r
                (srv_limiter s, srv_metrics s) of
           (_, Some _) \<Rightarrow> RateLimitMiddleware_log (float_round W) (float_big W) (limiter_now W) (su_cfg S) r (srv_limiter s)
         | ((l, m), None) \<Rightarrow> dispatch_log S W r (s\<lparr>srv_limiter := l, srv_metrics := m\<rparr>))
      else dispatch_log S W r s)"

text \<open>\<open>RequestLogger\<close> is outside the other logging middlewares and writes when they have returned.\<close>

definition request_log :: "Setup \<Rightarrow> World \<Rightarrow> LogInfo \<Rightarrow> Request \<Rightarrow> Server \<Rightarrow> LogLine list" where
  "request_log S W i r0 s =
     (let r = r0\<lparr>RemoteAddr := real_ip W r0\<rparr>
      in rate_limited_log S W r s @ [RequestLogger i r (Status (snd (ServeHTTP S W r0 s)))])"

text \<open>Requests one after the other, and the log they leave.\<close>

fun serve :: "Setup \<Rightarrow> (World \<times> LogInfo \<times> Request) list \<Rightarrow> Server \<Rightarrow> Server \<times> LogLine list" where
  "serve S [] s = (s, [])"
| "serve S ((W, i, r) # qs) s =
     (case serve S qs (fst (ServeHTTP S W r s)) of (s', ls) \<Rightarrow> (s', emitted (request_log S W i r s) @ ls))"

section \<open>Lemmas\<close>

definition auth_failed :: "LogLine \<Rightarrow> bool" where
  "auth_failed l \<longleftrightarrow> HasPrefix (ll_Msg l) ''Authentication failed''"

definition limit_exceeded :: "LogLine \<Rightarrow> bool" where
  "limit_exceeded l \<longleftrightarrow> ll_Msg l = ''Rate limit exceeded for client IP''"

text \<open>The labels of the request counter, read from an access line.\<close>

definition access_of :: "string \<times> string \<times> string \<Rightarrow> LogLine \<Rightarrow> bool" where
  "access_of k l \<longleftrightarrow> ll_Msg l = ''HTTP Request'' \<and>
     (case (map_of (ll_Attrs l) ''method'', map_of (ll_Attrs l) ''path'', map_of (ll_Attrs l) ''status'') of
        (Some meth, Some path, Some code) \<Rightarrow> k = (meth, NormalizePath path, code)
      | _ \<Rightarrow> False)"

text \<open>The labels of the latency histogram.\<close>

definition access_at :: "string \<times> string \<Rightarrow> LogLine \<Rightarrow> bool" where
  "access_at h l \<longleftrightarrow> (\<exists>code. access_of (fst h, snd h, code) l)"

text \<open>The counters of the middlewares, and the number of observations.\<close>

type_synonym counts = "nat \<times> nat \<times> (string \<times> string \<times> string \<Rightarrow> nat) \<times> (string \<times> string \<Rightarrow> nat)"

definition counters :: "Metrics \<Rightarrow> counts" where
  "counters m = (AuthFailuresTotal m, RateLimitRejectedTotal m, HTTPRequestsTotal m, \<lambda>h. length (HTTPRequestDuration m h))"

text \<open>How many of these lines there are: what the counters should have gained.\<close>

definition counted :: "LogLine list \<Rightarrow> counts" where
  "counted ls = (count_where auth_failed ls, count_where limit_exceeded ls, \<lambda>k. count_where (access_of k) ls,
     \<lambda>h. count_where (access_at h) ls)"

definition no_counts :: "counts" where
  "no_counts = (0, 0, \<lambda>_. 0, \<lambda>_. 0)"

fun add_counts :: "counts \<Rightarrow> counts \<Rightarrow> counts" where
  "add_counts (a, b, c, d) (a', b', c', d') = (a + a', b + b', \<lambda>k. c k + c' k, \<lambda>h. d h + d' h)"

lemma emitted_append [simp]: "emitted (ls @ ls') = emitted ls @ emitted ls'"
  by (simp add: emitted_def)

lemma counted_append: "counted (ls @ ls') = add_counts (counted ls) (counted ls')"
  by (simp add: counted_def count_where_def)

lemma add_counts_assoc: "add_counts (add_counts x y) z = add_counts x (add_counts y z)"
  by (cases x; cases y; cases z) (simp add: ac_simps)

lemma add_no_counts [simp]: "add_counts x no_counts = x"
  by (cases x) (simp add: no_counts_def)

text \<open>The lines of the handlers are none of these, and the handlers do not touch the counters.\<close>

definition other_line :: "LogLine \<Rightarrow> bool" where
  "other_line l \<longleftrightarrow> \<not> auth_failed l \<and> \<not> limit_exceeded l \<and> (\<forall>k. \<not> access_of k l)"

lemma counted_others: "\<forall>l\<in>set ls. other_line l \<Longrightarrow> counted (emitted ls) = no_counts"
  by (auto simp: counted_def no_counts_def emitted_def other_line_def access_at_def count_where_def filter_empty_conv)

lemma attempts_by: "length (fst (CreatePreAuthKey W opts p m)) = 2 \<Longrightarrow> ProviderName p = ''headscale'' \<or> ProviderName p = ''tailscale''"
  by (cases p) auto

lemma other_line_msg:
  "\<not> HasPrefix (ll_Msg l) ''Authentication failed'' \<Longrightarrow> ll_Msg l \<noteq> ''Rate limit exceeded for client IP'' \<Longrightarrow>
   ll_Msg l \<noteq> ''HTTP Request'' \<Longrightarrow> other_line l"
  by (simp add: other_line_def auth_failed_def limit_exceeded_def access_of_def)

lemma vpn_log_others: "l \<in> set (vpn_log W cfg p i m) \<Longrightarrow> other_line l"
proof (cases p)
  case (Some q)
  assume l: "l \<in> set (vpn_log W cfg p i m)"
  obtain sent m' res where run: "CreatePreAuthKey W (vpn_key_opts (cfg_VPN cfg)) q m = (sent, m', res)"
    by (metis prod.collapse)
  have "length sent = 2 \<longrightarrow> ProviderName q = ''headscale'' \<or> ProviderName q = ''tailscale''"
    using attempts_by [of W "vpn_key_opts (cfg_VPN cfg)" q m] by (simp add: run)
  with l Some show ?thesis
    by (intro other_line_msg; auto simp: vpn_log_def Let_def run split: if_splits sum.splits)
qed (auto simp: vpn_log_def intro: other_line_msg)

lemma RegisterNode_log_others: "l \<in> set (RegisterNodeHandler_log F clk rnd J W cfg p r s) \<Longrightarrow> other_line l"
  by (auto simp: RegisterNodeHandler_log_def Let_def dest: vpn_log_others
      split: option.splits if_splits prod.splits sum.splits) (rule other_line_msg; simp)+

lemma other_line_rec [simp]:
  "m \<noteq> ''HTTP Request'' \<Longrightarrow> other_line \<lparr>ll_Level = a, ll_Msg = m, ll_Attrs = as\<rparr> \<longleftrightarrow>
     \<not> HasPrefix m ''Authentication failed'' \<and> m \<noteq> ''Rate limit exceeded for client IP''"
  "m \<noteq> ''HTTP Request'' \<Longrightarrow> other_line (id_line a m i) \<longleftrightarrow>
     \<not> HasPrefix m ''Authentication failed'' \<and> m \<noteq> ''Rate limit exceeded for client IP''"
  by (auto simp: other_line_def auth_failed_def limit_exceeded_def access_of_def id_line_def)

lemma handler_logs_other:
  "list_all other_line (GetNodeHandler_log F i st)"
  "list_all other_line (DeleteNodeHandler_log F clk i st)"
  "list_all other_line (GetNodeStatusHandler_log F cfg r i st)"
  "list_all other_line (GetRelaysHandler_log F clk tp cfg r st c)"
  "list_all other_line (RegisterRelayHandler_log F clk J r st)"
  "list_all other_line (PutV1RelayHeartbeatHandler_log F clk J cfg r i st)"
  "list_all other_line (HeartbeatRelayHandler_log F clk J r i st)"
  "list_all other_line (DeleteRelayHandler_log F i st)"
  by (simp_all add: handler_log_defs Let_def split: option.split prod.split sum.split relays_phase.split)

lemma handler_log_others: "\<forall>l\<in>set (handler_log S W r rt s). other_line l"
  using RegisterNode_log_others handler_logs_other [unfolded list_all_iff] by (cases rt) auto

lemma CreatePreAuthKey_counters: "counters (fst (snd (CreatePreAuthKey W opts p m))) = counters m"
  by (cases p) (auto simp: counters_def hs_CreatePreAuthKey_def ts_CreatePreAuthKey_def inc_VPNKeys_def inc_VPNErrors_def
      split: prod.split sum.split)

lemma vpn_config_counters: "counters (fst (vpn_config_of W cfg p m)) = counters m"
  using CreatePreAuthKey_counters [of W "vpn_key_opts (cfg_VPN cfg)" "the p" m]
  by (auto simp: vpn_config_of_def Let_def split: option.split prod.split sum.split)

lemma GetStatus_counters: "counters (fst (GetStatus W p m)) = counters m"
  by (cases p) (auto simp: counters_def hs_GetStatus_def ts_GetStatus_def inc_VPNErrors_def Let_def
      split: reply.split)

lemma handle_counters: "counters (srv_metrics (fst (handle S W r rt s))) = counters (srv_metrics s)"
proof (cases rt)
  case R_RegisterNode
  then show ?thesis
    using vpn_config_counters [of "wf_vpn W" "su_cfg S" "su_vpn S" "srv_metrics s"]
    by (auto simp: RegisterNodeHandler_def sendRegisterResponse_def Let_def
        split: prod.splits option.splits sum.splits if_splits)
next
  case R_VPNStatus
  then show ?thesis
    using GetStatus_counters [of "wf_vpn W" "the (su_vpn S)" "srv_metrics s"]
    by (auto simp: GetVPNStatusHandler_def split: prod.splits option.splits)
qed (auto simp: with_store_def with_relays_def split: prod.splits)

text \<open>Each middleware that rejects writes one line and counts it.\<close>

lemma AuthMiddleware_logged:
  "AuthMiddleware cfg r m = (m', x) \<Longrightarrow>
   (x = None \<longrightarrow> m' = m) \<and> (x \<noteq> None \<longrightarrow> m' = inc_AuthFailures m \<and> (\<exists>w. AuthMiddleware_log cfg r = [auth_line w r]))"
  by (auto simp: AuthMiddleware_def AuthMiddleware_log_def Let_def split: if_splits option.splits)

lemma counted_auth_line: "counted (emitted [auth_line w r]) = (1, 0, \<lambda>_. 0, \<lambda>_. 0)"
  by (auto simp: counted_def emitted_def auth_line_def auth_failed_def limit_exceeded_def access_of_def access_at_def
      count_where_def less_eq_Level_def)

lemma RateLimitMiddleware_logged:
  "RateLimitMiddleware rnd big now cfg r (l, m) = ((l', m'), x) \<Longrightarrow>
   (x = None \<longrightarrow> m' = m) \<and>
   (x \<noteq> None \<longrightarrow> m' = inc_RateLimitRejected m \<and>
      counted (emitted (RateLimitMiddleware_log rnd big now cfg r l)) = (0, 1, \<lambda>_. 0, \<lambda>_. 0))"
  by (auto simp: RateLimitMiddleware_def RateLimitMiddleware_log_def counted_def emitted_def auth_failed_def
      limit_exceeded_def access_of_def access_at_def count_where_def less_eq_Level_def split: if_splits prod.splits)

lemma dispatch_counted:
  "counters (srv_metrics (fst (dispatch S W r s))) =
     add_counts (counters (srv_metrics s)) (counted (emitted (dispatch_log S W r s)))"
proof -
  let ?rt = "match W (Method r) (URLPath r)"
  obtain m x where am: "AuthMiddleware (su_cfg S) r (srv_metrics s) = (m, x)" by fastforce
  have handled: "counted (emitted (handler_log S W r ?rt s)) = no_counts"
    using handler_log_others by (rule counted_others)
  from AuthMiddleware_logged [OF am] show ?thesis
    using handled handle_counters [of S W r ?rt "s\<lparr>srv_metrics := m\<rparr>"] handle_counters [of S W r ?rt s] am
    by (cases "protected ?rt"; cases x)
      (auto simp: dispatch_def dispatch_log_def Let_def counted_auth_line counters_def inc_AuthFailures_def)
qed

lemma rate_limited_counted:
  "counters (srv_metrics (fst (rate_limited S W r s))) =
     add_counts (counters (srv_metrics s)) (counted (emitted (rate_limited_log S W r s)))"
proof (cases "su_limited S")
  case True
  obtain l m x where rm: "RateLimitMiddleware (float_round W) (float_big W) (limiter_now W) (su_cfg S) r
      (srv_limiter s, srv_metrics s) = ((l, m), x)" by (metis prod.collapse)
  from RateLimitMiddleware_logged [OF rm] show ?thesis
    using dispatch_counted [of S W r "s\<lparr>srv_limiter := l, srv_metrics := m\<rparr>"] rm True
    by (cases x) (auto simp: rate_limited_def rate_limited_log_def counters_def inc_RateLimitRejected_def)
qed (simp add: rate_limited_def rate_limited_log_def dispatch_counted)

lemma request_counted:
  "counters (srv_metrics (fst (ServeHTTP S W r s))) =
     add_counts (counters (srv_metrics s)) (counted (emitted (request_log S W i r s)))"
proof -
  let ?r = "r\<lparr>RemoteAddr := real_ip W r\<rparr>"
  obtain s1 resp where rl: "rate_limited S W ?r s = (s1, resp)" by fastforce
  have serve: "ServeHTTP S W r s = (s1\<lparr>srv_metrics := MetricsMiddleware (Method r) (URLPath r) (Status resp) (latency W) (srv_metrics s1)\<rparr>, resp)"
    by (simp add: ServeHTTP_def Let_def rl)
  have access: "counted (emitted [RequestLogger i ?r (Status resp)]) =
      (0, 0, \<lambda>k. if k = (Method r, NormalizePath (URLPath r), Itoa (Status resp)) then 1 else 0,
        \<lambda>h. if h = (Method r, NormalizePath (URLPath r)) then 1 else 0)"
    by (auto simp: counted_def emitted_def RequestLogger_def auth_failed_def limit_exceeded_def access_of_def access_at_def
        count_where_def less_eq_Level_def)
  have mm: "counters (MetricsMiddleware (Method r) (URLPath r) (Status resp) (latency W) m) =
      add_counts (counters m) (counted (emitted [RequestLogger i ?r (Status resp)]))" for m
    unfolding access by (auto simp: counters_def MetricsMiddleware_def Let_def)
  have "counters (srv_metrics s1) = add_counts (counters (srv_metrics s)) (counted (emitted (rate_limited_log S W ?r s)))"
    using rate_limited_counted [of S W ?r s] by (simp add: rl)
  then show ?thesis
    by (simp add: serve mm request_log_def Let_def counted_append add_counts_assoc)
qed

text \<open>Error lines: one for each answer 500.\<close>

definition error_line :: "LogLine \<Rightarrow> bool" where
  "error_line l \<longleftrightarrow> ll_Level l = LevelError"

abbreviation errors_for :: "LogLine list \<Rightarrow> Response \<Rightarrow> bool" where
  "errors_for ls resp \<equiv> count_where error_line ls = (if Status resp = 500 then 1 else 0)"

lemma error_line_rec [simp]:
  "error_line \<lparr>ll_Level = a, ll_Msg = m, ll_Attrs = as\<rparr> \<longleftrightarrow> a = LevelError"
  "error_line (id_line a m i) \<longleftrightarrow> a = LevelError"
  by (simp_all add: error_line_def id_line_def)

lemma vpn_log_no_error [simp]: "count_where error_line (vpn_log W cfg p i m) = 0"
  by (auto simp: vpn_log_def Let_def simp del: count_where_eq_0 split: option.split prod.split sum.split)

lemma RegisterNode_errors:
  "errors_for (RegisterNodeHandler_log F clk rnd J W cfg p r s) (snd (RegisterNodeHandler F clk rnd J W cfg p r s))"
  by (auto simp: RegisterNodeHandler_log_def RegisterNodeHandler_def sendRegisterResponse_def Let_def
      simp del: count_where_eq_0 split: option.split prod.split sum.split)

lemma GetRelays_errors: "errors_for (GetRelaysHandler_log F clk tp cfg r st c) (snd (GetRelaysHandler F clk tp cfg r st c))"
  using GetRelays_begin_status [of clk tp r c]
  by (auto simp: GetRelaysHandler_log_def GetRelaysHandler_def GetRelays_finish_def
      simp del: count_where_eq_0 split: relays_phase.split sum.split prod.split)

lemma handler_errors:
  "errors_for (GetNodeHandler_log F i st) (GetNodeHandler F i st)"
  "errors_for (DeleteNodeHandler_log F clk i st) (snd (DeleteNodeHandler F clk i st))"
  "errors_for (GetNodeStatusHandler_log F cfg r i st) (GetNodeStatusHandler F clk cfg r i st)"
  "errors_for (RegisterRelayHandler_log F clk J r st) (snd (RegisterRelayHandler F clk J r (st, c)))"
  "errors_for (PutV1RelayHeartbeatHandler_log F clk J cfg r i st) (snd (PutV1RelayHeartbeatHandler F clk J cfg r i (st, c)))"
  "errors_for (HeartbeatRelayHandler_log F clk J r i st) (snd (HeartbeatRelayHandler F clk J r i (st, c)))"
  "errors_for (DeleteRelayHandler_log F i st) (snd (DeleteRelayHandler F i (st, c)))"
  by (auto simp: handler_log_defs GetNodeHandler_def DeleteNodeHandler_def GetNodeStatusHandler_def
      RegisterRelayHandler_def PutV1RelayHeartbeatHandler_def HeartbeatRelayHandler_def DeleteRelayHandler_def Let_def
      simp del: count_where_eq_0 dest: check_register_relay_400 check_heartbeat_v1_400
      split: option.split prod.split sum.split)

lemma handle_errors: "errors_for (handler_log S W r rt s) (snd (handle S W r rt s))"
proof (cases rt)
  case R_RegisterNode
  then show ?thesis using RegisterNode_errors by (simp add: case_prod_unfold)
next
  case R_GetRelays
  then show ?thesis using GetRelays_errors by (simp add: case_prod_unfold)
next
  case R_Health
  then show ?thesis by (simp add: HealthHandler_def split: option.split)
qed (use handler_errors in \<open>simp_all add: with_store_def with_relays_def case_prod_unfold InfoHandler_def
    plain_response_def GetVPNStatusHandler_def split: option.split\<close>)

text \<open>The middlewares answer 401 and 429, with warnings only.\<close>

lemma dispatch_errors: "errors_for (dispatch_log S W r s) (snd (dispatch S W r s))"
proof -
  let ?rt = "match W (Method r) (URLPath r)"
  obtain m x where am: "AuthMiddleware (su_cfg S) r (srv_metrics s) = (m, x)" by fastforce
  have st: "x = Some resp \<Longrightarrow> Status resp = 401" for resp
    using am by (auto simp: AuthMiddleware_def Let_def writeUnauthorized_def split: if_splits option.splits)
  have "\<not> error_line (auth_line w r)" for w by (simp add: error_line_def auth_line_def)
  with AuthMiddleware_logged [OF am] st show ?thesis
    using handle_errors [of S W r ?rt s] am
    by (cases "protected ?rt"; cases x)
      (auto simp: dispatch_def dispatch_log_def Let_def simp del: count_where_eq_0)
qed

lemma rate_limited_errors: "errors_for (rate_limited_log S W r s) (snd (rate_limited S W r s))"
proof (cases "su_limited S")
  case True
  obtain l m x where rm: "RateLimitMiddleware (float_round W) (float_big W) (limiter_now W) (su_cfg S) r
      (srv_limiter s, srv_metrics s) = ((l, m), x)" by (metis prod.collapse)
  have "count_where error_line (RateLimitMiddleware_log rnd big now cfg r lim) = 0" for rnd big now cfg lim
    by (auto simp: RateLimitMiddleware_log_def split: prod.split)
  moreover have "x = Some resp \<Longrightarrow> Status resp = 429" for resp
    using rm by (auto simp: RateLimitMiddleware_def writeTooManyRequests_def Let_def split: if_splits prod.splits)
  ultimately show ?thesis
    using dispatch_errors [of S W r "s\<lparr>srv_limiter := l, srv_metrics := m\<rparr>"] rm True
    by (cases x) (auto simp: rate_limited_def rate_limited_log_def simp del: count_where_eq_0)
qed (simp add: rate_limited_def rate_limited_log_def dispatch_errors)

text \<open>The access lines with status 500.\<close>

definition access_500 :: "LogLine \<Rightarrow> bool" where
  "access_500 l \<longleftrightarrow> (\<exists>meth path. access_of (meth, path, ''500'') l)"

lemma Itoa_500: "Itoa n = ''500'' \<longleftrightarrow> n = 500"
proof -
  have s500: "nat_string 500 = ''500''" by code_simp
  show ?thesis
  proof (cases "n < 0")
    case False
    then have "Itoa n = ''500'' \<longleftrightarrow> nat_string (nat n) = nat_string 500" by (simp add: Itoa_def s500)
    also have "\<dots> \<longleftrightarrow> nat n = 500" by (auto dest: nat_string_inj)
    finally show ?thesis using False by auto
  qed (auto simp: Itoa_def)
qed

lemma RequestLogger_access_500: "access_500 (RequestLogger i r status) \<longleftrightarrow> status = 500"
  by (auto simp: access_500_def access_of_def RequestLogger_def Itoa_500 Itoa_500 [THEN iffD1, OF sym]
      Itoa_500 [THEN iffD2, THEN sym])

lemma rate_limited_log_no_access: "l \<in> set (rate_limited_log S W r s) \<Longrightarrow> \<not> access_500 l"
  using handler_log_others
  by (force simp: access_500_def rate_limited_log_def dispatch_log_def RateLimitMiddleware_log_def AuthMiddleware_log_def
      auth_line_def access_of_def other_line_def Let_def split: if_splits prod.splits option.splits)

lemma count_errors_emitted: "count_where error_line (emitted ls) = count_where error_line ls"
  by (induction ls) (auto simp: emitted_def error_line_def less_eq_Level_def)

lemma count_where_append: "count_where p (xs @ ys) = count_where p xs + count_where p ys"
  by (simp add: count_where_def)

lemma request_errors:
  "count_where error_line (emitted (request_log S W i r s)) = count_where access_500 (emitted (request_log S W i r s))"
proof -
  let ?r = "r\<lparr>RemoteAddr := real_ip W r\<rparr>" and ?st = "Status (snd (ServeHTTP S W r s))"
  have st: "?st = Status (snd (rate_limited S W ?r s))" by (simp add: ServeHTTP_def Let_def case_prod_unfold)
  have "count_where access_500 (emitted (rate_limited_log S W ?r s)) = 0"
    using rate_limited_log_no_access by (auto simp: emitted_def)
  moreover have "emitted [RequestLogger i ?r ?st] = [RequestLogger i ?r ?st]" "\<not> error_line (RequestLogger i ?r ?st)"
    by (simp_all add: emitted_def RequestLogger_def less_eq_Level_def error_line_def)
  ultimately show ?thesis
    using rate_limited_errors [of S W ?r s]
    by (simp add: request_log_def Let_def count_where_append count_errors_emitted RequestLogger_access_500 st
        del: count_where_eq_0)
qed

lemma serve_errors: "count_where error_line (snd (serve S qs s)) = count_where access_500 (snd (serve S qs s))"
proof (induction qs arbitrary: s)
  case (Cons q qs)
  obtain W i r where q: "q = (W, i, r)" by (cases q)
  from Cons [of "fst (ServeHTTP S W r s)"] show ?case
    by (simp add: q case_prod_unfold count_where_append request_errors)
qed simp

section \<open>The log settings\<close>

text \<open>A set-up with other log settings.\<close>

definition with_log :: "LogConfig \<Rightarrow> Setup \<Rightarrow> Setup" where
  "with_log lc S = S\<lparr>su_cfg := (su_cfg S)\<lparr>cfg_Log := lc\<rparr>\<rparr>"

lemma with_log_simps [simp]:
  "su_cfg (with_log lc S) = (su_cfg S)\<lparr>cfg_Log := lc\<rparr>" "su_vpn (with_log lc S) = su_vpn S"
  "su_startTime (with_log lc S) = su_startTime S" "su_limited (with_log lc S) = su_limited S"
  by (simp_all add: with_log_def)

lemma log_unread_middleware [simp]:
  "AuthMiddleware (cfg\<lparr>cfg_Log := lc\<rparr>) r m = AuthMiddleware cfg r m"
  "AuthMiddleware_log (cfg\<lparr>cfg_Log := lc\<rparr>) r = AuthMiddleware_log cfg r"
  "request_rpm (cfg\<lparr>cfg_Log := lc\<rparr>) r = request_rpm cfg r"
  "RateLimitMiddleware rnd big now (cfg\<lparr>cfg_Log := lc\<rparr>) r x = RateLimitMiddleware rnd big now cfg r x"
  "RateLimitMiddleware_log rnd big now (cfg\<lparr>cfg_Log := lc\<rparr>) r l = RateLimitMiddleware_log rnd big now cfg r l"
  by (simp_all add: AuthMiddleware_def AuthMiddleware_log_def RateLimitMiddleware_def RateLimitMiddleware_log_def
      request_rpm_def
      cong del: prod.case_cong_weak option.case_cong_weak sum.case_cong_weak relays_phase.case_cong_weak if_weak_cong)

lemma log_unread_helpers [simp]:
  "vpn_config_of W (cfg\<lparr>cfg_Log := lc\<rparr>) p m = vpn_config_of W cfg p m"
  "vpn_log W (cfg\<lparr>cfg_Log := lc\<rparr>) p i m = vpn_log W cfg p i m"
  "authorizeAdminOnly (cfg\<lparr>cfg_Log := lc\<rparr>) r = authorizeAdminOnly cfg r"
  "authorizeNodeOwnership F (cfg\<lparr>cfg_Log := lc\<rparr>) r i st = authorizeNodeOwnership F cfg r i st"
  "GetRelays_query F clk (cfg\<lparr>cfg_Log := lc\<rparr>) since gb st = GetRelays_query F clk cfg since gb st"
  by (simp_all add: vpn_config_of_def vpn_log_def authorizeAdminOnly_def authorizeNodeOwnership_def GetRelays_query_def
      cong del: prod.case_cong_weak option.case_cong_weak sum.case_cong_weak relays_phase.case_cong_weak if_weak_cong)

lemma log_unread_handlers [simp]:
  "InfoHandler (cfg\<lparr>cfg_Log := lc\<rparr>) t u = InfoHandler cfg t u"
  "RegisterNodeHandler F clk rnd J W (cfg\<lparr>cfg_Log := lc\<rparr>) p r s = RegisterNodeHandler F clk rnd J W cfg p r s"
  "RegisterNodeHandler_log F clk rnd J W (cfg\<lparr>cfg_Log := lc\<rparr>) p r s = RegisterNodeHandler_log F clk rnd J W cfg p r s"
  "GetNodeStatusHandler F clk (cfg\<lparr>cfg_Log := lc\<rparr>) r i st = GetNodeStatusHandler F clk cfg r i st"
  "GetNodeStatusHandler_log F (cfg\<lparr>cfg_Log := lc\<rparr>) r i st = GetNodeStatusHandler_log F cfg r i st"
  "PutV1RelayHeartbeatHandler_log F clk J (cfg\<lparr>cfg_Log := lc\<rparr>) r i st = PutV1RelayHeartbeatHandler_log F clk J cfg r i st"
  "GetRelaysHandler_log F clk tp (cfg\<lparr>cfg_Log := lc\<rparr>) r st c = GetRelaysHandler_log F clk tp cfg r st c"
  "PutV1RelayHeartbeatHandler F clk J (cfg\<lparr>cfg_Log := lc\<rparr>) r i x = PutV1RelayHeartbeatHandler F clk J cfg r i x"
  "GetRelaysHandler F clk tp (cfg\<lparr>cfg_Log := lc\<rparr>) r st c = GetRelaysHandler F clk tp cfg r st c"
  by (simp_all add: InfoHandler_def RegisterNodeHandler_def RegisterNodeHandler_log_def sendRegisterResponse_def
      GetNodeStatusHandler_def PutV1RelayHeartbeatHandler_def GetRelaysHandler_def handler_log_defs Let_def
      cong del: prod.case_cong_weak option.case_cong_weak sum.case_cong_weak relays_phase.case_cong_weak if_weak_cong)

lemma handle_with_log [simp]: "handle (with_log lc S) W r rt s = handle S W r rt s"
  by (cases rt) simp_all

lemma handler_log_with_log [simp]: "handler_log (with_log lc S) W r rt s = handler_log S W r rt s"
  by (cases rt) simp_all

lemma request_with_log [simp]:
  "ServeHTTP (with_log lc S) W r s = ServeHTTP S W r s"
  "request_log (with_log lc S) W i r s = request_log S W i r s"
proof -
  have d: "dispatch (with_log lc S) W q t = dispatch S W q t" "dispatch_log (with_log lc S) W q t = dispatch_log S W q t" for q t
    by (auto simp: dispatch_def dispatch_log_def Let_def cong del: prod.case_cong_weak option.case_cong_weak)
  have l: "rate_limited (with_log lc S) W q t = rate_limited S W q t"
      "rate_limited_log (with_log lc S) W q t = rate_limited_log S W q t" for q t
    by (simp_all add: rate_limited_def rate_limited_log_def d cong del: prod.case_cong_weak option.case_cong_weak)
  show serve: "ServeHTTP (with_log lc S) W r s = ServeHTTP S W r s" by (simp add: ServeHTTP_def l)
  show "request_log (with_log lc S) W i r s = request_log S W i r s" by (simp add: request_log_def l serve)
qed

lemma serve_with_log [simp]: "serve (with_log lc S) qs s = serve S qs s"
  by (induction qs arbitrary: s) auto

lemma serve_counted:
  "counters (srv_metrics (fst (serve S qs s))) = add_counts (counters (srv_metrics s)) (counted (snd (serve S qs s)))"
proof (induction qs arbitrary: s)
  case Nil
  then show ?case by (simp add: counters_def counted_def)
next
  case (Cons q qs)
  obtain W i r where q: "q = (W, i, r)" by (cases q)
  from Cons [of "fst (ServeHTTP S W r s)"] show ?case
    by (simp add: q case_prod_unfold counted_append request_counted [of S W r s i] add_counts_assoc)
qed

section \<open>Properties\<close>

text \<open>C36.  The counters are what the log says: after any sequence of requests (any clients, clocks,
  faults and VPN answers) the counter of failed authentications has grown by the number of such
  warnings, the one of the rate limiter by the number of its warnings, and the counter of requests
  under each method, path label and status by the number of access lines with them (as the latency
  histogram has observations under each method and label); and there are
  as many lines of level error as access lines with status 500.  The log settings, which flags and
  file set and \<open>Validate\<close> checks, are read by nothing: whatever level and format they ask for, the
  answers, the states and the lines written are the same.\<close>

theorem log_matches_metrics:
  "let (s', ls) = serve S qs s; m = srv_metrics s; m' = srv_metrics s' in
   AuthFailuresTotal m' = AuthFailuresTotal m + count_where auth_failed ls \<and>
   RateLimitRejectedTotal m' = RateLimitRejectedTotal m + count_where limit_exceeded ls \<and>
   (\<forall>k. HTTPRequestsTotal m' k = HTTPRequestsTotal m k + count_where (access_of k) ls) \<and>
   (\<forall>h. length (HTTPRequestDuration m' h) = length (HTTPRequestDuration m h) + count_where (access_at h) ls) \<and>
   count_where error_line ls = count_where access_500 ls \<and>
   (\<forall>lc. serve (with_log lc S) qs s = (s', ls))"
  using serve_counted [of S qs s] serve_errors [of S qs s]
  by (auto simp: case_prod_unfold Let_def counters_def counted_def simp del: count_where_eq_0 dest: fun_cong)

end
