(* ===== verification/Access.thy ===== *)
theory Access
  imports Router
begin

text \<open>
  Who may change what: the properties of the protected routes that combine the middleware, the
  checks in the handlers and the tables.
\<close>

section \<open>Lemmas\<close>

lemma find_update_dead:
  "find (\<lambda>n. Node_ID n = i \<and> live n)
     (update_where (\<lambda>r. Node_ID r = i \<and> live r)
        (\<lambda>r. r\<lparr>Node_Status := ''deleted'', Node_DeletedAt := Some t, Node_UpdatedAt := t\<rparr>) ns) = None"
  by (induction ns) (auto simp: live_def)

lemma DeleteNode_live:
  assumes "n \<in> set (st_nodes st)" "live n"
  shows "\<exists>st'. DeleteNode no_faults t (Node_ID n) st = (st', None) \<and>
    GetNodeByID no_faults (Node_ID n) st' = Inl ErrNodeNotFound \<and> st_relays st' = st_relays st"
proof -
  have "count_where (\<lambda>r. Node_ID r = Node_ID n \<and> live r) (st_nodes st) \<noteq> 0" using assms by auto
  then show ?thesis
    by (simp add: DeleteNode_def exec_update_def Let_def GetNodeByID_no_faults find_update_dead
        del: count_where_eq_0)
qed

lemma DeleteRelay_present:
  assumes "relays_inv (st_relays st)" "i \<in> Relay_NodeID ` set (st_relays st)"
  shows "\<exists>st'. DeleteRelay no_faults i st = (st', None) \<and> GetRelayByNodeID no_faults i st' = Inl ErrRelayNotFound"
proof -
  have "count_where (\<lambda>r. Relay_NodeID r = i) (st_relays st) \<noteq> 0" using assms(2) by auto
  then have "DeleteRelay no_faults i st = (st\<lparr>st_relays := del_row i (st_relays st)\<rparr>, None)"
    by (simp add: DeleteRelay_def exec_delete_def del_row_def del: count_where_eq_0)
  moreover have "distinct (map Relay_NodeID (st_relays st))" using assms(1) by (simp add: relays_inv_def)
  ultimately show ?thesis by (simp add: GetRelayByNodeID_no_faults relay_rows.get_del)
qed

lemma row_of_storage [simp]:
  "Relay_StorageAvailableGB (row_of r) = Relay_StorageAvailableGB r"
  "Relay_StorageReservedGB (row_of r) = Relay_StorageReservedGB r"
  by (simp_all add: row_of_def Relay.defs RelayRow.defs)

text \<open>An announcement that the database takes: the row it leaves, and the others.\<close>

lemma UpsertRelay_announced:
  fixes t u :: time
  assumes "relays_inv (st_relays st)" "\<not> F (Exec Q_UpsertRelay)" "Node_ID n = rr_NodeID req"
  defines "st' \<equiv> fst (UpsertRelay F t (announced_relay u req n) st)"
  shows "\<exists>x. GetRelayByNodeID no_faults (rr_NodeID req) st' = Inr x \<and>
       Relay_NodeID x = rr_NodeID req \<and> Relay_URL x = rr_URL req \<and> Relay_Status x = ''active'' \<and>
       Relay_LastSeenAt x = u \<and> Relay_ReplicationFactor x \<noteq> 0 \<and>
       Relay_StorageAvailableGB x = (case rr_Storage req of Some s \<Rightarrow> AvailableGB s | None \<Rightarrow> Node_StorageAvailableGB n) \<and>
       (\<forall>old. GetRelayByNodeID no_faults (rr_NodeID req) st = Inr old \<longrightarrow> Relay_CreatedAt x = Relay_CreatedAt old)"
    and "j \<noteq> rr_NodeID req \<Longrightarrow> GetRelayByNodeID no_faults j st' = GetRelayByNodeID no_faults j st"
proof -
  let ?new = "row_of (RelayNow t (announced_relay u req n))"
  have keys: "distinct (map Relay_NodeID (st_relays st))" using assms(1) by (simp add: relays_inv_def)
  have st': "st_relays st' = upsert_row ?new (st_relays st)"
    using assms(2) by (simp add: st'_def UpsertRelay_def Let_def)
  have id: "Relay_NodeID ?new = rr_NodeID req" by (simp add: announced_relay_def assms(3))
  have lk: "get_row (st_relays st') j = (if j = rr_NodeID req then Some (merge_row (get_row (st_relays st) j) ?new)
      else get_row (st_relays st) j)" for j
    unfolding st' using relay_rows.get_put [OF keys, of ?new j] id by simp
  show "\<exists>x. GetRelayByNodeID no_faults (rr_NodeID req) st' = Inr x \<and>
       Relay_NodeID x = rr_NodeID req \<and> Relay_URL x = rr_URL req \<and> Relay_Status x = ''active'' \<and>
       Relay_LastSeenAt x = u \<and> Relay_ReplicationFactor x \<noteq> 0 \<and>
       Relay_StorageAvailableGB x = (case rr_Storage req of Some s \<Rightarrow> AvailableGB s | None \<Rightarrow> Node_StorageAvailableGB n) \<and>
       (\<forall>old. GetRelayByNodeID no_faults (rr_NodeID req) st = Inr old \<longrightarrow> Relay_CreatedAt x = Relay_CreatedAt old)"
  proof (intro exI conjI)
    show "GetRelayByNodeID no_faults (rr_NodeID req) st' =
        Inr (scanRelay (merge_row (get_row (st_relays st) (rr_NodeID req)) ?new))"
      by (simp add: GetRelayByNodeID_no_faults lk)
  qed (auto simp: merge_row_def scanRelay_row_of_created scanRelay_row_of RelayNow_def announced_relay_def assms(3)
      RelayStatusActive_def GetRelayByNodeID_no_faults split: option.splits)
  show "j \<noteq> rr_NodeID req \<Longrightarrow> GetRelayByNodeID no_faults j st' = GetRelayByNodeID no_faults j st"
    by (simp add: GetRelayByNodeID_no_faults lk)
qed

text \<open>A token of the right form passes the middleware.\<close>

lemma AuthMiddleware_formatted:
  assumes "bearer_token (Authorization r) = Some t" "prefix ''gc_'' t" "20 \<le> length t"
  shows "AuthMiddleware cfg r m = (m, None)"
  using assms by (auto simp: AuthMiddleware_def Let_def)

lemma dispatch_formatted:
  assumes "bearer_token (Authorization r) = Some t" "prefix ''gc_'' t" "20 \<le> length t"
  shows "dispatch S W r s = handle S W r (match W (Method r) (URLPath r)) s"
  using AuthMiddleware_formatted [OF assms] by (simp add: dispatch_def Let_def)

section \<open>Properties\<close>

text \<open>C4.  Deletion needs no valid key: with authentication on, a request whose bearer token merely
  has the form of a node key (\<open>gc_\<close> and twenty bytes or more; no node need ever have registered
  it) deletes any node through \<open>DELETE /v1/nodes/{id}\<close> and any relay through
  \<open>DELETE /relays/{id}\<close>.  Only the heartbeat \<open>PUT /v1/relays/{id}\<close> looks the key up: it answers
  401 to a token that is neither the admin key nor the key of that node, and changes nothing.\<close>

theorem formatted_token_deletes:
  assumes "bearer_token (Authorization r) = Some t" and "prefix ''gc_'' t" and "20 \<le> length t"
    and "db_inv (srv_store s)" and "wf_faults W = no_faults" and "i \<noteq> []"
  shows "(match W (Method r) (URLPath r) = R_DeleteNode i \<and>
      (\<exists>n\<in>set (st_nodes (srv_store s)). live n \<and> Node_ID n = i) \<longrightarrow>
      (case dispatch S W r s of (s', resp) \<Rightarrow>
         Status resp = 204 \<and> GetNodeByID no_faults i (srv_store s') = Inl ErrNodeNotFound)) \<and>
    (match W (Method r) (URLPath r) = R_DeleteRelay i \<and> i \<in> Relay_NodeID ` set (st_relays (srv_store s)) \<longrightarrow>
      (case dispatch S W r s of (s', resp) \<Rightarrow>
         Status resp = 204 \<and> GetRelayByNodeID no_faults i (srv_store s') = Inl ErrRelayNotFound)) \<and>
    (match W (Method r) (URLPath r) = R_PutV1Relay i \<and> RequireAuth (cfg_Auth (su_cfg S)) \<and>
     t \<noteq> AdminAPIKey (cfg_Auth (su_cfg S)) \<and> \<not> owns (su_cfg S) t i (srv_store s) \<longrightarrow>
      (case dispatch S W r s of (s', resp) \<Rightarrow> Status resp = 401 \<and> srv_store s' = srv_store s))"
proof (intro conjI impI)
  note disp = dispatch_formatted [OF assms(1-3), of S W s]
  assume a: "match W (Method r) (URLPath r) = R_DeleteNode i \<and>
      (\<exists>n\<in>set (st_nodes (srv_store s)). live n \<and> Node_ID n = i)"
  then obtain st' where "DeleteNode no_faults (wf_clk W 0) i (srv_store s) = (st', None)"
      "GetNodeByID no_faults i st' = Inl ErrNodeNotFound"
    using DeleteNode_live by metis
  then show "case dispatch S W r s of (s', resp) \<Rightarrow>
         Status resp = 204 \<and> GetNodeByID no_faults i (srv_store s') = Inl ErrNodeNotFound"
    using a assms(5,6) by (simp add: disp DeleteNodeHandler_def with_store_def)
next
  note disp = dispatch_formatted [OF assms(1-3), of S W s]
  assume a: "match W (Method r) (URLPath r) = R_DeleteRelay i \<and> i \<in> Relay_NodeID ` set (st_relays (srv_store s))"
  then obtain st' where "DeleteRelay no_faults i (srv_store s) = (st', None)"
      "GetRelayByNodeID no_faults i st' = Inl ErrRelayNotFound"
    using DeleteRelay_present [OF db_invD(2) [OF assms(4)]] by metis
  then show "case dispatch S W r s of (s', resp) \<Rightarrow>
         Status resp = 204 \<and> GetRelayByNodeID no_faults i (srv_store s') = Inl ErrRelayNotFound"
    using a assms(5,6) by (simp add: disp DeleteRelayHandler_def with_relays_def)
next
  note disp = dispatch_formatted [OF assms(1-3), of S W s]
  assume a: "match W (Method r) (URLPath r) = R_PutV1Relay i \<and> RequireAuth (cfg_Auth (su_cfg S)) \<and>
     t \<noteq> AdminAPIKey (cfg_Auth (su_cfg S)) \<and> \<not> owns (su_cfg S) t i (srv_store s)"
  then have "\<not> authorizeNodeOwnership no_faults (su_cfg S) r i (srv_store s)"
    using authorize_owns [of no_faults "su_cfg S" r i "srv_store s"] assms(1) by auto
  then show "case dispatch S W r s of (s', resp) \<Rightarrow> Status resp = 401 \<and> srv_store s' = srv_store s"
    using a assms(5,6) by (simp add: disp PutV1RelayHeartbeatHandler_def with_relays_def)
qed

theorem formatted_token_deletes_witness:
  "let (s', resp) = dispatch (sample_setup (auth_cfg True ''secret'')) (sample_world (R_DeleteNode ''a''))
         (sample_request ''DELETE'' ''/v1/nodes/a'' (''Bearer '' @ sample_key)) sample_server
   in Status resp = 204 \<and> GetNodeByID no_faults ''a'' (srv_store s') = Inl ErrNodeNotFound"
proof -
  let ?W = "sample_world (R_DeleteNode ''a'')"
  let ?r = "sample_request ''DELETE'' ''/v1/nodes/a'' (''Bearer '' @ sample_key)"
  have tok: "bearer_token (Authorization ?r) = Some sample_key"
    using bearer_token_Bearer [of sample_key] sample_key_ok(1) by (simp add: sample_request_def)
  have form: "prefix ''gc_'' sample_key" "20 \<le> length sample_key" by (simp_all add: sample_key_def)
  have "wf_faults ?W = no_faults" "''a'' \<noteq> []" by (simp_all add: sample_world_def)
  from formatted_token_deletes [OF tok form db_inv_sample_server this,
      of "sample_setup (auth_cfg True ''secret'')"]
  show ?thesis
    by (simp add: sample_world_def sample_store_def sample_node_def live_def Let_def)
qed

text \<open>C5.  The heartbeat \<open>PUT /v1/relays/{id}\<close> is safe: with authentication on, whatever the driver
  does, the database changes only for a bearer of the admin key or of that node's own key, only
  the row of that relay changes, and in it neither the creation time, the replication factor nor
  the capabilities; and after an answer of 200 the row holds what was sent, is active and was seen
  at the time of the update.\<close>

theorem heartbeat_v1_safe:
  assumes "RequireAuth (cfg_Auth cfg)" and "relays_inv (st_relays st)"
    and "decode_heartbeat_v1 J (RequestBody r) = (ok, req)"
    and "PutV1RelayHeartbeatHandler F clk J cfg r i (st, cache) = ((st', cache'), resp)"
  shows "(st' \<noteq> st \<longrightarrow> (\<exists>t. bearer_token (Authorization r) = Some t \<and> (t = AdminAPIKey (cfg_Auth cfg) \<or> owns cfg t i st))) \<and>
    st_nodes st' = st_nodes st \<and>
    (\<forall>j. j \<noteq> i \<longrightarrow> get_row (st_relays st') j = get_row (st_relays st) j) \<and>
    map_option (\<lambda>x. (Relay_CreatedAt x, Relay_ReplicationFactor x, Relay_Capabilities x)) (get_row (st_relays st') i) =
      map_option (\<lambda>x. (Relay_CreatedAt x, Relay_ReplicationFactor x, Relay_Capabilities x)) (get_row (st_relays st) i) \<and>
    (Status resp = 200 \<and> \<not> F (Exec Q_UpdateRelayFull) \<longrightarrow>
      (\<exists>x. get_row (st_relays st') i = Some x \<and> Relay_URL x = hv_URL req \<and> Relay_Fingerprint x = hv_Fingerprint req \<and>
        Relay_Version x = hv_Version req \<and> Relay_UptimeSecs x = hv_UptimeSecs req \<and>
        Some \<lparr>ReservedGB = Relay_StorageReservedGB x, AvailableGB = Relay_StorageAvailableGB x\<rparr> = hv_Storage req \<and>
        Relay_Status x = ''active'' \<and> Relay_LastSeenAt x = clk 1))"
proof -
  consider (err) "st' = st" "400 \<le> Status resp"
    | (upd) old where "authorizeNodeOwnership F cfg r i st" "check_heartbeat_v1 req = None" "GetRelayByNodeID F i st = Inr old"
        "st' = st \<and> 400 \<le> Status resp \<or> st' = fst (UpdateRelayFull F (clk 1) (heartbeat_relay (clk 0) req old) st)"
    using PutV1RelayHeartbeatHandler_outcome [OF assms(3), of F st cache clk cfg i] assms(4)
    by (auto simp: relay_outcome_def)
  then show ?thesis
  proof cases
    case upd
    have id: "Relay_NodeID old = i" "i \<in> Relay_NodeID ` set (st_relays st)" using scanRelay_InrD [OF upd(3)] by auto
    have keys: "distinct (map Relay_NodeID (st_relays st))" using assms(2) by (simp add: relays_inv_def)
    have stor: "\<exists>p. hv_Storage req = Some p"
      using upd(2) by (auto simp: check_heartbeat_v1_def split: option.splits if_splits)
    define f where "f = (\<lambda>x. x\<lparr>Relay_URL := hv_URL req, Relay_Fingerprint := hv_Fingerprint req,
        Relay_StorageReservedGB := (case hv_Storage req of Some s \<Rightarrow> ReservedGB s | None \<Rightarrow> 0),
        Relay_StorageAvailableGB := (case hv_Storage req of Some s \<Rightarrow> AvailableGB s | None \<Rightarrow> 0),
        Relay_Version := hv_Version req, Relay_UptimeSecs := hv_UptimeSecs req, Relay_Status := ''active'',
        Row_last_seen := clk 1, Relay_LastSeenAt := clk 1, Relay_UpdatedAt := clk 1\<rparr> :: RelayRow)"
    have st1: "fst (UpdateRelayFull F (clk 1) (heartbeat_relay (clk 0) req old) st) =
        (if F (Exec Q_UpdateRelayFull) then st else st\<lparr>st_relays := modify_row i f (st_relays st)\<rparr>)"
      by (simp add: UpdateRelayFull_def Let_def exec_update_def heartbeat_relay_def id(1) modify_row_def f_def
          case_prod_unfold)
    have row: "get_row (modify_row i f (st_relays st)) j =
        (if j = i then map_option f (get_row (st_relays st) j) else get_row (st_relays st) j)" for j
      using relay_rows.get_modify [OF keys, of f i j] by (simp add: f_def)
    obtain x where "get_row (st_relays st) i = Some x"
      using id(2) unfolding get_row_def by (metis not_Some_eq row_with_None)
    then show ?thesis
      using upd(4) st1 row authorize_owns [OF upd(1) assms(1)] stor by (auto simp: f_def)
  qed (use assms(4) in simp)
qed

theorem heartbeat_v1_safe_witness:
  "let ((st', _), resp) = PutV1RelayHeartbeatHandler no_faults (\<lambda>_. 9) (sample_json sample_key) (auth_cfg True ''secret'')
         (sample_request ''PUT'' ''/v1/relays/a'' ''Bearer other'') ''a'' (srv_store sample_server, None)
   in st_nodes st' = st_nodes (srv_store sample_server) \<and>
      get_row (st_relays st') ''b'' = get_row (st_relays (srv_store sample_server)) ''b''"
proof -
  let ?r = "sample_request ''PUT'' ''/v1/relays/a'' ''Bearer other''"
  obtain st' c' resp where run: "PutV1RelayHeartbeatHandler no_faults (\<lambda>_. 9) (sample_json sample_key)
      (auth_cfg True ''secret'') ?r ''a'' (srv_store sample_server, None) = ((st', c'), resp)"
    by (metis prod.collapse)
  have req: "RequireAuth (cfg_Auth (auth_cfg True ''secret''))" by (simp add: auth_cfg_def)
  from heartbeat_v1_safe [OF req db_invD(2) [OF db_inv_sample_server] surjective_pairing run] run
  show ?thesis by simp
qed



end
