(* ===== verification/Resolver.thy ===== *)
theory Resolver
  imports Config
begin

text \<open>
  Package \<open>internal/config\<close>, file \<open>resolver.go\<close>: the cascade that the server really
  uses at start-up (\<open>Resolve\<close>): the file or the defaults, the deprecated environment
  variables, the command-line flags, a generated admin key, the first-run file, and the
  validation.  The state it changes is the file system; the environment is a function to
  optional values (\<open>os.LookupEnv\<close>), the random bytes are an argument.
\<close>

section \<open>Sources, options, results\<close>

datatype ConfigSource =
    SourceCLIFlag
  | SourceConfigFile
  | SourceEnvVar
  | SourceGeneratedDefault
  | SourceHardcodedDefault

fun source_text :: "ConfigSource \<Rightarrow> string" where
  "source_text SourceCLIFlag = ''CLI flag''"
| "source_text SourceConfigFile = ''config.toml''"
| "source_text SourceEnvVar = ''env var''"
| "source_text SourceGeneratedDefault = ''generated default''"
| "source_text SourceHardcodedDefault = ''hardcoded default''"

type_synonym sources = "string \<Rightarrow> ConfigSource option"

record ResolvedConfig =
  res_Config :: Config
  res_Sources :: sources
  res_Warnings :: "string list"

record ResolveOptions =
  opt_ConfigPath :: string
  opt_Bind :: string
  opt_AdminAPIKey :: string
  opt_VPNProvider :: string
  opt_DBPath :: string
  opt_LogLevel :: string
  opt_LogFormat :: string
  opt_GenerateOnly :: bool
  opt_ValidateOnly :: bool

section \<open>The steps of the cascade\<close>

definition marked_fields :: "string list" where
  "marked_fields =
    [''server.bind'', ''auth.admin_api_key'', ''database.path'',
     ''vpn.provider'', ''vpn.tailscale_api_key'', ''vpn.tailscale_tailnet'',
     ''vpn.headscale_url'', ''vpn.headscale_api_key'', ''vpn.headscale_user'',
     ''vpn.key_expiry_hours'', ''ratelimit.requests_per_minute'',
     ''log.level'', ''log.format'']"

definition markAllFieldsAsSource :: "ConfigSource \<Rightarrow> sources \<Rightarrow> sources" where
  "markAllFieldsAsSource src sources = fold (\<lambda>f m. m(f \<mapsto> src)) marked_fields sources"

definition maskSecret :: "string \<Rightarrow> string" where
  "maskSecret s = (if length s \<le> 4 then ''****'' else take 4 s @ ''****'')"

record EnvMapping =
  envVar :: string
  field :: string
  cliFlag :: string
  apply_env :: "Config \<Rightarrow> string \<Rightarrow> Config"

definition set_bind :: "Config \<Rightarrow> string \<Rightarrow> Config" where
  "set_bind c v = cfg_Server_update (\<lambda>s. s\<lparr>Bind := v, Listen := v\<rparr>) c"

definition resolverEnvMappings :: "EnvMapping list" where
  "resolverEnvMappings =
    [\<lparr>envVar = ''COORD_BIND'', field = ''server.bind'', cliFlag = ''--bind'', apply_env = set_bind\<rparr>,
     \<lparr>envVar = ''COORD_LISTEN'', field = ''server.bind'', cliFlag = ''--bind'', apply_env = set_bind\<rparr>,
     \<lparr>envVar = ''COORD_ADMIN_API_KEY'', field = ''auth.admin_api_key'', cliFlag = ''--admin-api-key'',
       apply_env = (\<lambda>c v. cfg_Auth_update (\<lambda>a. a\<lparr>AdminAPIKey := v\<rparr>) c)\<rparr>,
     \<lparr>envVar = ''COORD_DB_PATH'', field = ''database.path'', cliFlag = ''--db-path'',
       apply_env = (\<lambda>c v. cfg_Database_update (\<lambda>d. d\<lparr>DB_Path := v\<rparr>) c)\<rparr>,
     \<lparr>envVar = ''COORD_VPN_PROVIDER'', field = ''vpn.provider'', cliFlag = ''--vpn-provider'',
       apply_env = (\<lambda>c v. cfg_VPN_update (\<lambda>x. x\<lparr>Provider := v\<rparr>) c)\<rparr>,
     \<lparr>envVar = ''COORD_TAILSCALE_API_KEY'', field = ''vpn.tailscale_api_key'', cliFlag = ''(none)'',
       apply_env = (\<lambda>c v. cfg_VPN_update (\<lambda>x. x\<lparr>TailscaleAPIKey := v\<rparr>) c)\<rparr>,
     \<lparr>envVar = ''COORD_HEADSCALE_URL'', field = ''vpn.headscale_url'', cliFlag = ''(none)'',
       apply_env = (\<lambda>c v. cfg_VPN_update (\<lambda>x. x\<lparr>HeadscaleURL := v, HeadscaleAPIURL := v\<rparr>) c)\<rparr>,
     \<lparr>envVar = ''COORD_LOG_LEVEL'', field = ''log.level'', cliFlag = ''--log-level'',
       apply_env = (\<lambda>c v. cfg_Log_update (\<lambda>l. l\<lparr>Log_Level := v\<rparr>) c)\<rparr>,
     \<lparr>envVar = ''COORD_LOG_FORMAT'', field = ''log.format'', cliFlag = ''--log-format'',
       apply_env = (\<lambda>c v. cfg_Log_update (\<lambda>l. l\<lparr>Log_Format := v\<rparr>) c)\<rparr>]"

text \<open>
  The deprecation text of one variable.  \<open>warn_sign\<close> and \<open>arrow\<close> are the UTF-8 bytes
  of the two symbols in the source's format string.
\<close>

definition warn_sign :: string where
  "warn_sign = [CHR 0xE2, CHR 0x9A, CHR 0xA0, CHR 0xEF, CHR 0xB8, CHR 0x8F]"

definition arrow :: string where
  "arrow = [CHR 0xE2, CHR 0x86, CHR 0x92]"

definition env_warning :: "string \<Rightarrow> EnvMapping \<Rightarrow> string \<Rightarrow> string" where
  "env_warning configPath m value =
     (let parts = Split CHR ''.'' (field m);
          section = parts ! 0;
          key = (if length parts > 1 then parts ! 1 else parts ! 0)
      in warn_sign @ ''  DEPRECATED: '' @ envVar m @ ''='' @ maskSecret value @ [CHR 0x0A] @
         ''   This env var will be removed in v0.3.0.'' @ [CHR 0x0A] @
         ''   Migrate now:  edit '' @ configPath @ '' '' @ arrow @ '' ['' @ section @ ''] '' @ key @
         [CHR 0x0A] @ ''   Or use flag:  '' @ cliFlag m @ '' '' @ value)"

definition env_step ::
  "(string \<Rightarrow> string option) \<Rightarrow> string \<Rightarrow> EnvMapping \<Rightarrow> Config \<times> sources \<times> string list
    \<Rightarrow> Config \<times> sources \<times> string list" where
  "env_step env configPath m st =
     (let (c, sources, warnings) = st in
      case env (envVar m) of
        None \<Rightarrow> st
      | Some value \<Rightarrow>
          if TrimSpace value = [] then st
          else
            let warnings' = warnings @ [env_warning configPath m value] in
            if sources (field m) = Some SourceHardcodedDefault \<or> sources (field m) = None
            then (apply_env m c value, sources(field m \<mapsto> SourceEnvVar), warnings')
            else (c, sources, warnings'))"

definition applyEnvOverridesWithSources ::
  "(string \<Rightarrow> string option) \<Rightarrow> string \<Rightarrow> Config \<times> sources \<times> string list \<Rightarrow> Config \<times> sources \<times> string list" where
  "applyEnvOverridesWithSources env configPath st =
     fold (env_step env configPath) resolverEnvMappings st"

definition cli_step ::
  "string \<Rightarrow> string \<Rightarrow> (Config \<Rightarrow> Config) \<Rightarrow> Config \<times> sources \<Rightarrow> Config \<times> sources" where
  "cli_step flag fld f st =
     (if flag \<noteq> [] then (f (fst st), (snd st)(fld \<mapsto> SourceCLIFlag)) else st)"

definition applyCLIOverrides :: "ResolveOptions \<Rightarrow> Config \<times> sources \<Rightarrow> Config \<times> sources" where
  "applyCLIOverrides o' st =
     (let st = cli_step (opt_Bind o') ''server.bind'' (\<lambda>c. set_bind c (opt_Bind o')) st;
          st = cli_step (opt_AdminAPIKey o') ''auth.admin_api_key''
                 (cfg_Auth_update (\<lambda>a. a\<lparr>AdminAPIKey := opt_AdminAPIKey o'\<rparr>)) st;
          st = cli_step (opt_VPNProvider o') ''vpn.provider''
                 (cfg_VPN_update (\<lambda>x. x\<lparr>Provider := opt_VPNProvider o'\<rparr>)) st;
          st = cli_step (opt_DBPath o') ''database.path''
                 (cfg_Database_update (\<lambda>d. d\<lparr>DB_Path := opt_DBPath o'\<rparr>)) st;
          st = cli_step (opt_LogLevel o') ''log.level''
                 (cfg_Log_update (\<lambda>l. l\<lparr>Log_Level := opt_LogLevel o'\<rparr>)) st
      in cli_step (opt_LogFormat o') ''log.format''
           (cfg_Log_update (\<lambda>l. l\<lparr>Log_Format := opt_LogFormat o'\<rparr>)) st)"

text \<open>\<open>rnd\<close> is the buffer of 32 bytes after \<open>rand.Read\<close>.\<close>

definition generateAdminKey :: "string \<Rightarrow> string" where
  "generateAdminKey rnd = EncodeToString rnd"

definition logResolvedConfig :: "Config \<Rightarrow> sources \<Rightarrow> (string \<times> string \<times> string) list" where
  "logResolvedConfig c sources =
     map (\<lambda>(name, value). (name, value,
            case sources name of None \<Rightarrow> ''implicit default'' | Some s \<Rightarrow> source_text s))
       [(''server.bind'', Bind (cfg_Server c)),
        (''auth.admin_api_key'', maskSecret (AdminAPIKey (cfg_Auth c))),
        (''database.path'', DB_Path (cfg_Database c)),
        (''vpn.provider'', Provider (cfg_VPN c)),
        (''ratelimit.requests_per_minute'', Itoa (RequestsPerMinute (cfg_RateLimit c))),
        (''log.level'', Log_Level (cfg_Log c)),
        (''log.format'', Log_Format (cfg_Log c))]"

section \<open>Resolve\<close>

datatype ResolveError =
    ResolveReadFailed string
  | ResolveParseFailed string
  | ResolveWriteFailed WriteError
  | ResolveInvalid ConfigError

text \<open>Step 4: a generated admin key when none is set.\<close>

definition fill_admin_key ::
  "string \<Rightarrow> Config \<times> sources \<times> string list \<Rightarrow> Config \<times> sources \<times> string list" where
  "fill_admin_key rnd st =
     (let (c, sources, warnings) = st in
      if TrimSpace (AdminAPIKey (cfg_Auth c)) = [] then
        let generated = generateAdminKey rnd in
        (cfg_Auth_update (\<lambda>a. a\<lparr>AdminAPIKey := generated\<rparr>) c,
         sources(''auth.admin_api_key'' \<mapsto> SourceGeneratedDefault),
         warnings @ [''Auto-generated admin_api_key: '' @ maskSecret generated])
      else st)"

text \<open>Steps 2 to 4, from a base configuration and its marked sources.\<close>

definition cascade ::
  "(string \<Rightarrow> string option) \<Rightarrow> string \<Rightarrow> string \<Rightarrow> ResolveOptions \<Rightarrow> bool \<Rightarrow> Config \<Rightarrow> sources
    \<Rightarrow> Config \<times> sources \<times> string list" where
  "cascade env rnd dflt opts autoGenerated c0 sources0 =
     (let (c1, sources1, warnings) =
            (if \<not> autoGenerated then applyEnvOverridesWithSources env dflt (c0, sources0, [])
             else (c0, sources0, []));
          (c2, sources2) = applyCLIOverrides opts (c1, sources1)
      in fill_admin_key rnd (c2, sources2, warnings))"

text \<open>Steps 6 and 7.\<close>

definition finish_resolve :: "Config \<times> sources \<times> string list \<Rightarrow> ResolveError + ResolvedConfig" where
  "finish_resolve st =
     (let (c, sources, warnings) = st in
      case Validate c of
        Some e \<Rightarrow> Inl (ResolveInvalid e)
      | None \<Rightarrow> Inr \<lparr>res_Config = c, res_Sources = sources, res_Warnings = warnings\<rparr>)"

definition Resolve ::
  "(string \<Rightarrow> Config \<Rightarrow> Config option) \<Rightarrow> (Config \<Rightarrow> string option) \<Rightarrow> (string \<Rightarrow> string option)
    \<Rightarrow> string \<Rightarrow> (fs_call \<Rightarrow> bool) \<Rightarrow> string \<Rightarrow> fs \<Rightarrow> ResolveOptions \<Rightarrow> fs \<times> (ResolveError + ResolvedConfig)" where
  "Resolve toml enc env rnd fails dflt disk opts =
     (let path = (if opt_ConfigPath opts = [] then dflt else opt_ConfigPath opts) in
      case (if fails (Stat path) then None else disk path) of
        Some (content, _) \<Rightarrow>
          if fails (ReadFile path) then (disk, Inl (ResolveReadFailed path))
          else (case toml content Defaults of
            None \<Rightarrow> (disk, Inl (ResolveParseFailed path))
          | Some c0 \<Rightarrow>
              (disk, finish_resolve
                 (cascade env rnd dflt opts False c0 (markAllFieldsAsSource SourceConfigFile Map.empty))))
      | None \<Rightarrow>
          let st = cascade env rnd dflt opts True Defaults
                     (markAllFieldsAsSource SourceHardcodedDefault Map.empty) in
          (case WriteConfig enc fails disk path (fst st) of
             (disk', Some e) \<Rightarrow> (disk', Inl (ResolveWriteFailed e))
           | (disk', None) \<Rightarrow>
               (disk', finish_resolve
                  (fst st, fst (snd st),
                   snd (snd st) @ [''Auto-generated config at '' @ path @
                     ''. Edit manually or re-run with flags.'']))))"


section \<open>Lemmas\<close>

lemma fold_map_upd:
  "fold (\<lambda>f m. m(f \<mapsto> src)) fs m f = (if f \<in> set fs then Some src else m f)"
  by (induction fs arbitrary: m) auto

lemma mark_lookup:
  "markAllFieldsAsSource src m f = (if f \<in> set marked_fields then Some src else m f)"
  by (simp add: markAllFieldsAsSource_def fold_map_upd)

lemma mapping_fields_marked: "\<forall>m\<in>set resolverEnvMappings. field m \<in> set marked_fields"
  by (simp add: resolverEnvMappings_def marked_fields_def)

text \<open>Where the file has been read, an environment step only adds a warning.\<close>

lemma env_step_from_file:
  assumes "sources (field m) = Some SourceConfigFile"
  shows "env_step env p m (c, sources, w) =
    (c, sources, (case env (envVar m) of
       Some v \<Rightarrow> if TrimSpace v = [] then w else w @ [env_warning p m v] | None \<Rightarrow> w))"
  using assms by (simp add: env_step_def Let_def split: option.split)

lemma env_steps_from_file:
  assumes "\<forall>m\<in>set ms. sources (field m) = Some SourceConfigFile"
  shows "\<exists>w'. fold (env_step env p) ms (c, sources, w) = (c, sources, w') \<and> set w \<subseteq> set w' \<and>
    (\<forall>m\<in>set ms. \<forall>v. env (envVar m) = Some v \<and> TrimSpace v \<noteq> [] \<longrightarrow> env_warning p m v \<in> set w')"
  using assms
proof (induction ms arbitrary: w)
  case (Cons m ms)
  let ?w = "case env (envVar m) of
       Some v \<Rightarrow> if TrimSpace v = [] then w else w @ [env_warning p m v] | None \<Rightarrow> w"
  have "fold (env_step env p) (m # ms) (c, sources, w) = fold (env_step env p) ms (c, sources, ?w)"
    using Cons.prems env_step_from_file by simp
  moreover obtain w' where "fold (env_step env p) ms (c, sources, ?w) = (c, sources, w')"
    "set ?w \<subseteq> set w'"
    "\<forall>m\<in>set ms. \<forall>v. env (envVar m) = Some v \<and> TrimSpace v \<noteq> [] \<longrightarrow> env_warning p m v \<in> set w'"
    using Cons.IH [of ?w] Cons.prems by auto
  ultimately show ?case by (auto split: option.splits if_splits)
qed simp

lemma applyEnv_from_file:
  obtains w where
    "applyEnvOverridesWithSources env p (c, markAllFieldsAsSource SourceConfigFile Map.empty, []) =
       (c, markAllFieldsAsSource SourceConfigFile Map.empty, w)"
    "\<forall>m\<in>set resolverEnvMappings. \<forall>v.
       env (envVar m) = Some v \<and> TrimSpace v \<noteq> [] \<longrightarrow> env_warning p m v \<in> set w"
proof -
  have "\<forall>m\<in>set resolverEnvMappings.
      markAllFieldsAsSource SourceConfigFile Map.empty (field m) = Some SourceConfigFile"
    using mapping_fields_marked by (simp add: mark_lookup)
  from env_steps_from_file [OF this] that show thesis
    unfolding applyEnvOverridesWithSources_def by blast
qed

text \<open>The cascade with its warnings left out, which does not mention the environment.\<close>

definition cascade_plain ::
  "string \<Rightarrow> ResolveOptions \<Rightarrow> Config \<Rightarrow> sources \<Rightarrow> Config \<times> sources" where
  "cascade_plain rnd opts c0 sources0 =
     (let (c, sources) = applyCLIOverrides opts (c0, sources0) in
      if TrimSpace (AdminAPIKey (cfg_Auth c)) = [] then
        (cfg_Auth_update (\<lambda>a. a\<lparr>AdminAPIKey := generateAdminKey rnd\<rparr>) c,
         sources(''auth.admin_api_key'' \<mapsto> SourceGeneratedDefault))
      else (c, sources))"

lemma fill_admin_key_plain:
  "\<exists>w'. fill_admin_key rnd (c, sources, w) =
     ((if TrimSpace (AdminAPIKey (cfg_Auth c)) = []
       then (cfg_Auth_update (\<lambda>a. a\<lparr>AdminAPIKey := generateAdminKey rnd\<rparr>) c,
             sources(''auth.admin_api_key'' \<mapsto> SourceGeneratedDefault), w')
       else (c, sources, w'))) \<and> set w \<subseteq> set w'"
  by (auto simp: fill_admin_key_def Let_def)

lemma cascade_no_env:
  assumes "autoGenerated \<or> sources0 = markAllFieldsAsSource SourceConfigFile Map.empty"
  shows "\<exists>w. cascade env rnd dflt opts autoGenerated c0 sources0 =
    (fst (cascade_plain rnd opts c0 sources0), snd (cascade_plain rnd opts c0 sources0), w) \<and>
    (\<not> autoGenerated \<longrightarrow> (\<forall>m\<in>set resolverEnvMappings. \<forall>v.
       env (envVar m) = Some v \<and> TrimSpace v \<noteq> [] \<longrightarrow> env_warning dflt m v \<in> set w))"
proof -
  let ?warn = "\<lambda>w. \<not> autoGenerated \<longrightarrow> (\<forall>m\<in>set resolverEnvMappings. \<forall>v.
       env (envVar m) = Some v \<and> TrimSpace v \<noteq> [] \<longrightarrow> env_warning dflt m v \<in> set w)"
  obtain w where w: "(if \<not> autoGenerated then applyEnvOverridesWithSources env dflt (c0, sources0, [])
      else (c0, sources0, [])) = (c0, sources0, w)" "?warn w"
    using assms applyEnv_from_file [of env dflt c0] by (cases autoGenerated) auto
  obtain c2 s2 where cli: "applyCLIOverrides opts (c0, sources0) = (c2, s2)" by fastforce
  have casc: "cascade env rnd dflt opts autoGenerated c0 sources0 = fill_admin_key rnd (c2, s2, w)"
    unfolding cascade_def w(1) by (simp add: cli)
  obtain w' where w': "fill_admin_key rnd (c2, s2, w) =
     (if TrimSpace (AdminAPIKey (cfg_Auth c2)) = []
       then (cfg_Auth_update (\<lambda>a. a\<lparr>AdminAPIKey := generateAdminKey rnd\<rparr>) c2,
             s2(''auth.admin_api_key'' \<mapsto> SourceGeneratedDefault), w')
       else (c2, s2, w'))" "set w \<subseteq> set w'"
    using fill_admin_key_plain by blast
  have "?warn w'" using w(2) w'(2) by blast
  moreover have "cascade env rnd dflt opts autoGenerated c0 sources0 =
     (fst (cascade_plain rnd opts c0 sources0), snd (cascade_plain rnd opts c0 sources0), w')"
    unfolding casc w'(1) cascade_plain_def by (simp add: cli)
  ultimately show ?thesis by (intro exI [of _ w'] conjI)
qed


lemma finish_resolve_strip:
  "map_sum id (res_Warnings_update (\<lambda>_. [])) (finish_resolve (c, sources, w)) =
   finish_resolve (c, sources, [])"
  by (simp add: finish_resolve_def split: option.split)

lemma finish_resolve_Inr:
  "finish_resolve (c, sources, w) = Inr r \<longleftrightarrow>
   well_configured c \<and> r = \<lparr>res_Config = c, res_Sources = sources, res_Warnings = w\<rparr>"
  by (auto simp: finish_resolve_def Validate_well_configured [symmetric] split: option.splits)

definition config_path :: "string \<Rightarrow> ResolveOptions \<Rightarrow> string" where
  "config_path dflt opts = (if opt_ConfigPath opts = [] then dflt else opt_ConfigPath opts)"

lemma Resolve_InrE:
  assumes "Resolve toml enc env rnd fails dflt disk opts = (disk', Inr r)"
  obtains (from_file) content mode c0 w where
    "disk (config_path dflt opts) = Some (content, mode)" "toml content Defaults = Some c0"
    "\<not> fails (Stat (config_path dflt opts))" "disk' = disk"
    "res_Config r = fst (cascade_plain rnd opts c0 (markAllFieldsAsSource SourceConfigFile Map.empty))"
    "res_Sources r = snd (cascade_plain rnd opts c0 (markAllFieldsAsSource SourceConfigFile Map.empty))"
    "well_configured (res_Config r)" "res_Warnings r = w"
    "\<forall>m\<in>set resolverEnvMappings. \<forall>v.
       env (envVar m) = Some v \<and> TrimSpace v \<noteq> [] \<longrightarrow> env_warning dflt m v \<in> set w"
  | (generated) body where
    "fails (Stat (config_path dflt opts)) \<or> disk (config_path dflt opts) = None"
    "enc (res_Config r) = Some body"
    "disk' = disk(config_path dflt opts \<mapsto> (config_header @ body, 384))"
    "res_Config r = fst (cascade_plain rnd opts Defaults (markAllFieldsAsSource SourceHardcodedDefault Map.empty))"
    "res_Sources r = snd (cascade_plain rnd opts Defaults (markAllFieldsAsSource SourceHardcodedDefault Map.empty))"
    "well_configured (res_Config r)"
proof (cases "if fails (Stat (config_path dflt opts)) then None else disk (config_path dflt opts)")
  case None
  let ?s = "markAllFieldsAsSource SourceHardcodedDefault Map.empty"
  let ?p = "config_path dflt opts"
  let ?pl = "cascade_plain rnd opts Defaults ?s"
  obtain w where w: "cascade env rnd dflt opts True Defaults ?s = (fst ?pl, snd ?pl, w)"
    using cascade_no_env by blast
  obtain body w' where body: "enc (fst ?pl) = Some body"
    "disk' = disk(?p \<mapsto> (config_header @ body, 384))"
    "finish_resolve (fst ?pl, snd ?pl, w') = Inr r"
    using assms None unfolding Resolve_def Let_def config_path_def [symmetric] w
    by (auto simp del: append.simps simp: WriteConfig_def split: if_splits option.splits)
  show thesis
    using body None by (intro generated [of body]) (auto simp: finish_resolve_Inr split: if_splits)
next
  case (Some cm)
  obtain content mode where cm: "cm = (content, mode)" by fastforce
  let ?s = "markAllFieldsAsSource SourceConfigFile Map.empty"
  from assms Some cm obtain c0 where c0: "toml content Defaults = Some c0"
    unfolding Resolve_def Let_def config_path_def [symmetric]
    by (auto split: if_splits option.splits)
  obtain w where w: "cascade env rnd dflt opts False c0 ?s =
      (fst (cascade_plain rnd opts c0 ?s), snd (cascade_plain rnd opts c0 ?s), w)"
    "\<forall>m\<in>set resolverEnvMappings. \<forall>v.
       env (envVar m) = Some v \<and> TrimSpace v \<noteq> [] \<longrightarrow> env_warning dflt m v \<in> set w"
    using cascade_no_env [of False] by blast
  have "disk' = disk"
    "finish_resolve (fst (cascade_plain rnd opts c0 ?s), snd (cascade_plain rnd opts c0 ?s), w) = Inr r"
    using assms Some cm c0 unfolding Resolve_def Let_def config_path_def [symmetric] w(1) [symmetric]
    by (auto split: if_splits)
  then show thesis
    using Some cm c0 w(2) by (intro from_file [of content mode c0 w]) (auto simp: finish_resolve_Inr split: if_splits)
qed

text \<open>What the flags and the generated key leave in the configuration and in the sources.\<close>

definition with_flags :: "ResolveOptions \<Rightarrow> Config \<Rightarrow> Config" where
  "with_flags opts c =
     c\<lparr>cfg_Server := (cfg_Server c)\<lparr>Bind := or_string (Bind (cfg_Server c)) (opt_Bind opts),
                                  Listen := or_string (Listen (cfg_Server c)) (opt_Bind opts)\<rparr>,
       cfg_Auth := (cfg_Auth c)\<lparr>AdminAPIKey := or_string (AdminAPIKey (cfg_Auth c)) (opt_AdminAPIKey opts)\<rparr>,
       cfg_VPN := (cfg_VPN c)\<lparr>Provider := or_string (Provider (cfg_VPN c)) (opt_VPNProvider opts)\<rparr>,
       cfg_Database := (cfg_Database c)\<lparr>DB_Path := or_string (DB_Path (cfg_Database c)) (opt_DBPath opts)\<rparr>,
       cfg_Log := (cfg_Log c)\<lparr>Log_Level := or_string (Log_Level (cfg_Log c)) (opt_LogLevel opts),
                            Log_Format := or_string (Log_Format (cfg_Log c)) (opt_LogFormat opts)\<rparr>\<rparr>"

lemma fst_cli_step: "fst (cli_step flag fld f st) = (if flag \<noteq> [] then f (fst st) else fst st)"
  by (simp add: cli_step_def)

lemma applyCLIOverrides_config: "fst (applyCLIOverrides opts (c, s)) = with_flags opts c"
proof -
  have bind: "(if v \<noteq> [] then set_bind d v else d) =
      d\<lparr>cfg_Server := (cfg_Server d)\<lparr>Bind := or_string (Bind (cfg_Server d)) v,
        Listen := or_string (Listen (cfg_Server d)) v\<rparr>\<rparr>" for d v
    by (simp add: set_bind_def or_string_def)
  have key: "(if v \<noteq> [] then cfg_Auth_update (\<lambda>a. a\<lparr>AdminAPIKey := v\<rparr>) d else d) =
      d\<lparr>cfg_Auth := (cfg_Auth d)\<lparr>AdminAPIKey := or_string (AdminAPIKey (cfg_Auth d)) v\<rparr>\<rparr>" for d v
    by (simp add: or_string_def)
  have prov: "(if v \<noteq> [] then cfg_VPN_update (\<lambda>a. a\<lparr>Provider := v\<rparr>) d else d) =
      d\<lparr>cfg_VPN := (cfg_VPN d)\<lparr>Provider := or_string (Provider (cfg_VPN d)) v\<rparr>\<rparr>" for d v
    by (simp add: or_string_def)
  have db: "(if v \<noteq> [] then cfg_Database_update (\<lambda>a. a\<lparr>DB_Path := v\<rparr>) d else d) =
      d\<lparr>cfg_Database := (cfg_Database d)\<lparr>DB_Path := or_string (DB_Path (cfg_Database d)) v\<rparr>\<rparr>" for d v
    by (simp add: or_string_def)
  have lev: "(if v \<noteq> [] then cfg_Log_update (\<lambda>a. a\<lparr>Log_Level := v\<rparr>) d else d) =
      d\<lparr>cfg_Log := (cfg_Log d)\<lparr>Log_Level := or_string (Log_Level (cfg_Log d)) v\<rparr>\<rparr>" for d v
    by (simp add: or_string_def)
  have fmt: "(if v \<noteq> [] then cfg_Log_update (\<lambda>a. a\<lparr>Log_Format := v\<rparr>) d else d) =
      d\<lparr>cfg_Log := (cfg_Log d)\<lparr>Log_Format := or_string (Log_Format (cfg_Log d)) v\<rparr>\<rparr>" for d v
    by (simp add: or_string_def)
  show ?thesis
    unfolding applyCLIOverrides_def Let_def fst_cli_step bind key prov db lev fmt with_flags_def
    by simp
qed

lemma cascade_plain_config:
  "fst (cascade_plain rnd opts c0 s0) =
   (let c = with_flags opts c0 in
    if blank (AdminAPIKey (cfg_Auth c))
    then cfg_Auth_update (\<lambda>a. a\<lparr>AdminAPIKey := generateAdminKey rnd\<rparr>) c else c)"
proof -
  obtain c s where "applyCLIOverrides opts (c0, s0) = (c, s)" by fastforce
  moreover from this have "c = with_flags opts c0"
    using applyCLIOverrides_config by (metis fst_conv)
  ultimately show ?thesis by (simp add: cascade_plain_def blank_def Let_def)
qed

lemma with_flags_simps [simp]:
  "Bind (cfg_Server (with_flags opts c)) = or_string (Bind (cfg_Server c)) (opt_Bind opts)"
  "Listen (cfg_Server (with_flags opts c)) = or_string (Listen (cfg_Server c)) (opt_Bind opts)"
  "AdminAPIKey (cfg_Auth (with_flags opts c)) = or_string (AdminAPIKey (cfg_Auth c)) (opt_AdminAPIKey opts)"
  "Provider (cfg_VPN (with_flags opts c)) = or_string (Provider (cfg_VPN c)) (opt_VPNProvider opts)"
  "DB_Path (cfg_Database (with_flags opts c)) = or_string (DB_Path (cfg_Database c)) (opt_DBPath opts)"
  "Log_Level (cfg_Log (with_flags opts c)) = or_string (Log_Level (cfg_Log c)) (opt_LogLevel opts)"
  "Log_Format (cfg_Log (with_flags opts c)) = or_string (Log_Format (cfg_Log c)) (opt_LogFormat opts)"
  "cfg_RateLimit (with_flags opts c) = cfg_RateLimit c"
  "cfg_Jobs (with_flags opts c) = cfg_Jobs c"
  "cfg_Registry (with_flags opts c) = cfg_Registry c"
  "Enabled (cfg_VPN (with_flags opts c)) = Enabled (cfg_VPN c)"
  "RequireAuth (cfg_Auth (with_flags opts c)) = RequireAuth (cfg_Auth c)"
  "PublicPaths (cfg_Auth (with_flags opts c)) = PublicPaths (cfg_Auth c)"
  by (simp_all add: with_flags_def)


lemma Resolve_from_file:
  assumes "disk (config_path dflt opts) = Some (content, mode)" "toml content Defaults = Some c0"
    "\<And>x. \<not> fails x"
    "well_configured (fst (cascade_plain rnd opts c0 (markAllFieldsAsSource SourceConfigFile Map.empty)))"
  shows "\<exists>r. Resolve toml enc env rnd fails dflt disk opts = (disk, Inr r)"
proof -
  let ?pl = "cascade_plain rnd opts c0 (markAllFieldsAsSource SourceConfigFile Map.empty)"
  obtain w where w: "cascade env rnd dflt opts False c0 (markAllFieldsAsSource SourceConfigFile Map.empty) =
      (fst ?pl, snd ?pl, w)"
    using cascade_no_env [of False] by blast
  have "\<exists>r. finish_resolve (fst ?pl, snd ?pl, w) = Inr r"
    using assms(4) by (simp add: finish_resolve_Inr)
  then show ?thesis
    using assms(1-3) unfolding Resolve_def Let_def config_path_def [symmetric] by (auto simp: w)
qed

lemma generated_key_not_blank: "rnd \<noteq> [] \<Longrightarrow> \<not> blank (generateAdminKey rnd)"
  by (cases rnd) (auto simp: blank_def generateAdminKey_def, simp add: EncodeToString_Cons)

section \<open>Properties\<close>


lemma Resolve_valid_config:
  assumes "Resolve toml enc env rnd fails dflt disk opts = (disk', Inr r)" and "length rnd = 32"
  shows "well_configured (res_Config r) \<and> \<not> blank (AdminAPIKey (cfg_Auth (res_Config r)))"
proof -
  have "\<not> blank (generateAdminKey rnd)" using assms(2) by (intro generated_key_not_blank) auto
  with assms(1) show ?thesis
    by (elim Resolve_InrE) (auto simp: cascade_plain_config Let_def split: if_splits)
qed

text \<open>A resolved configuration is well formed and its admin key is not blank, even when
  authentication is off, since a missing key is replaced by 64 random hexadecimal digits.\<close>

theorem Resolve_valid:
  assumes "Resolve toml enc env rnd fails dflt disk opts = (disk', Inr r)" and "length rnd = 32"
  shows "well_configured (res_Config r) \<and> \<not> blank (AdminAPIKey (cfg_Auth (res_Config r)))"
  using assms by (rule Resolve_valid_config)

definition test_opts :: ResolveOptions where
  "test_opts = \<lparr>opt_ConfigPath = ''/c'', opt_Bind = ''0.0.0.0:9090'', opt_AdminAPIKey = [],
     opt_VPNProvider = [], opt_DBPath = [], opt_LogLevel = ''debug'', opt_LogFormat = [],
     opt_GenerateOnly = False, opt_ValidateOnly = False\<rparr>"

definition test_env :: "string \<Rightarrow> string option" where
  "test_env = [''COORD_ADMIN_API_KEY'' \<mapsto> ''s3cret-value'']"

definition test_disk :: fs where
  "test_disk = [''/c'' \<mapsto> (''x'', 420)]"

lemma Resolve_test:
  "\<exists>r. Resolve (\<lambda>_ _. Some test_cfg) (\<lambda>_. Some ''b'') test_env (replicate 32 CHR 0x01) (\<lambda>_. False) ''/d''
     test_disk test_opts = (test_disk, Inr r)"
proof (rule Resolve_from_file)
  show "test_disk (config_path ''/d'' test_opts) = Some (''x'', 420)"
    by (simp add: test_disk_def config_path_def test_opts_def)
  show "well_configured (fst (cascade_plain (replicate 32 CHR 0x01) test_opts test_cfg
    (markAllFieldsAsSource SourceConfigFile Map.empty)))"
    unfolding cascade_plain_config by code_simp
qed simp_all

theorem Resolve_valid_witness:
  "\<exists>r. Resolve (\<lambda>_ _. Some test_cfg) (\<lambda>_. Some ''b'') test_env (replicate 32 CHR 0x01) (\<lambda>_. False) ''/d''
     test_disk test_opts = (test_disk, Inr r) \<and> well_configured (res_Config r)"
proof -
  obtain r where r: "Resolve (\<lambda>_ _. Some test_cfg) (\<lambda>_. Some ''b'') test_env (replicate 32 CHR 0x01)
     (\<lambda>_. False) ''/d'' test_disk test_opts = (test_disk, Inr r)"
    using Resolve_test by blast
  from Resolve_valid [OF this] have "well_configured (res_Config r)" by simp
  with r show ?thesis by blast
qed


lemma cli_sources:
  "snd (cli_step flag fld f st) x = (if flag \<noteq> [] \<and> x = fld then Some SourceCLIFlag else snd st x)"
  by (simp add: cli_step_def)

lemma cascade_plain_sources:
  "(opt_Bind opts \<noteq> [] \<longrightarrow> snd (cascade_plain rnd opts c s) ''server.bind'' = Some SourceCLIFlag) \<and>
   (opt_VPNProvider opts \<noteq> [] \<longrightarrow> snd (cascade_plain rnd opts c s) ''vpn.provider'' = Some SourceCLIFlag) \<and>
   (opt_DBPath opts \<noteq> [] \<longrightarrow> snd (cascade_plain rnd opts c s) ''database.path'' = Some SourceCLIFlag) \<and>
   (opt_LogLevel opts \<noteq> [] \<longrightarrow> snd (cascade_plain rnd opts c s) ''log.level'' = Some SourceCLIFlag) \<and>
   (opt_LogFormat opts \<noteq> [] \<longrightarrow> snd (cascade_plain rnd opts c s) ''log.format'' = Some SourceCLIFlag) \<and>
   (\<not> blank (opt_AdminAPIKey opts) \<longrightarrow>
      snd (cascade_plain rnd opts c s) ''auth.admin_api_key'' = Some SourceCLIFlag)"
proof -
  have cli: "snd (applyCLIOverrides opts (c, s)) x =
    (if opt_LogFormat opts \<noteq> [] \<and> x = ''log.format'' \<or> opt_LogLevel opts \<noteq> [] \<and> x = ''log.level'' \<or>
        opt_DBPath opts \<noteq> [] \<and> x = ''database.path'' \<or> opt_VPNProvider opts \<noteq> [] \<and> x = ''vpn.provider'' \<or>
        opt_AdminAPIKey opts \<noteq> [] \<and> x = ''auth.admin_api_key'' \<or> opt_Bind opts \<noteq> [] \<and> x = ''server.bind''
     then Some SourceCLIFlag else s x)" for x
    unfolding applyCLIOverrides_def Let_def cli_sources by simp
  have key: "\<not> blank (opt_AdminAPIKey opts) \<Longrightarrow>
      TrimSpace (AdminAPIKey (cfg_Auth (fst (applyCLIOverrides opts (c, s))))) \<noteq> [] \<and>
      opt_AdminAPIKey opts \<noteq> []"
    by (auto simp: applyCLIOverrides_config blank_def or_string_def)
  obtain c' s' where app: "applyCLIOverrides opts (c, s) = (c', s')" by fastforce
  have "snd (cascade_plain rnd opts c s) x = s' x" if "x \<noteq> ''auth.admin_api_key''" for x
    using that by (simp add: cascade_plain_def app)
  moreover have "\<not> blank (opt_AdminAPIKey opts) \<Longrightarrow> snd (cascade_plain rnd opts c s) = s'"
    using key by (simp add: cascade_plain_def app)
  ultimately show ?thesis
    using cli key unfolding app by simp
qed

lemma or_string_flag: "v \<noteq> [] \<Longrightarrow> or_string d v = v"
  by simp

text \<open>C25.  A command-line flag wins over the file and over the defaults: each nonempty flag is
  the value of its field in the resolved configuration (the bind flag sets both addresses), and
  the field's source says so; the admin-key flag counts when it is not blank.\<close>

theorem Resolve_flags_win:
  assumes "Resolve toml enc env rnd fails dflt disk opts = (disk', Inr r)"
  shows "(opt_Bind opts \<noteq> [] \<longrightarrow> Bind (cfg_Server (res_Config r)) = opt_Bind opts \<and>
       Listen (cfg_Server (res_Config r)) = opt_Bind opts \<and>
       res_Sources r ''server.bind'' = Some SourceCLIFlag) \<and>
    (opt_VPNProvider opts \<noteq> [] \<longrightarrow> Provider (cfg_VPN (res_Config r)) = opt_VPNProvider opts \<and>
       res_Sources r ''vpn.provider'' = Some SourceCLIFlag) \<and>
    (opt_DBPath opts \<noteq> [] \<longrightarrow> DB_Path (cfg_Database (res_Config r)) = opt_DBPath opts \<and>
       res_Sources r ''database.path'' = Some SourceCLIFlag) \<and>
    (opt_LogLevel opts \<noteq> [] \<longrightarrow> Log_Level (cfg_Log (res_Config r)) = opt_LogLevel opts \<and>
       res_Sources r ''log.level'' = Some SourceCLIFlag) \<and>
    (opt_LogFormat opts \<noteq> [] \<longrightarrow> Log_Format (cfg_Log (res_Config r)) = opt_LogFormat opts \<and>
       res_Sources r ''log.format'' = Some SourceCLIFlag) \<and>
    (\<not> blank (opt_AdminAPIKey opts) \<longrightarrow> AdminAPIKey (cfg_Auth (res_Config r)) = opt_AdminAPIKey opts \<and>
       res_Sources r ''auth.admin_api_key'' = Some SourceCLIFlag)"
proof -
  obtain c0 s0 where c: "res_Config r = fst (cascade_plain rnd opts c0 s0)"
      "res_Sources r = snd (cascade_plain rnd opts c0 s0)"
    using assms by (elim Resolve_InrE) blast+
  have "\<not> blank k \<Longrightarrow> k \<noteq> []" for k by auto
  then show ?thesis
    using cascade_plain_sources [of opts rnd c0 s0] unfolding c cascade_plain_config
    by (auto simp: Let_def)
qed

theorem Resolve_flags_win_witness:
  "\<exists>r. Resolve (\<lambda>_ _. Some test_cfg) (\<lambda>_. Some ''b'') test_env (replicate 32 CHR 0x01) (\<lambda>_. False) ''/d''
     test_disk test_opts = (test_disk, Inr r) \<and>
     Bind (cfg_Server (res_Config r)) = ''0.0.0.0:9090'' \<and> Bind (cfg_Server test_cfg) = ''0.0.0.0:8080'' \<and>
     res_Sources r ''server.bind'' = Some SourceCLIFlag"
proof -
  obtain r where r: "Resolve (\<lambda>_ _. Some test_cfg) (\<lambda>_. Some ''b'') test_env (replicate 32 CHR 0x01)
     (\<lambda>_. False) ''/d'' test_disk test_opts = (test_disk, Inr r)"
    using Resolve_test by blast
  from Resolve_flags_win [OF this] have "Bind (cfg_Server (res_Config r)) = ''0.0.0.0:9090''"
      "res_Sources r ''server.bind'' = Some SourceCLIFlag"
    by (auto simp: test_opts_def)
  moreover have "Bind (cfg_Server test_cfg) = ''0.0.0.0:8080''"
    by (simp add: test_cfg_def Defaults_def)
  ultimately show ?thesis using r by blast
qed

text \<open>C26.  The deprecation warnings leak: when a configuration file is present and one of the
  mapped variables is set, some warning ends with the variable's whole value, although the same
  text masks it where it names the variable (\<open>COORD_ADMIN_API_KEY\<close> and the VPN keys are
  secrets, and every warning is logged).\<close>

theorem Resolve_warning_leaks_value:
  assumes "Resolve toml enc env rnd fails dflt disk opts = (disk', Inr r)"
    and "disk (config_path dflt opts) \<noteq> None" and "\<not> fails (Stat (config_path dflt opts))"
    and "m \<in> set resolverEnvMappings" and "env (envVar m) = Some v" and "\<not> blank v"
  shows "\<exists>w\<in>set (res_Warnings r). suffix v w"
proof -
  have "env_warning dflt m v \<in> set (res_Warnings r)"
    using assms by (elim Resolve_InrE) (auto simp: blank_def)
  moreover have "suffix v (env_warning dflt m v)"
    by (auto simp: env_warning_def Let_def suffix_def)
  ultimately show ?thesis by blast
qed

theorem Resolve_warning_leaks_value_witness:
  "\<exists>r. Resolve (\<lambda>_ _. Some test_cfg) (\<lambda>_. Some ''b'') test_env (replicate 32 CHR 0x01) (\<lambda>_. False) ''/d''
     test_disk test_opts = (test_disk, Inr r) \<and> (\<exists>w\<in>set (res_Warnings r). suffix ''s3cret-value'' w)"
proof -
  obtain r where r: "Resolve (\<lambda>_ _. Some test_cfg) (\<lambda>_. Some ''b'') test_env (replicate 32 CHR 0x01)
     (\<lambda>_. False) ''/d'' test_disk test_opts = (test_disk, Inr r)"
    using Resolve_test by blast
  let ?m = "resolverEnvMappings ! 2"
  have m: "?m \<in> set resolverEnvMappings" "envVar ?m = ''COORD_ADMIN_API_KEY''"
    by (simp_all add: resolverEnvMappings_def)
  have "\<exists>w\<in>set (res_Warnings r). suffix ''s3cret-value'' w"
  proof (rule Resolve_warning_leaks_value [OF r _ _ m(1)])
    show "\<not> blank ''s3cret-value''" by code_simp
  qed (simp_all add: m(2) test_env_def test_disk_def config_path_def test_opts_def)
  with r show ?thesis by blast
qed



end
