(* ===== verification/Startup.thy ===== *)
theory Startup
  imports Resolver Store_Base Vpn
begin

text \<open>
  Package \<open>internal/startup\<close>: the component checks made at start and the banner printed from them.
  The texts of errors are parameters (\<open>error_texts\<close>); the symbols of the banner are their UTF-8
  bytes.  A printed text is a list of strings, one for each \<open>Println\<close> or \<open>Printf\<close>, without the
  newline at its end.
\<close>

section \<open>The checks (banner.go)\<close>

record ComponentStatus =
  cs_Name :: string
  cs_OK :: bool
  cs_Details :: string
  cs_Warning :: string

record error_texts =
  stat_text :: string
  store_text :: "store_error \<Rightarrow> string"
  vpn_text :: "VpnError \<Rightarrow> string"

definition MaskSecret :: "string \<Rightarrow> string" where
  "MaskSecret s = (if length s \<le> 4 then ''****'' else take 4 s @ ''****'')"

definition status_ok :: "string \<Rightarrow> string \<Rightarrow> ComponentStatus" where
  "status_ok name details = \<lparr>cs_Name = name, cs_OK = True, cs_Details = details, cs_Warning = []\<rparr>"

definition status_bad :: "string \<Rightarrow> string \<Rightarrow> string \<Rightarrow> ComponentStatus" where
  "status_bad name details warning = \<lparr>cs_Name = name, cs_OK = False, cs_Details = details, cs_Warning = warning\<rparr>"

text \<open>\<open>exists\<close> is whether \<open>os.Stat\<close> of the path succeeds.\<close>

definition check_config :: "error_texts \<Rightarrow> (string \<Rightarrow> bool) \<Rightarrow> string \<Rightarrow> ComponentStatus" where
  "check_config T exists configPath =
     (if exists configPath then status_ok ''Config'' configPath
      else status_bad ''Config'' configPath (''not found ('' @ stat_text T @ '')''))"

definition check_database :: "error_texts \<Rightarrow> faults \<Rightarrow> Config \<Rightarrow> SQLiteStore option \<Rightarrow> ComponentStatus" where
  "check_database T F cfg db =
     (case db of
        None \<Rightarrow> status_bad ''Database'' (DB_Path (cfg_Database cfg)) ''not initialized''
      | Some st \<Rightarrow>
          (case TableCount F st of
             Inr n \<Rightarrow> status_ok ''Database'' (DB_Path (cfg_Database cfg) @ '' (SQLite WAL, '' @ Itoa n @ '' tables)'')
           | Inl e \<Rightarrow> status_bad ''Database'' (DB_Path (cfg_Database cfg)) (''unreachable: '' @ store_text T e)))"

definition long_dash :: string where
  "long_dash = [CHR 0xE2, CHR 0x80, CHR 0x94]"

definition check_auth :: "Config \<Rightarrow> ComponentStatus" where
  "check_auth cfg =
     (if TrimSpace (AdminAPIKey (cfg_Auth cfg)) \<noteq> []
      then status_ok ''Auth'' (''Admin API key loaded ('' @ MaskSecret (AdminAPIKey (cfg_Auth cfg)) @ '')'')
      else status_bad ''Auth'' [] (''admin_api_key is empty '' @ long_dash @ '' all admin endpoints will reject requests''))"

definition check_vpn ::
  "error_texts \<Rightarrow> vpn_world \<Rightarrow> Config \<Rightarrow> VPNProvider option \<Rightarrow> Metrics \<Rightarrow> Metrics \<times> ComponentStatus" where
  "check_vpn T W cfg vpnProvider m =
     (let v = cfg_VPN cfg in
      if Provider v = [] then (m, status_ok ''VPN'' ''disabled (no provider configured)'')
      else case vpnProvider of
        None \<Rightarrow> (m, status_bad ''VPN'' (Provider v @ '' configured'')
                      (''provider interface is nil '' @ long_dash @ '' check initialization''))
      | Some p \<Rightarrow>
          (case ProviderHealthCheck W p m of
             (m', Some e) \<Rightarrow> (m', status_bad ''VPN'' (Provider v @ '' configured'')
                (vpn_text T e @ CHR 0x0A # arrow @ '' node registration will work but VPN keys will NOT be generated'' @
                 CHR 0x0A # arrow @ '' Fix: verify vpn.'' @ Provider v @ ''_api_key in config.toml''))
           | (m', None) \<Rightarrow>
               let detail = Provider v;
                   detail = (if Provider v = ''tailscale'' \<and> TailscaleTailnet v \<noteq> []
                             then detail @ '' (tailnet: '' @ TailscaleTailnet v @ '')'' else detail);
                   detail = (if Provider v = ''headscale'' \<and> HeadscaleURL v \<noteq> []
                             then detail @ '' (url: '' @ HeadscaleURL v @ '')'' else detail)
               in (m', status_ok ''VPN'' detail)))"

definition check_limit :: "Config \<Rightarrow> ComponentStatus" where
  "check_limit cfg = status_ok ''Rate Limit'' (Itoa (RequestsPerMinute (cfg_RateLimit cfg)) @ '' req/min'')"

definition RunChecks ::
  "error_texts \<Rightarrow> (string \<Rightarrow> bool) \<Rightarrow> faults \<Rightarrow> vpn_world \<Rightarrow> string \<Rightarrow> string \<Rightarrow> Config \<Rightarrow>
   SQLiteStore option \<Rightarrow> VPNProvider option \<Rightarrow> Metrics \<Rightarrow> Metrics \<times> ComponentStatus list" where
  "RunChecks T exists F W dflt configPath0 cfg db vpnProvider m =
     (let configPath = (if configPath0 = [] then dflt else configPath0);
          (m', vpn) = check_vpn T W cfg vpnProvider m
      in (m', [check_config T exists configPath, check_database T F cfg db, check_auth cfg, vpn, check_limit cfg]))"

section \<open>The banner\<close>

definition green_circle :: string where "green_circle = [CHR 0xF0, CHR 0x9F, CHR 0x9F, CHR 0xA2]"
definition check_mark :: string where "check_mark = [CHR 0xE2, CHR 0x9C, CHR 0x85]"
definition cross_mark :: string where "cross_mark = [CHR 0xE2, CHR 0x9D, CHR 0x8C]"

definition ready_line :: string where
  "ready_line = green_circle @ '' Ready to accept connections''"

definition degraded_line :: string where
  "degraded_line = warn_sign @ ''  Starting with degraded functionality''"

definition listening_line :: "string \<Rightarrow> string" where
  "listening_line addr = ''   Listening on '' @ addr"

definition max_name_len :: "ComponentStatus list \<Rightarrow> nat" where
  "max_name_len statuses = fold (\<lambda>s n. if length (cs_Name s) > n then length (cs_Name s) else n) statuses 0"

text \<open>
  The lines of one component.  \<open>strings.Repeat\<close> would panic on a negative count: the count here,
  the longest name less this one plus one, never is (\<open>name_within_max\<close>).
\<close>

definition component_lines :: "nat \<Rightarrow> ComponentStatus \<Rightarrow> string list" where
  "component_lines maxNameLen s =
     (let icon = (if cs_OK s then check_mark else cross_mark);
          padding = replicate (maxNameLen - length (cs_Name s) + 1) CHR '' ''
      in (''   '' @ cs_Name s @ '':'' @ padding @ icon @ '' '' @ cs_Details s) #
         (if cs_Warning s \<noteq> []
          then map (\<lambda>line. ''   '' @ replicate maxNameLen CHR '' '' @ ''  '' @ arrow @ '' '' @ line)
                 (Split CHR 0x0A (cs_Warning s))
          else []))"

definition PrintBanner :: "string \<Rightarrow> string \<Rightarrow> ComponentStatus list \<Rightarrow> string list" where
  "PrintBanner version listenAddr statuses =
     (let maxNameLen = max_name_len statuses;
          hasWarnings = list_ex (\<lambda>s. \<not> cs_OK s) statuses
      in [[], green_circle @ '' Goy Coord-Server '' @ version @ '' starting''] @
         concat (map (component_lines maxNameLen) statuses) @
         [listening_line listenAddr, if hasWarnings then degraded_line else ready_line, []])"

lemmas check_defs = check_config_def check_database_def check_auth_def check_vpn_def check_limit_def
lemmas status_defs = status_ok_def status_bad_def

section \<open>Lemmas\<close>

lemma max_name_fold:
  "fold (\<lambda>s n. if length (cs_Name s) > n then length (cs_Name s) else n) ss n =
   Max (insert n ((\<lambda>s. length (cs_Name s)) ` set ss))"
proof (induction ss arbitrary: n)
  case (Cons s ss)
  have "(if length (cs_Name s) > n then length (cs_Name s) else n) = max (length (cs_Name s)) n" by simp
  then show ?case by (cases "ss = []") (simp_all add: Cons.IH ac_simps)
qed simp

lemma name_within_max: "s \<in> set ss \<Longrightarrow> length (cs_Name s) \<le> max_name_len ss"
  by (simp add: max_name_len_def max_name_fold)

lemma status_simps [simp]:
  "cs_OK (status_ok n d)" "\<not> cs_OK (status_bad n d w)" "cs_Name (status_ok n d) = n" "cs_Name (status_bad n d w) = n"
  "cs_Details (status_ok n d) = d" "cs_Details (status_bad n d w) = d"
  by (simp_all add: status_defs)

lemma check_config_simps [simp]: "cs_OK (check_config T ex p) \<longleftrightarrow> ex p" "cs_Name (check_config T ex p) = ''Config''"
  by (simp_all add: check_config_def)

lemma check_database_simps [simp]:
  "cs_OK (check_database T F cfg db) \<longleftrightarrow> (\<exists>st n. db = Some st \<and> TableCount F st = Inr n)"
  "cs_Name (check_database T F cfg db) = ''Database''"
  by (auto simp: check_database_def split: option.split sum.split)

lemma check_auth_simps [simp]:
  "cs_OK (check_auth cfg) \<longleftrightarrow> \<not> blank (AdminAPIKey (cfg_Auth cfg))" "cs_Name (check_auth cfg) = ''Auth''"
  by (simp_all add: check_auth_def blank_def)

lemma check_vpn_simps [simp]:
  "cs_OK (snd (check_vpn T W cfg vpn m)) \<longleftrightarrow>
     Provider (cfg_VPN cfg) = [] \<or> (\<exists>p. vpn = Some p \<and> snd (ProviderHealthCheck W p m) = None)"
  "cs_Name (snd (check_vpn T W cfg vpn m)) = ''VPN''"
  by (auto simp: check_vpn_def Let_def split: option.split prod.split)

lemma check_limit_simps [simp]: "cs_OK (check_limit cfg)" "cs_Name (check_limit cfg) = ''Rate Limit''"
  by (simp_all add: check_limit_def)

lemma ready_line_not_component: "ready_line \<notin> set (component_lines n s)" "degraded_line \<notin> set (component_lines n s)"
  by (auto simp: component_lines_def Let_def ready_line_def degraded_line_def green_circle_def warn_sign_def)

lemma PrintBanner_ready:
  "ready_line \<in> set (PrintBanner version addr ss) \<longleftrightarrow> (\<forall>s\<in>set ss. cs_OK s)"
  using ready_line_not_component
  by (auto simp: PrintBanner_def listening_line_def Let_def list_ex_iff ready_line_def [unfolded green_circle_def]
      green_circle_def degraded_line_def warn_sign_def)

section \<open>Properties\<close>

text \<open>What the banner says is what the checks found: it ends with "Ready" exactly when the
  configuration file is there, the database counts its tables, the admin key is not blank and the
  VPN is not configured or answers its health check, and with "degraded" otherwise; and the icons
  and details of all components stand in one column.\<close>

theorem banner_correct:
  fixes version addr :: string
  assumes "RunChecks T exists F W dflt path cfg db vpn m = (m', statuses)"
  defines "out \<equiv> PrintBanner version addr statuses"
  shows "(ready_line \<in> set out \<longleftrightarrow>
       exists (if path = [] then dflt else path) \<and> (\<exists>st n. db = Some st \<and> TableCount F st = Inr n) \<and>
       \<not> blank (AdminAPIKey (cfg_Auth cfg)) \<and>
       (Provider (cfg_VPN cfg) = [] \<or> (\<exists>p. vpn = Some p \<and> snd (ProviderHealthCheck W p m) = None))) \<and>
    (ready_line \<in> set out \<longleftrightarrow> degraded_line \<notin> set out) \<and>
    (\<forall>s\<in>set statuses. \<exists>label. length label = max_name_len statuses + 5 \<and>
       label @ (if cs_OK s then check_mark else cross_mark) @ '' '' @ cs_Details s \<in> set out)"
proof -
  have ss: "statuses = [check_config T exists (if path = [] then dflt else path), check_database T F cfg db,
      check_auth cfg, snd (check_vpn T W cfg vpn m), check_limit cfg]"
    using assms(1) by (auto simp: RunChecks_def Let_def case_prod_unfold)
  have ready: "ready_line \<in> set out \<longleftrightarrow> (\<forall>s\<in>set statuses. cs_OK s)"
    unfolding out_def by (rule PrintBanner_ready)
  have "degraded_line \<in> set out \<longleftrightarrow> \<not> (\<forall>s\<in>set statuses. cs_OK s)"
    using ready_line_not_component(2)
    by (auto simp: out_def PrintBanner_def listening_line_def Let_def list_ex_iff ready_line_def green_circle_def degraded_line_def warn_sign_def)
  moreover have "\<exists>label. length label = max_name_len statuses + 5 \<and>
       label @ (if cs_OK s then check_mark else cross_mark) @ '' '' @ cs_Details s \<in> set out"
    if "s \<in> set statuses" for s
  proof (intro exI conjI)
    let ?label = "''   '' @ cs_Name s @ '':'' @ replicate (max_name_len statuses - length (cs_Name s) + 1) CHR '' ''"
    show "length ?label = max_name_len statuses + 5" using name_within_max [OF that] by simp
    have "?label @ (if cs_OK s then check_mark else cross_mark) @ '' '' @ cs_Details s
        \<in> set (component_lines (max_name_len statuses) s)"
      by (simp add: component_lines_def Let_def)
    with that show "?label @ (if cs_OK s then check_mark else cross_mark) @ '' '' @ cs_Details s \<in> set out"
      unfolding out_def PrintBanner_def Let_def by auto
  qed
  ultimately show ?thesis using ready unfolding ss by simp
qed

definition sample_texts :: error_texts where
  "sample_texts = \<lparr>stat_text = ''no such file'', store_text = (\<lambda>_. ''db''), vpn_text = (\<lambda>_. ''vpn'')\<rparr>"

theorem banner_correct_witness:
  "let run = (\<lambda>ex. snd (RunChecks sample_texts ex no_faults test_world ''/d'' ''/c'' test_cfg
         (Some (sample_store [] [])) (Some Noop) initial_metrics))
   in ready_line \<in> set (PrintBanner ''0.1.0'' ''0.0.0.0:8080'' (run (\<lambda>_. True))) \<and>
      degraded_line \<in> set (PrintBanner ''0.1.0'' ''0.0.0.0:8080'' (run (\<lambda>_. False)))"
proof -
  note banner = banner_correct [OF surjective_pairing, where version = "''0.1.0''" and addr = "''0.0.0.0:8080''"
      and T = sample_texts and F = no_faults and W = test_world and dflt = "''/d''" and path = "''/c''" and cfg = test_cfg
      and db = "Some (sample_store [] [])" and vpn = "Some Noop" and m = initial_metrics]
  have "\<not> blank (AdminAPIKey (cfg_Auth test_cfg))" "Provider (cfg_VPN test_cfg) = []"
    by code_simp+
  moreover have "\<exists>n. TableCount no_faults (sample_store [] []) = Inr n"
    by (simp add: TableCount_def sample_store_def)
  moreover note banner [of "\<lambda>_. True"] banner [of "\<lambda>_. False"]
  ultimately show ?thesis by (simp add: Let_def) blast
qed

text \<open>C37.  Settings that pass validation and are then ignored.  The factory reads
  \<open>headscale_api_url\<close> where the validation and the banner read \<open>headscale_url\<close>: a valid, enabled
  Headscale configuration that gives only \<open>headscale_url\<close> yields a client that asks relative
  URLs, and hands nodes an empty control URL.  And a provider that is configured but not enabled
  (\<open>--vpn-provider\<close> never enables it) is replaced by the one that does nothing, which the banner
  reports as a healthy provider of the configured name although no key is ever asked for.\<close>

theorem vpn_settings_ignored:
  assumes "Validate cfg = None"
  shows "(Provider (cfg_VPN cfg) = ''headscale'' \<and> Enabled (cfg_VPN cfg) \<and> HeadscaleAPIURL (cfg_VPN cfg) = [] \<longrightarrow>
      HeadscaleURL (cfg_VPN cfg) \<noteq> [] \<and>
      (\<exists>c. NewVPNProvider (Some (cfg_VPN cfg)) = Inr (Headscale c) \<and>
         rq_URL (hs_key_request c now opts) = ''/api/v1/preauthkey'' \<and>
         (\<forall>W m reqs m' k. CreatePreAuthKey W opts (Headscale c) m = (reqs, m', Inr k) \<longrightarrow> vk_ControlURL k = []))) \<and>
    (Provider (cfg_VPN cfg) \<noteq> [] \<and> \<not> Enabled (cfg_VPN cfg) \<longrightarrow>
      (\<exists>p. NewVPNProvider (Some (cfg_VPN cfg)) = Inr p \<and>
         (\<forall>W m. CreatePreAuthKey W opts p m = ([], m, Inr \<lparr>vk_AuthKey = [], vk_ControlURL = [], vk_Provider = []\<rparr>)) \<and>
         (\<forall>T W m. cs_OK (snd (check_vpn T W cfg (Some p) m)) \<and>
            prefix (Provider (cfg_VPN cfg)) (cs_Details (snd (check_vpn T W cfg (Some p) m))))))"
proof (intro conjI impI)
  assume a: "Provider (cfg_VPN cfg) = ''headscale'' \<and> Enabled (cfg_VPN cfg) \<and> HeadscaleAPIURL (cfg_VPN cfg) = []"
  let ?v = "cfg_VPN cfg"
  let ?c = "NewHeadscaleClient [] (HeadscaleAPIKey ?v) (HeadscaleUser ?v)"
  have base: "hs_baseURL ?c = []" by (simp add: NewHeadscaleClient_def TrimSuffix_def)
  have "well_configured cfg" using assms by (simp add: Validate_well_configured)
  then have "\<not> blank (headscale_url ?v)" using a by (auto simp: well_configured_def)
  then show "HeadscaleURL ?v \<noteq> []" using a by (auto simp: headscale_url_def)
  have "NewVPNProvider (Some ?v) = Inr (Headscale ?c)" using a by (simp add: NewVPNProvider_def)
  moreover have "rq_URL (hs_key_request ?c now opts) = ''/api/v1/preauthkey''" by (simp add: hs_key_request_def base)
  moreover have "vk_ControlURL k = []" if "CreatePreAuthKey W opts (Headscale ?c) m = (reqs, m', Inr k)" for W m reqs m' k
    using that base by (auto simp: hs_CreatePreAuthKey_def split: prod.splits sum.splits)
  ultimately show "\<exists>c. NewVPNProvider (Some ?v) = Inr (Headscale c) \<and>
         rq_URL (hs_key_request c now opts) = ''/api/v1/preauthkey'' \<and>
         (\<forall>W m reqs m' k. CreatePreAuthKey W opts (Headscale c) m = (reqs, m', Inr k) \<longrightarrow> vk_ControlURL k = [])"
    by blast
next
  assume a: "Provider (cfg_VPN cfg) \<noteq> [] \<and> \<not> Enabled (cfg_VPN cfg)"
  then have "NewVPNProvider (Some (cfg_VPN cfg)) = Inr Noop" by (simp add: NewVPNProvider_def)
  then show "\<exists>p. NewVPNProvider (Some (cfg_VPN cfg)) = Inr p \<and>
         (\<forall>W m. CreatePreAuthKey W opts p m = ([], m, Inr \<lparr>vk_AuthKey = [], vk_ControlURL = [], vk_Provider = []\<rparr>)) \<and>
         (\<forall>T W m. cs_OK (snd (check_vpn T W cfg (Some p) m)) \<and>
            prefix (Provider (cfg_VPN cfg)) (cs_Details (snd (check_vpn T W cfg (Some p) m))))"
    using a by (intro exI [of _ Noop]) (simp add: check_vpn_def Let_def)
qed

theorem vpn_settings_ignored_witness:
  "let hs = (\<lambda>on. test_cfg\<lparr>cfg_VPN := (cfg_VPN test_cfg)\<lparr>Provider := ''headscale'', Enabled := on,
         HeadscaleURL := ''https://hs.example'', HeadscaleAPIKey := ''k''\<rparr>\<rparr>)
   in (\<exists>c. NewVPNProvider (Some (cfg_VPN (hs True))) = Inr (Headscale c) \<and>
         rq_URL (hs_key_request c 0 test_key_opts) = ''/api/v1/preauthkey'') \<and>
      (\<exists>p. NewVPNProvider (Some (cfg_VPN (hs False))) = Inr p \<and>
         cs_OK (snd (check_vpn sample_texts test_world (hs False) (Some p) initial_metrics)))"
proof -
  let ?hs = "\<lambda>on. test_cfg\<lparr>cfg_VPN := (cfg_VPN test_cfg)\<lparr>Provider := ''headscale'', Enabled := on,
         HeadscaleURL := ''https://hs.example'', HeadscaleAPIKey := ''k''\<rparr>\<rparr>"
  have t: "Validate (?hs True) = None" by code_simp
  have f: "Validate (?hs False) = None" by code_simp
  have "HeadscaleAPIURL (cfg_VPN test_cfg) = []" by (simp add: test_cfg_def Defaults_def)
  with vpn_settings_ignored [OF t, of 0 test_key_opts] vpn_settings_ignored [OF f, of 0 test_key_opts]
  show ?thesis by simp blast
qed

end
