(* ===== verification/Jobs.thy ===== *)
theory Jobs
  imports Router
begin

text \<open>
  Package \<open>internal/jobs\<close>: the background runner.  It works on the store and the metrics it
  shares with the handlers; the contexts with timeouts only add ways for a call to the driver to
  fail, which the faults of the driver stand for.  The \<open>select\<close> of \<open>Start\<close> takes one ready channel
  at a time: the channels it took are an explicit list of events.
\<close>

section \<open>The runner\<close>

record Runner =
  cleanupRelaysIntervalSeconds :: int
  cleanupNodesIntervalSeconds :: int
  relayTTLSeconds :: int
  nodeInactiveThresholdHours :: int
  done_closed :: bool

definition NewRunner :: "int \<Rightarrow> int \<Rightarrow> int \<Rightarrow> int \<Rightarrow> Runner" where
  "NewRunner cleanupRelays cleanupNodes ttl thresholdHours =
     \<lparr>cleanupRelaysIntervalSeconds = cleanupRelays, cleanupNodesIntervalSeconds = cleanupNodes,
      relayTTLSeconds = ttl, nodeInactiveThresholdHours = thresholdHours, done_closed = False\<rparr>"

text \<open>Closing a closed channel panics (\<open>None\<close>); \<open>Stop\<close> looks first.\<close>

definition close_done :: "Runner \<Rightarrow> Runner option" where
  "close_done r = (if done_closed r then None else Some (r\<lparr>done_closed := True\<rparr>))"

definition Stop :: "Runner \<Rightarrow> Runner option" where
  "Stop r = (if done_closed r then Some r else close_done r)"

type_synonym job_state = "SQLiteStore \<times> Metrics"

section \<open>The jobs\<close>

text \<open>The range over the map sets one gauge per key; a key that is not in the map keeps its gauge.\<close>

definition refreshNodeGauges :: "faults \<Rightarrow> SQLiteStore \<Rightarrow> Metrics \<Rightarrow> Metrics" where
  "refreshNodeGauges F st m =
     (case GetNodeCountsByStatus F st of
        Inl e \<Rightarrow> m
      | Inr counts \<Rightarrow> m\<lparr>NodesTotal := NodesTotal m ++ counts\<rparr>)"

definition refreshGauges :: "faults \<Rightarrow> (nat \<Rightarrow> time) \<Rightarrow> Runner \<Rightarrow> job_state \<Rightarrow> job_state" where
  "refreshGauges F clk r s =
     (let (st, m) = s;
          m1 = refreshNodeGauges F st m
      in case CountActiveRelays F (clk 0) (relayTTLSeconds r) st of
           Inl e \<Rightarrow> (st, m1)
         | Inr cnt \<Rightarrow> (st, m1\<lparr>RelaysActiveTotal := cnt\<rparr>))"

definition runCleanupStaleRelays :: "faults \<Rightarrow> (nat \<Rightarrow> time) \<Rightarrow> Runner \<Rightarrow> job_state \<Rightarrow> job_state" where
  "runCleanupStaleRelays F clk r s =
     (let (st, m) = s in
      case CleanupStaleRelays F (clk 0) (relayTTLSeconds r) st of
        (st', marked, deleted, Some e) \<Rightarrow> (st', m)
      | (st', marked, deleted, None) \<Rightarrow>
          (case CountActiveRelays F (clk 1) (relayTTLSeconds r) st' of
             Inl e \<Rightarrow> (st', m)
           | Inr cnt \<Rightarrow> (st', m\<lparr>RelaysActiveTotal := cnt\<rparr>)))"

definition runCleanupInactiveNodes :: "faults \<Rightarrow> (nat \<Rightarrow> time) \<Rightarrow> Runner \<Rightarrow> job_state \<Rightarrow> job_state" where
  "runCleanupInactiveNodes F clk r s =
     (let (st, m) = s in
      case CleanupInactiveNodes F (clk 0) (clk 1) (nodeInactiveThresholdHours r) st of
        (st', Inl e) \<Rightarrow> (st', m)
      | (st', Inr deactivated) \<Rightarrow> (st', refreshNodeGauges F st' m))"

section \<open>The loop\<close>

datatype job_event = CtxDone | StopClosed | RelayTick | NodeTick | GaugeTick

text \<open>One turn of the loop: \<open>None\<close> is the \<open>return\<close>.\<close>

fun loop_turn :: "Runner \<Rightarrow> job_event \<Rightarrow> faults \<Rightarrow> (nat \<Rightarrow> time) \<Rightarrow> job_state \<Rightarrow> job_state option" where
  "loop_turn r CtxDone F clk s = None"
| "loop_turn r StopClosed F clk s = None"
| "loop_turn r RelayTick F clk s = Some (runCleanupStaleRelays F clk r s)"
| "loop_turn r NodeTick F clk s = Some (runCleanupInactiveNodes F clk r s)"
| "loop_turn r GaugeTick F clk s = Some (refreshGauges F clk r s)"

text \<open>The state after the events taken so far, and whether the loop has returned.\<close>

fun job_loop :: "Runner \<Rightarrow> (job_event \<times> faults \<times> (nat \<Rightarrow> time)) list \<Rightarrow> job_state \<Rightarrow> job_state \<times> bool" where
  "job_loop r [] s = (s, False)"
| "job_loop r ((ev, F, clk) # evs) s =
     (case loop_turn r ev F clk s of None \<Rightarrow> (s, True) | Some s' \<Rightarrow> job_loop r evs s')"

text \<open>\<open>time.NewTicker\<close> panics on an interval that is not positive.\<close>

datatype start_result = TickerPanic | Running job_state | Returned job_state

definition tickers_ok :: "Runner \<Rightarrow> bool" where
  "tickers_ok r \<longleftrightarrow> 0 < seconds (cleanupRelaysIntervalSeconds r) \<and> 0 < seconds (cleanupNodesIntervalSeconds r)"

definition Start ::
  "Runner \<Rightarrow> faults \<Rightarrow> (nat \<Rightarrow> time) \<Rightarrow> (job_event \<times> faults \<times> (nat \<Rightarrow> time)) list \<Rightarrow> job_state \<Rightarrow> start_result" where
  "Start r F clk evs s =
     (if \<not> tickers_ok r then TickerPanic
      else case job_loop r evs (refreshGauges F clk r s) of
        (s', True) \<Rightarrow> Returned s'
      | (s', False) \<Rightarrow> Running s')"

lemmas job_defs = refreshGauges_def runCleanupStaleRelays_def runCleanupInactiveNodes_def

section \<open>Lemmas\<close>

lemma fst_refreshGauges [simp]: "fst (refreshGauges F clk r s) = fst s"
  by (simp add: refreshGauges_def Let_def split: prod.split sum.split)

lemma fst_runCleanupStaleRelays:
  "fst (runCleanupStaleRelays F clk r s) = fst (CleanupStaleRelays F (clk 0) (relayTTLSeconds r) (fst s))"
  by (simp add: runCleanupStaleRelays_def Let_def split: prod.split sum.split option.split)

lemma fst_runCleanupInactiveNodes:
  "fst (runCleanupInactiveNodes F clk r s) =
   fst (CleanupInactiveNodes F (clk 0) (clk 1) (nodeInactiveThresholdHours r) (fst s))"
  by (simp add: runCleanupInactiveNodes_def Let_def split: prod.split sum.split)

text \<open>A turn of the loop does to the database nothing or one of the two clean-ups.\<close>

lemma loop_turn_store:
  assumes "loop_turn r ev F clk s = Some s'"
  shows "fst s' = fst s \<or> fst s' = fst (CleanupStaleRelays F (clk 0) (relayTTLSeconds r) (fst s)) \<or>
    fst s' = fst (CleanupInactiveNodes F (clk 0) (clk 1) (nodeInactiveThresholdHours r) (fst s))"
  using assms by (cases ev) (auto simp: fst_runCleanupStaleRelays fst_runCleanupInactiveNodes)

lemma loop_turn_db_inv [inv_intros]:
  "db_inv (fst s) \<Longrightarrow> loop_turn r ev F clk s = Some s' \<Longrightarrow> db_inv (fst s')"
  using loop_turn_store [of r ev F clk s s'] by (auto intro: inv_intros)

lemma job_loop_db_inv:
  "db_inv (fst s) \<Longrightarrow> db_inv (fst (fst (job_loop r evs s)))"
  by (induction r evs s rule: job_loop.induct) (auto split: option.split intro: inv_intros)

lemma loop_turn_None: "loop_turn r ev F clk s = None \<longleftrightarrow> ev \<in> {CtxDone, StopClosed}"
  by (cases ev) auto

lemma job_loop_append:
  "job_loop r (evs @ evs') s =
   (case job_loop r evs s of (s', True) \<Rightarrow> (s', True) | (s', False) \<Rightarrow> job_loop r evs' s')"
  by (induction r evs s rule: job_loop.induct) (auto split: option.split)

lemma job_loop_returned:
  "snd (job_loop r evs s) \<longleftrightarrow> (\<exists>ev\<in>set evs. fst ev \<in> {CtxDone, StopClosed})"
  by (induction r evs s rule: job_loop.induct)
    (auto simp: loop_turn_None [unfolded insert_iff empty_iff] split: option.split)

lemma job_loop_until:
  assumes "\<forall>ev\<in>set pre. fst ev \<notin> {CtxDone, StopClosed}" "fst ev \<in> {CtxDone, StopClosed}"
  shows "job_loop r (pre @ ev # post) s = (fst (job_loop r pre s), True)"
proof -
  obtain x F clk where ev: "ev = (x, F, clk)" by (cases ev)
  have "loop_turn r x F clk s' = None" for s' using assms(2) ev by (simp add: loop_turn_None)
  moreover have "\<not> snd (job_loop r pre s)" using assms(1) unfolding job_loop_returned by blast
  ultimately show ?thesis by (simp add: job_loop_append ev split: prod.split bool.split)
qed

lemma refreshNodeGauges_no_faults:
  "NodesTotal (refreshNodeGauges no_faults st m) s =
     (if s \<in> Node_Status ` set (st_nodes st)
      then Some (int (count_where (\<lambda>n. Node_Status n = s) (st_nodes st))) else NodesTotal m s)"
  using GetNodeCountsByStatus_correct [THEN conjunct1, of st]
  by (simp add: refreshNodeGauges_def map_add_def)

section \<open>Properties\<close>

text \<open>C38.  The life of the runner: with an interval that is not positive as a duration (zero,
  negative, or so large that it overflows) \<open>Start\<close> panics; otherwise it refreshes the gauges once
  and serves the ticks in the order they are taken, it returns at the first cancellation or stop,
  whatever would come after it, with the state the ticks before it gave, and it goes on for ever
  if neither comes.  \<open>Stop\<close> never closes a channel twice.\<close>

theorem Start_until_stopped:
  assumes "\<forall>ev\<in>set ticks. fst ev \<notin> {CtxDone, StopClosed}"
  shows "(Start r F clk ticks s = TickerPanic \<longleftrightarrow>
       seconds (cleanupRelaysIntervalSeconds r) \<le> 0 \<or> seconds (cleanupNodesIntervalSeconds r) \<le> 0) \<and>
    (tickers_ok r \<longrightarrow>
       (\<exists>s'. Start r F clk ticks s = Running s' \<and>
         s' = fold (\<lambda>(ev, F, clk) s. the (loop_turn r ev F clk s)) ticks (refreshGauges F clk r s) \<and>
         (\<forall>ev post. fst ev \<in> {CtxDone, StopClosed} \<longrightarrow> Start r F clk (ticks @ ev # post) s = Returned s'))) \<and>
    (\<exists>r'. Stop r = Some r' \<and> done_closed r' \<and> Stop r' = Some r')"
proof -
  have run: "job_loop r ticks s0 = (fold (\<lambda>(ev, F, clk) s. the (loop_turn r ev F clk s)) ticks s0, False)" for s0
    using assms
  proof (induction ticks arbitrary: s0)
    case (Cons ev ticks)
    obtain x G c where ev: "ev = (x, G, c)" by (cases ev)
    then have "loop_turn r x G c s0 \<noteq> None" using Cons.prems loop_turn_None by auto
    then obtain s1 where "loop_turn r x G c s0 = Some s1" by blast
    with ev Cons show ?case by simp
  qed simp
  have "Start r F clk (ticks @ ev # post) s = Returned (fold (\<lambda>(ev, F, clk) s. the (loop_turn r ev F clk s)) ticks (refreshGauges F clk r s))"
    if "tickers_ok r" "fst ev \<in> {CtxDone, StopClosed}" for ev post
    using that job_loop_until [OF assms that(2)] run by (simp add: Start_def)
  moreover have "Stop r = Some (r\<lparr>done_closed := True\<rparr>)"
    by (cases r) (simp add: Stop_def close_done_def)
  ultimately show ?thesis
    by (auto simp: Start_def tickers_ok_def run Stop_def)
qed

theorem Start_until_stopped_witness:
  "let r = NewRunner 60 3600 300 48; st = sample_store [sample_node ''a'' ''h'' 1] [];
       clk = (\<lambda>n. 600 * Second)
   in (\<exists>st' m. Start r no_faults clk [(NodeTick, no_faults, clk), (StopClosed, no_faults, clk),
         (RelayTick, no_faults, clk)] (st, initial_metrics) = Returned (st', m) \<and>
       map Node_Status (st_nodes st') = [''inactive'']) \<and>
      Start (NewRunner 0 3600 300 48) no_faults clk [] (st, initial_metrics) = TickerPanic"
proof -
  let ?r = "NewRunner 60 3600 300 48" and ?st = "sample_store [sample_node ''a'' ''h'' 1] []"
  let ?clk = "\<lambda>n::nat. 600 * Second"
  let ?ticks = "[(NodeTick, no_faults, ?clk)]" and ?stop = "(StopClosed, no_faults, ?clk)"
  have ticks: "\<forall>ev\<in>set ?ticks. fst ev \<notin> {CtxDone, StopClosed}" "\<forall>ev\<in>set []. fst ev \<notin> {CtxDone, StopClosed}"
    by simp_all
  have "tickers_ok ?r" by (simp add: tickers_ok_def NewRunner_def seconds_def Second_def)
  then have "Start ?r no_faults ?clk (?ticks @ ?stop # [(RelayTick, no_faults, ?clk)]) (?st, initial_metrics) =
      Returned (runCleanupInactiveNodes no_faults ?clk ?r (refreshGauges no_faults ?clk ?r (?st, initial_metrics)))"
    using Start_until_stopped [OF ticks(1), of ?r no_faults ?clk "(?st, initial_metrics)"] by auto
  moreover have "map Node_Status (st_nodes (fst (runCleanupInactiveNodes no_faults ?clk ?r
      (refreshGauges no_faults ?clk ?r (?st, initial_metrics))))) = [''inactive'']"
    by (simp add: fst_runCleanupInactiveNodes CleanupInactiveNodes_def exec_update_def inactive_rule_def
        sample_store_def sample_node_def NewRunner_def)
  moreover have "Start (NewRunner 0 3600 300 48) no_faults ?clk [] (?st, initial_metrics) = TickerPanic"
    using Start_until_stopped [OF ticks(2), of "NewRunner 0 3600 300 48" no_faults ?clk "(?st, initial_metrics)"]
    by (simp add: NewRunner_def seconds_def)
  ultimately show ?thesis
    unfolding Let_def by (metis append_Cons append_Nil prod.collapse)
qed

text \<open>C39.  The gauges: without faults a refresh sets the gauge of every status that some node has to
  the number of its nodes and the relay gauge to the number of active relays seen within the TTL,
  and it changes neither the database nor another metric; but the gauge of a status that no node
  has any more keeps its old value: once the only node of a status leaves it, every later refresh
  still reports that node.\<close>

theorem refreshGauges_correct:
  assumes "0 < relayTTLSeconds r" and "relayTTLSeconds r \<le> 9223372036"
  shows "refreshGauges no_faults clk r (st, m) =
     (st, m\<lparr>NodesTotal := \<lambda>s. if s \<in> Node_Status ` set (st_nodes st)
              then Some (int (count_where (\<lambda>n. Node_Status n = s) (st_nodes st))) else NodesTotal m s,
            RelaysActiveTotal := int (count_where (\<lambda>x. Relay_Status x = ''active'' \<and>
              clk 0 - relayTTLSeconds r * Second \<le> Relay_LastSeenAt x) (st_relays st))\<rparr>) \<and>
    (\<forall>ts. (\<forall>st' \<in> set (map fst ts). \<forall>n\<in>set (st_nodes st'). Node_Status n \<noteq> s) \<longrightarrow>
       NodesTotal (fold (\<lambda>(st', clk) m. snd (refreshGauges no_faults clk r (st', m))) ts m) s = NodesTotal m s)"
proof -
  have ttl: "seconds (- ttl_window (relayTTLSeconds r)) = - (relayTTLSeconds r * Second)"
    using assms seconds_neg_exact by (simp add: ttl_window_def)
  have active: "CountActiveRelays no_faults t (relayTTLSeconds r) st' = Inr (int (count_where (\<lambda>x. Relay_Status x = ''active'' \<and>
              t - relayTTLSeconds r * Second \<le> Relay_LastSeenAt x) (st_relays st')))" for t st'
    using ttl by (simp add: CountActiveRelays_def query_count_def)
  have nodes: "refreshNodeGauges no_faults st' m' = m'\<lparr>NodesTotal := \<lambda>s. if s \<in> Node_Status ` set (st_nodes st')
              then Some (int (count_where (\<lambda>n. Node_Status n = s) (st_nodes st'))) else NodesTotal m' s\<rparr>" for st' m'
    using GetNodeCountsByStatus_correct [THEN conjunct1, of st']
    by (simp add: refreshNodeGauges_def map_add_def if_distrib fun_eq_iff cong: if_cong)
  have eq: "refreshGauges no_faults c r (st', m') =
     (st', m'\<lparr>NodesTotal := \<lambda>s. if s \<in> Node_Status ` set (st_nodes st')
              then Some (int (count_where (\<lambda>n. Node_Status n = s) (st_nodes st'))) else NodesTotal m' s,
            RelaysActiveTotal := int (count_where (\<lambda>x. Relay_Status x = ''active'' \<and>
              c 0 - relayTTLSeconds r * Second \<le> Relay_LastSeenAt x) (st_relays st'))\<rparr>)" for c st' m'
    by (simp add: refreshGauges_def active nodes)
  have "NodesTotal (fold (\<lambda>(st', clk) m. snd (refreshGauges no_faults clk r (st', m))) ts m) s = NodesTotal m s"
    if "\<forall>st' \<in> set (map fst ts). \<forall>n\<in>set (st_nodes st'). Node_Status n \<noteq> s" for ts
    using that by (induction ts arbitrary: m) (auto simp: eq)
  with eq show ?thesis by blast
qed

theorem refreshGauges_correct_witness:
  "let r = NewRunner 60 3600 300 48; clk = (\<lambda>n. 600 * Second);
       m1 = snd (refreshGauges no_faults clk r (sample_store [sample_node ''a'' ''h'' 1] [], initial_metrics));
       st2 = sample_store [(sample_node ''a'' ''h'' 1)\<lparr>Node_Status := ''inactive''\<rparr>] [];
       m2 = snd (refreshGauges no_faults clk r (st2, m1))
   in NodesTotal m2 ''active'' = Some 1 \<and> NodesTotal m2 ''inactive'' = Some 1"
proof -
  have "0 < relayTTLSeconds (NewRunner 60 3600 300 48)" "relayTTLSeconds (NewRunner 60 3600 300 48) \<le> 9223372036"
    by (simp_all add: NewRunner_def)
  note * = refreshGauges_correct [OF this, THEN conjunct1]
  show ?thesis unfolding Let_def * by (simp add: sample_store_def sample_node_def)
qed

end
