(* ===== verification/Boot.thy ===== *)
theory Boot
  imports Startup Jobs
begin

text \<open>
  \<open>cmd/server/main.go\<close>: from the command line to the running server, and the shutdown.  Parsing
  the command line is the \<open>flag\<close> package's work: \<open>Flags\<close> holds the values after \<open>flag.Parse\<close>.
  Listening, signals and goroutines are the run-time's: \<open>main\<close> ends in what it hands to them
  (\<open>Launch\<close>), and the last \<open>select\<close> is a function of the channel that was ready.
\<close>

section \<open>Inputs\<close>

record Flags =
  fl_config :: string
  fl_bind :: string
  fl_adminKey :: string
  fl_vpnProvider :: string
  fl_dbPath :: string
  fl_logLevel :: string
  fl_logFormat :: string
  fl_generateConfig :: bool
  fl_validateConfig :: bool
  fl_version :: bool

text \<open>The values when the command line gives none: \<open>-config\<close> defaults to the canonical path.\<close>

definition default_flags :: "string \<Rightarrow> Flags" where
  "default_flags dflt =
     \<lparr>fl_config = dflt, fl_bind = [], fl_adminKey = [], fl_vpnProvider = [], fl_dbPath = [], fl_logLevel = [],
      fl_logFormat = [], fl_generateConfig = False, fl_validateConfig = False, fl_version = False\<rparr>"

text \<open>
  The host at start: the TOML codec, the environment, the 32 random bytes, the failing calls and
  the files, the canonical path, the two texts of the default configuration, the database file
  under each path (schema and rows), the driver, the VPN APIs, the error texts and the clock.
\<close>

record Host =
  h_toml :: "string \<Rightarrow> Config \<Rightarrow> Config option"
  h_enc :: "Config \<Rightarrow> string option"
  h_env :: "string \<Rightarrow> string option"
  h_rnd :: string
  h_fails :: "fs_call \<Rightarrow> bool"
  h_disk :: fs
  h_dflt :: string
  h_embedded :: string
  h_template :: string
  h_db :: "string \<Rightarrow> SQLiteStore"
  h_faults :: faults
  h_mkdir_fails :: bool
  h_vpn :: vpn_world
  h_texts :: error_texts
  h_now :: time

text \<open>\<open>sql.Open\<close> on a path gives access to the tables in the file.\<close>

definition open_file :: "Host \<Rightarrow> string \<Rightarrow> SQLiteStore" where
  "open_file H path =
     (let d = h_db H path
      in (NewSQLiteStore path)\<lparr>schema := schema d, st_nodes := st_nodes d, st_relays := st_relays d\<rparr>)"

section \<open>The start (main.go)\<close>

text \<open>What the running process works with: \<open>srv.Addr\<close>, the two timeouts, the runner, the router.\<close>

record Launch =
  la_addr :: string
  la_read_timeout :: duration
  la_write_timeout :: duration
  la_banner :: "string list"
  la_warnings :: "string list"
  la_runner :: Runner
  la_setup :: Setup
  la_server :: Server

datatype main_result = Exit int | Serve Launch

definition resolve_options :: "Flags \<Rightarrow> ResolveOptions" where
  "resolve_options fl =
     \<lparr>opt_ConfigPath = fl_config fl, opt_Bind = fl_bind fl, opt_AdminAPIKey = fl_adminKey fl,
      opt_VPNProvider = fl_vpnProvider fl, opt_DBPath = fl_dbPath fl, opt_LogLevel = fl_logLevel fl,
      opt_LogFormat = fl_logFormat fl, opt_GenerateOnly = False, opt_ValidateOnly = fl_validateConfig fl\<rparr>"

definition critical_failure :: "ComponentStatus list \<Rightarrow> bool" where
  "critical_failure statuses =
     list_ex (\<lambda>s. \<not> cs_OK s \<and> (cs_Name s = ''Database'' \<or> cs_Name s = ''Auth'')) statuses"

text \<open>Steps 5 to 7; the runner gets a fixed 48 hours.\<close>

definition launch :: "Host \<Rightarrow> Config \<Rightarrow> SQLiteStore \<Rightarrow> VPNProvider \<Rightarrow> Metrics \<Rightarrow> string list \<Rightarrow> string list \<Rightarrow> Launch" where
  "launch H cfg st vpn m banner warnings =
     (let S = \<lparr>su_cfg = cfg, su_startTime = h_now H, su_vpn = Some vpn, su_limited = True\<rparr>
      in \<lparr>la_addr = Listen (cfg_Server cfg), la_read_timeout = seconds (ReadTimeoutSeconds (cfg_Server cfg)),
          la_write_timeout = seconds (WriteTimeoutSeconds (cfg_Server cfg)),
          la_banner = banner, la_warnings = warnings,
          la_runner = NewRunner (CleanupRelaysIntervalSeconds (cfg_Jobs cfg)) (CleanupNodesIntervalSeconds (cfg_Jobs cfg))
            (RelayTTLSeconds (cfg_Registry cfg)) 48,
          la_setup = S, la_server = (NewRouter S st)\<lparr>srv_metrics := m\<rparr>\<rparr>)"

definition startup_checks ::
  "Host \<Rightarrow> Flags \<Rightarrow> fs \<Rightarrow> Config \<Rightarrow> SQLiteStore \<Rightarrow> VPNProvider \<Rightarrow> Metrics \<times> ComponentStatus list" where
  "startup_checks H fl disk cfg st vpn =
     RunChecks (h_texts H) (\<lambda>p. \<not> h_fails H (Stat p) \<and> disk p \<noteq> None) (h_faults H) (h_vpn H)
       (h_dflt H) (fl_config fl) cfg (Some st) (Some vpn) initial_metrics"

text \<open>Steps 2 to 7, from the resolved configuration.\<close>

definition boot :: "Host \<Rightarrow> Flags \<Rightarrow> fs \<Rightarrow> ResolvedConfig \<Rightarrow> main_result" where
  "boot H fl disk r =
     (let cfg = res_Config r;
          (st, init) = Init (h_faults H) (h_mkdir_fails H) (open_file H (DB_Path (cfg_Database cfg))) in
      if init \<noteq> None then Exit 1
      else case NewVPNProvider (Some (cfg_VPN cfg)) of
        Inl e \<Rightarrow> Exit 1
      | Inr vpn \<Rightarrow>
          (case startup_checks H fl disk cfg st vpn of
             (m, statuses) \<Rightarrow>
               if critical_failure statuses then Exit 1
               else Serve (launch H cfg st vpn m
                 (PrintBanner ServerVersion (Bind (cfg_Server cfg)) statuses) (res_Warnings r))))"

definition main :: "Host \<Rightarrow> Flags \<Rightarrow> fs \<times> main_result" where
  "main H fl =
     (if fl_version fl then (h_disk H, Exit 0)
      else if fl_generateConfig fl then
        (case GenerateDefault (h_embedded H) (h_template H) (h_fails H) (h_dflt H) (h_disk H)
                (if fl_config fl = [] then h_dflt H else fl_config fl) of
           (disk, Some e) \<Rightarrow> (disk, Exit 1)
         | (disk, None) \<Rightarrow> (disk, Exit 0))
      else case Resolve (h_toml H) (h_enc H) (h_env H) (h_rnd H) (h_fails H) (h_dflt H) (h_disk H)
                  (resolve_options fl) of
        (disk, Inl e) \<Rightarrow> (disk, Exit 1)
      | (disk, Inr r) \<Rightarrow> if fl_validateConfig fl then (disk, Exit 0) else (disk, boot H fl disk r))"

section \<open>The end\<close>

text \<open>
  The last \<open>select\<close>: the HTTP server stopped (with an error other than \<open>ErrServerClosed\<close> or not),
  or a signal came, and then the runner is stopped, the HTTP server shut down (\<open>srv.Close\<close> if that
  fails) and the database closed, in this order.
\<close>

datatype last_event = ServerStopped bool | SignalReceived bool

datatype shutdown_step = StopRunner | ShutdownServer | ForceClose | CloseDB

definition shutdown_steps :: "last_event \<Rightarrow> shutdown_step list" where
  "shutdown_steps ev =
     (case ev of
        ServerStopped fatal \<Rightarrow> []
      | SignalReceived shutdown_fails \<Rightarrow>
          [StopRunner, ShutdownServer] @ (if shutdown_fails then [ForceClose] else []) @ [CloseDB])"

fun run_shutdown_step :: "shutdown_step \<Rightarrow> Runner \<times> SQLiteStore \<Rightarrow> (Runner \<times> SQLiteStore) option" where
  "run_shutdown_step StopRunner (r, st) = map_option (\<lambda>r'. (r', st)) (Stop r)"
| "run_shutdown_step CloseDB (r, st) = Some (r, Close st)"
| "run_shutdown_step ShutdownServer x = Some x"
| "run_shutdown_step ForceClose x = Some x"

text \<open>The exit code of the process and the state it leaves; \<open>None\<close> would be a panic.\<close>

definition finish_main :: "last_event \<Rightarrow> Runner \<times> SQLiteStore \<Rightarrow> (int \<times> Runner \<times> SQLiteStore) option" where
  "finish_main ev x =
     map_option (\<lambda>y. (case ev of ServerStopped True \<Rightarrow> 1 | _ \<Rightarrow> 0, y))
       (fold (\<lambda>step y. Option.bind y (run_shutdown_step step)) (shutdown_steps ev) (Some x))"

section \<open>Lemmas\<close>

text \<open>A signal stops the jobs, keeps the tables and closes the handle, and the process exits with 0;
  when the HTTP server stops by itself neither is done.\<close>

lemma finish_main_cases:
  "finish_main (SignalReceived b) (r, st) = Some (0, r\<lparr>done_closed := True\<rparr>, Close st)"
  "finish_main (ServerStopped fatal) (r, st) = Some (if fatal then 1 else 0, r, st)"
  by (cases r; simp add: finish_main_def shutdown_steps_def Stop_def close_done_def)
    (simp add: finish_main_def shutdown_steps_def split: bool.split)

lemma Init_opened:
  assumes "Init F b st = (st', None)"
  shows "conn st' = OpenDB"
proof -
  have alter: "conn (fold (alter_step F) qs x) = conn x" for qs x
    by (induction qs arbitrary: x) (auto simp: alter_step_def split: prod.split option.split)
  have "conn (fst (migrate F x)) = conn x" for x
    by (simp add: migrate_def Let_def alter create_table_def)
  then have "conn x' = OpenDB" if "migrate F (st\<lparr>conn := OpenDB\<rparr>) = (x', None)" for x'
    using that by (metis fst_conv SQLiteStore.select_convs(2) SQLiteStore.surjective SQLiteStore.update_convs(2))
  then show ?thesis
    using assms by (auto simp: Init_def Let_def split: if_splits option.splits prod.splits)
qed

lemma TableCount_open: "conn st = OpenDB \<Longrightarrow> (\<exists>n. TableCount F st = Inr n) \<longleftrightarrow> \<not> F (Query Q_TableCount)"
  by (auto simp: TableCount_def)

lemma NewVPNProvider_valid: "well_configured cfg \<Longrightarrow> \<exists>p. NewVPNProvider (Some (cfg_VPN cfg)) = Inr p"
  by (auto simp: NewVPNProvider_def well_configured_def)

lemma critical_failure_checks:
  "critical_failure (snd (startup_checks H fl disk cfg st p)) \<longleftrightarrow>
     \<not> (\<exists>n. TableCount (h_faults H) st = Inr n) \<or> blank (AdminAPIKey (cfg_Auth cfg))"
  by (simp add: critical_failure_def startup_checks_def RunChecks_def Let_def case_prod_unfold)

lemma boot_Serve:
  assumes "well_configured (res_Config r)" "\<not> blank (AdminAPIKey (cfg_Auth (res_Config r)))"
    and "Init (h_faults H) (h_mkdir_fails H) (open_file H (DB_Path (cfg_Database (res_Config r)))) = (st, init)"
  shows "\<exists>p. NewVPNProvider (Some (cfg_VPN (res_Config r))) = Inr p \<and>
    boot H fl disk r =
    (if init \<noteq> None \<or> h_faults H (Query Q_TableCount) then Exit 1
     else Serve (launch H (res_Config r) st p (fst (startup_checks H fl disk (res_Config r) st p))
       (PrintBanner ServerVersion (Bind (cfg_Server (res_Config r)))
         (snd (startup_checks H fl disk (res_Config r) st p))) (res_Warnings r)))"
proof -
  obtain p where p: "NewVPNProvider (Some (cfg_VPN (res_Config r))) = Inr p"
    using NewVPNProvider_valid [OF assms(1)] by blast
  have "boot H fl disk r =
    (if init \<noteq> None \<or> h_faults H (Query Q_TableCount) then Exit 1
     else Serve (launch H (res_Config r) st p (fst (startup_checks H fl disk (res_Config r) st p))
       (PrintBanner ServerVersion (Bind (cfg_Server (res_Config r)))
         (snd (startup_checks H fl disk (res_Config r) st p))) (res_Warnings r)))"
  proof (cases init)
    case None
    then have "conn st = OpenDB" using assms(3) Init_opened by simp
    then show ?thesis
      using None assms(2) critical_failure_checks [of H fl disk "res_Config r" st p]
      by (simp add: boot_def Let_def assms(3) p TableCount_open case_prod_unfold)
  qed (simp add: boot_def Let_def assms(3))
  with p show ?thesis by blast
qed

lemma launch_simps [simp]:
  "la_addr (launch H cfg st vpn m b w) = Listen (cfg_Server cfg)" "la_banner (launch H cfg st vpn m b w) = b"
  "la_warnings (launch H cfg st vpn m b w) = w" "srv_store (la_server (launch H cfg st vpn m b w)) = st"
  "su_cfg (la_setup (launch H cfg st vpn m b w)) = cfg"
  "srv_cache (la_server (launch H cfg st vpn m b w)) = Some (NewRelayCache (DiscoveryCacheTTLSeconds (cfg_Registry cfg)))"
  "la_runner (launch H cfg st vpn m b w) = NewRunner (CleanupRelaysIntervalSeconds (cfg_Jobs cfg))
     (CleanupNodesIntervalSeconds (cfg_Jobs cfg)) (RelayTTLSeconds (cfg_Registry cfg)) 48"
  by (simp_all add: launch_def Let_def NewRouter_def)

lemma main_Serve:
  assumes "length (h_rnd H) = 32"
  shows "main H fl = (disk, Serve L) \<longleftrightarrow>
    \<not> fl_version fl \<and> \<not> fl_generateConfig fl \<and> \<not> fl_validateConfig fl \<and>
    \<not> h_faults H (Query Q_TableCount) \<and>
    (\<exists>r st p. Resolve (h_toml H) (h_enc H) (h_env H) (h_rnd H) (h_fails H) (h_dflt H) (h_disk H) (resolve_options fl) =
         (disk, Inr r) \<and>
       Init (h_faults H) (h_mkdir_fails H) (open_file H (DB_Path (cfg_Database (res_Config r)))) = (st, None) \<and>
       NewVPNProvider (Some (cfg_VPN (res_Config r))) = Inr p \<and>
       L = launch H (res_Config r) st p (fst (startup_checks H fl disk (res_Config r) st p))
         (PrintBanner ServerVersion (Bind (cfg_Server (res_Config r))) (snd (startup_checks H fl disk (res_Config r) st p)))
         (res_Warnings r))"
proof -
  obtain disk0 x where res: "Resolve (h_toml H) (h_enc H) (h_env H) (h_rnd H) (h_fails H) (h_dflt H) (h_disk H)
      (resolve_options fl) = (disk0, x)" by fastforce
  show ?thesis
  proof (cases "fl_version fl \<or> fl_generateConfig fl \<or> fl_validateConfig fl")
    case True
    then show ?thesis by (auto simp: main_def res split: sum.splits prod.splits option.splits if_splits)
  next
    case False
    show ?thesis
    proof (cases x)
      case (Inl e)
      with False res show ?thesis by (simp add: main_def)
    next
      case (Inr r)
      obtain st init where ini: "Init (h_faults H) (h_mkdir_fails H) (open_file H (DB_Path (cfg_Database (res_Config r)))) = (st, init)"
        by fastforce
      from Resolve_valid_config [OF res [unfolded Inr] assms] boot_Serve [OF _ _ ini, of fl disk0]
      obtain p where "NewVPNProvider (Some (cfg_VPN (res_Config r))) = Inr p"
        "boot H fl disk0 r = (if init \<noteq> None \<or> h_faults H (Query Q_TableCount) then Exit 1
          else Serve (launch H (res_Config r) st p (fst (startup_checks H fl disk0 (res_Config r) st p))
            (PrintBanner ServerVersion (Bind (cfg_Server (res_Config r)))
              (snd (startup_checks H fl disk0 (res_Config r) st p))) (res_Warnings r)))"
        by blast
      with False res Inr ini show ?thesis by (auto simp: main_def)
    qed
  qed
qed

lemma alter_steps_rows:
  "st_nodes (fold (alter_step F) qs st) = st_nodes st" "st_relays (fold (alter_step F) qs st) = st_relays st"
  by (induction qs arbitrary: st) (auto simp: alter_step_def Let_def split: prod.split option.split)

lemma Init_rows:
  assumes "Init F b st = (st', None)"
  shows "st_nodes st' = st_nodes st" "st_relays st' = st_relays st"
proof -
  have "st_nodes (fst (migrate F x)) = st_nodes x" "st_relays (fst (migrate F x)) = st_relays x" for x
    by (simp_all add: migrate_def Let_def alter_steps_rows create_table_def)
  then have "st_nodes x' = st_nodes st \<and> st_relays x' = st_relays st" if "migrate F (st\<lparr>conn := OpenDB\<rparr>) = (x', None)" for x'
    using that by (metis fst_conv SQLiteStore.select_convs(4,5) SQLiteStore.surjective SQLiteStore.update_convs(2))
  then show "st_nodes st' = st_nodes st" "st_relays st' = st_relays st"
    using assms by (auto simp: Init_def Let_def split: if_splits option.splits prod.splits)
qed

lemma open_file_simps [simp]:
  "st_nodes (open_file H path) = st_nodes (h_db H path)" "st_relays (open_file H path) = st_relays (h_db H path)"
  by (simp_all add: open_file_def Let_def)

lemma main_ServeE:
  assumes "main H fl = (disk, Serve L)" "length (h_rnd H) = 32"
  obtains r st p m b where
    "Resolve (h_toml H) (h_enc H) (h_env H) (h_rnd H) (h_fails H) (h_dflt H) (h_disk H) (resolve_options fl) = (disk, Inr r)"
    "Init (h_faults H) (h_mkdir_fails H) (open_file H (DB_Path (cfg_Database (res_Config r)))) = (st, None)"
    "L = launch H (res_Config r) st p m b (res_Warnings r)"
  using assms(1) unfolding main_Serve [OF assms(2)] by (elim conjE exE) (rule that)

lemma main_store:
  assumes "main H fl = (disk, Serve L)" "length (h_rnd H) = 32"
  shows "st_nodes (srv_store (la_server L)) = st_nodes (h_db H (DB_Path (cfg_Database (su_cfg (la_setup L)))))"
    "st_relays (srv_store (la_server L)) = st_relays (h_db H (DB_Path (cfg_Database (su_cfg (la_setup L)))))"
  using main_ServeE [OF assms] Init_rows by (metis launch_simps(4,5) open_file_simps)+

lemma main_cfg:
  assumes "main H fl = (disk, Serve L)" "length (h_rnd H) = 32"
  shows "well_configured (su_cfg (la_setup L))" "\<not> blank (AdminAPIKey (cfg_Auth (su_cfg (la_setup L))))"
  using main_ServeE [OF assms] Resolve_valid_config [OF _ assms(2)] by (metis launch_simps(5))+

lemma listening_line_printed: "listening_line addr \<in> set (PrintBanner version addr ss)"
  by (simp add: PrintBanner_def Let_def)

text \<open>A host with one configuration file and a new database, for the witnesses.\<close>

definition sample_host :: "fs \<Rightarrow> Config \<Rightarrow> Host" where
  "sample_host disk c =
     \<lparr>h_toml = (\<lambda>_ _. Some c), h_enc = (\<lambda>_. Some ''b''), h_env = Map.empty, h_rnd = replicate 32 CHR 0x01,
      h_fails = (\<lambda>_. False), h_disk = disk, h_dflt = ''/c'', h_embedded = ''e'', h_template = ''t'',
      h_db = NewSQLiteStore, h_faults = no_faults, h_mkdir_fails = False, h_vpn = test_world,
      h_texts = sample_texts, h_now = 0\<rparr>"

lemma sample_host_simps [simp]:
  "h_toml (sample_host disk c) = (\<lambda>_ _. Some c)" "h_enc (sample_host disk c) = (\<lambda>_. Some ''b'')"
  "h_env (sample_host disk c) = Map.empty" "h_rnd (sample_host disk c) = replicate 32 CHR 0x01"
  "h_fails (sample_host disk c) = (\<lambda>_. False)" "h_disk (sample_host disk c) = disk" "h_dflt (sample_host disk c) = ''/c''"
  "h_faults (sample_host disk c) = no_faults" "h_mkdir_fails (sample_host disk c) = False"
  by (simp_all add: sample_host_def)

lemma default_flags_simps [simp]:
  "fl_config (default_flags p) = p" "\<not> fl_version (default_flags p)" "\<not> fl_generateConfig (default_flags p)"
  "\<not> fl_validateConfig (default_flags p)"
  by (simp_all add: default_flags_def)

lemma open_file_sample [simp]: "open_file (sample_host disk c) path = NewSQLiteStore path"
  by (simp add: open_file_def sample_host_def NewSQLiteStore_def)

lemma Init_new: "Init no_faults False (NewSQLiteStore path) = (created_schema ((NewSQLiteStore path)\<lparr>conn := OpenDB\<rparr>), None)"
  using migrate_fresh [of "(NewSQLiteStore path)\<lparr>conn := OpenDB\<rparr>" no_faults]
  by (simp add: Init_def Let_def HealthCheck_def NewSQLiteStore_def)

section \<open>Properties\<close>

text \<open>C13.  When the process serves: exactly when none of the three exiting flags is given, the
  configuration resolves, \<open>Init\<close> of the database it names succeeds and the tables can be counted;
  whatever the VPN answers, and the checks of the admin key and of the provider can no longer
  fail.  Then the configuration is well formed and has an admin key, the handle is open, and the
  banner announces \<open>server.bind\<close> although the server listens on \<open>server.listen\<close>.\<close>

theorem main_serves_iff:
  assumes "length (h_rnd H) = 32"
  shows "((\<exists>disk L. main H fl = (disk, Serve L)) \<longleftrightarrow>
      \<not> fl_version fl \<and> \<not> fl_generateConfig fl \<and> \<not> fl_validateConfig fl \<and>
      (\<exists>disk r. Resolve (h_toml H) (h_enc H) (h_env H) (h_rnd H) (h_fails H) (h_dflt H) (h_disk H) (resolve_options fl) =
           (disk, Inr r) \<and>
         snd (Init (h_faults H) (h_mkdir_fails H) (open_file H (DB_Path (cfg_Database (res_Config r))))) = None \<and>
         \<not> h_faults H (Query Q_TableCount))) \<and>
    (\<forall>disk L. main H fl = (disk, Serve L) \<longrightarrow>
      well_configured (su_cfg (la_setup L)) \<and> \<not> blank (AdminAPIKey (cfg_Auth (su_cfg (la_setup L)))) \<and>
      conn (srv_store (la_server L)) = OpenDB \<and>
      la_addr L = Listen (cfg_Server (su_cfg (la_setup L))) \<and>
      listening_line (Bind (cfg_Server (su_cfg (la_setup L)))) \<in> set (la_banner L))"
    (is "(_ \<longleftrightarrow> ?rhs) \<and> _")
proof (intro conjI allI impI iffI)
  assume ?rhs
  then obtain disk r st where r: "Resolve (h_toml H) (h_enc H) (h_env H) (h_rnd H) (h_fails H) (h_dflt H) (h_disk H)
        (resolve_options fl) = (disk, Inr r)"
      "Init (h_faults H) (h_mkdir_fails H) (open_file H (DB_Path (cfg_Database (res_Config r)))) = (st, None)"
    by (metis prod.collapse)
  moreover obtain p where "NewVPNProvider (Some (cfg_VPN (res_Config r))) = Inr p"
    using NewVPNProvider_valid Resolve_valid_config [OF r(1) assms] by blast
  ultimately show "\<exists>disk L. main H fl = (disk, Serve L)"
    using \<open>?rhs\<close> unfolding main_Serve [OF assms] by blast
next
  fix disk L assume "main H fl = (disk, Serve L)"
  then obtain r st p where run: "Resolve (h_toml H) (h_enc H) (h_env H) (h_rnd H) (h_fails H) (h_dflt H) (h_disk H)
        (resolve_options fl) = (disk, Inr r)"
      "Init (h_faults H) (h_mkdir_fails H) (open_file H (DB_Path (cfg_Database (res_Config r)))) = (st, None)"
      "L = launch H (res_Config r) st p (fst (startup_checks H fl disk (res_Config r) st p))
         (PrintBanner ServerVersion (Bind (cfg_Server (res_Config r))) (snd (startup_checks H fl disk (res_Config r) st p)))
         (res_Warnings r)"
    unfolding main_Serve [OF assms] by blast
  note ok = Resolve_valid_config [OF run(1) assms] Init_opened [OF run(2)]
  then show "well_configured (su_cfg (la_setup L))" "\<not> blank (AdminAPIKey (cfg_Auth (su_cfg (la_setup L))))"
      "conn (srv_store (la_server L)) = OpenDB" "la_addr L = Listen (cfg_Server (su_cfg (la_setup L)))"
      "listening_line (Bind (cfg_Server (su_cfg (la_setup L)))) \<in> set (la_banner L)"
    by (simp_all add: run(3) listening_line_printed)
next
  assume "\<exists>disk L. main H fl = (disk, Serve L)"
  then have ?rhs unfolding main_Serve [OF assms] by fastforce
  then show "\<not> fl_version fl" "\<not> fl_generateConfig fl" "\<not> fl_validateConfig fl"
    "\<exists>disk r. Resolve (h_toml H) (h_enc H) (h_env H) (h_rnd H) (h_fails H) (h_dflt H) (h_disk H) (resolve_options fl) =
           (disk, Inr r) \<and>
         snd (Init (h_faults H) (h_mkdir_fails H) (open_file H (DB_Path (cfg_Database (res_Config r))))) = None \<and>
         \<not> h_faults H (Query Q_TableCount)" by blast+
qed

lemma Resolve_sample:
  assumes "well_configured (fst (cascade_plain (replicate 32 CHR 0x01) (resolve_options (default_flags ''/c'')) c
      (markAllFieldsAsSource SourceConfigFile Map.empty)))"
  shows "\<exists>r. Resolve (\<lambda>_ _. Some c) (\<lambda>_. Some ''b'') Map.empty (replicate 32 CHR 0x01) (\<lambda>_. False) ''/c'' test_disk
      (resolve_options (default_flags ''/c'')) = (test_disk, Inr r)"
proof (rule Resolve_from_file)
  show "test_disk (config_path ''/c'' (resolve_options (default_flags ''/c''))) = Some (''x'', 420)"
    by (simp add: test_disk_def config_path_def resolve_options_def)
qed (use assms in simp_all)

theorem main_serves_iff_witness:
  "\<exists>disk L. main (sample_host test_disk test_cfg) (default_flags ''/c'') = (disk, Serve L) \<and>
     listening_line (Bind (cfg_Server (su_cfg (la_setup L)))) \<in> set (la_banner L)"
proof -
  let ?H = "sample_host test_disk test_cfg" and ?fl = "default_flags ''/c''"
  have "well_configured (fst (cascade_plain (replicate 32 CHR 0x01) (resolve_options ?fl) test_cfg
      (markAllFieldsAsSource SourceConfigFile Map.empty)))"
    unfolding cascade_plain_config by code_simp
  note res = Resolve_sample [OF this]
  have "length (h_rnd ?H) = 32" by simp
  note iff = main_serves_iff [OF this, of ?fl]
  then obtain disk L where "main ?H ?fl = (disk, Serve L)" using res by (auto simp: Init_new)
  with iff show ?thesis by blast
qed

text \<open>C14.  The intervals of the background jobs are not validated: whatever they are, a
  configuration is as valid as before, and a server started with an interval that is not positive
  as a duration serves requests and panics in the goroutine of the jobs, which ends the process.\<close>

theorem zero_interval_panics:
  assumes "main H fl = (disk, Serve L)" and "length (h_rnd H) = 32"
  shows "(Start (la_runner L) F clk evs s = TickerPanic \<longleftrightarrow>
      seconds (CleanupRelaysIntervalSeconds (cfg_Jobs (su_cfg (la_setup L)))) \<le> 0 \<or>
      seconds (CleanupNodesIntervalSeconds (cfg_Jobs (su_cfg (la_setup L)))) \<le> 0) \<and>
    (\<forall>j. Validate (su_cfg (la_setup L)\<lparr>cfg_Jobs := j\<rparr>) = None)"
proof -
  from assms(1) obtain r st p b w m where r: "Resolve (h_toml H) (h_enc H) (h_env H) (h_rnd H) (h_fails H) (h_dflt H)
      (h_disk H) (resolve_options fl) = (disk, Inr r)" and L: "L = launch H (res_Config r) st p m b w"
    unfolding main_Serve [OF assms(2)] by blast
  have "well_configured (c\<lparr>cfg_Jobs := j\<rparr>) = well_configured c" for c j
    by (simp add: well_configured_def)
  then have "\<forall>j. Validate (su_cfg (la_setup L)\<lparr>cfg_Jobs := j\<rparr>) = None"
    using Resolve_valid_config [OF r assms(2)] L by (simp add: Validate_well_configured)
  moreover have "Start (la_runner L) F clk evs s = TickerPanic \<longleftrightarrow> \<not> tickers_ok (la_runner L)"
    by (auto simp: Start_def split: prod.split bool.split)
  ultimately show ?thesis using L by (auto simp: tickers_ok_def NewRunner_def)
qed

definition zero_interval_cfg :: Config where
  "zero_interval_cfg = test_cfg\<lparr>cfg_Jobs := (cfg_Jobs test_cfg)\<lparr>CleanupRelaysIntervalSeconds := 0\<rparr>\<rparr>"

theorem zero_interval_panics_witness:
  "\<exists>disk L. main (sample_host test_disk zero_interval_cfg) (default_flags ''/c'') = (disk, Serve L) \<and>
     Start (la_runner L) no_faults (\<lambda>_. 0) [] (srv_store (la_server L), initial_metrics) = TickerPanic"
proof -
  let ?H = "sample_host test_disk zero_interval_cfg" and ?fl = "default_flags ''/c''"
  have w: "well_configured (fst (cascade_plain (replicate 32 CHR 0x01) (resolve_options ?fl) zero_interval_cfg
      (markAllFieldsAsSource SourceConfigFile Map.empty)))"
    unfolding cascade_plain_config by code_simp
  have rnd: "length (h_rnd ?H) = 32" by simp
  obtain r where r: "Resolve (h_toml ?H) (h_enc ?H) (h_env ?H) (h_rnd ?H) (h_fails ?H) (h_dflt ?H) (h_disk ?H)
      (resolve_options ?fl) = (test_disk, Inr r)"
    using Resolve_sample [OF w] by auto
  have jobs: "cfg_Jobs (res_Config r) = cfg_Jobs zero_interval_cfg"
    using r by (elim Resolve_InrE) (auto simp: cascade_plain_config Let_def test_disk_def config_path_def resolve_options_def)
  obtain p where "NewVPNProvider (Some (cfg_VPN (res_Config r))) = Inr p"
    using NewVPNProvider_valid Resolve_valid_config [OF r rnd] by blast
  then obtain L where L: "main ?H ?fl = (test_disk, Serve L)" and cfg: "su_cfg (la_setup L) = res_Config r"
    unfolding main_Serve [OF rnd] using r Init_new by fastforce
  have "seconds (CleanupRelaysIntervalSeconds (cfg_Jobs (su_cfg (la_setup L)))) \<le> 0"
    by (simp add: cfg jobs zero_interval_cfg_def seconds_def)
  with zero_interval_panics [OF L rnd] L show ?thesis by blast
qed

definition first_config :: "string \<Rightarrow> Config" where
  "first_config rnd = cfg_Auth_update (\<lambda>a. a\<lparr>AdminAPIKey := EncodeToString rnd\<rparr>) Defaults"

lemma cascade_first:
  "fst (cascade_plain rnd (resolve_options (default_flags p)) Defaults s0) = first_config rnd"
proof -
  have flags: "with_flags (resolve_options (default_flags p)) Defaults = Defaults"
    by (simp add: with_flags_def resolve_options_def default_flags_def or_string_def Defaults_def)
  have "AdminAPIKey (cfg_Auth Defaults) = []" by (simp add: Defaults_def)
  then show ?thesis
    unfolding cascade_plain_config flags Let_def by (simp add: first_config_def generateAdminKey_def)
qed

lemma first_config_simps [simp]:
  "cfg_Server (first_config rnd) = cfg_Server Defaults" "cfg_Database (first_config rnd) = cfg_Database Defaults"
  "cfg_VPN (first_config rnd) = cfg_VPN Defaults" "cfg_RateLimit (first_config rnd) = cfg_RateLimit Defaults"
  "cfg_Log (first_config rnd) = cfg_Log Defaults" "cfg_Jobs (first_config rnd) = cfg_Jobs Defaults"
  "cfg_Registry (first_config rnd) = cfg_Registry Defaults" "AdminAPIKey (cfg_Auth (first_config rnd)) = EncodeToString rnd"
  by (simp_all add: first_config_def)

lemma first_config_ok:
  assumes "length rnd = 32"
  shows "well_configured (first_config rnd)" "\<not> blank (AdminAPIKey (cfg_Auth (first_config rnd)))"
proof -
  show key: "\<not> blank (AdminAPIKey (cfg_Auth (first_config rnd)))"
    using generated_key_not_blank [of rnd] assms by (cases "rnd = []") (simp_all add: generateAdminKey_def)
  have "well_configured test_cfg" by (rule well_configured_test)
  then show "well_configured (first_config rnd)"
    using key by (simp add: well_configured_def test_cfg_def)
qed

lemma Resolve_first:
  assumes "h_disk H path = None" "path \<noteq> []" "\<And>x. \<not> h_fails H x" "\<And>c. h_enc H c = Some (body c)" "length (h_rnd H) = 32"
  shows "\<exists>r. Resolve (h_toml H) (h_enc H) (h_env H) (h_rnd H) (h_fails H) (h_dflt H) (h_disk H)
      (resolve_options (default_flags path)) =
      ((h_disk H)(path \<mapsto> (config_header @ body (first_config (h_rnd H)), 384)), Inr r) \<and> res_Config r = first_config (h_rnd H)"
proof -
  let ?o = "resolve_options (default_flags path)" and ?s = "markAllFieldsAsSource SourceHardcodedDefault Map.empty"
  have conf: "config_path (h_dflt H) ?o = path"
    using assms(2) by (simp add: config_path_def resolve_options_def)
  obtain w where w: "cascade (h_env H) (h_rnd H) (h_dflt H) ?o True Defaults ?s =
      (first_config (h_rnd H), snd (cascade_plain (h_rnd H) ?o Defaults ?s), w)"
    using cascade_no_env [of True] cascade_first by metis
  show ?thesis
    using assms(1,3,4) first_config_ok(1) [OF assms(5)] unfolding Resolve_def Let_def config_path_def [symmetric] conf w
    by (simp add: WriteConfig_def finish_resolve_def Validate_well_configured [symmetric])
qed

lemma Init_first:
  assumes "schema (h_db H path) = Map.empty"
  shows "Init no_faults False (open_file H path) = (created_schema ((open_file H path)\<lparr>conn := OpenDB\<rparr>), None)"
  using assms migrate_fresh [of "(open_file H path)\<lparr>conn := OpenDB\<rparr>" no_faults]
  by (simp add: Init_def Let_def HealthCheck_def open_file_def)

text \<open>C15.  The first start works: with no configuration file, no flags, a working disk and driver
  and a database file that is new, the process serves on port 8080 with the default configuration
  and a fresh admin key of 64 hexadecimal digits, which it has written to the configuration file
  with mode 0600; the database has all its columns, no rows and a good invariant, the cache is
  empty, the jobs can start, and the banner says "Ready" whatever the VPN does.\<close>

theorem fresh_start_serves:
  assumes "h_disk H path = None" and "path \<noteq> []" and "\<And>x. \<not> h_fails H x" and "\<And>c. h_enc H c = Some (body c)"
    and "length (h_rnd H) = 32" and "h_faults H = no_faults" and "\<not> h_mkdir_fails H"
    and "schema (h_db H ''/var/lib/goy-coord/coord.db'') = Map.empty"
    and "st_nodes (h_db H ''/var/lib/goy-coord/coord.db'') = []" and "st_relays (h_db H ''/var/lib/goy-coord/coord.db'') = []"
  shows "\<exists>L. main H (default_flags path) =
       ((h_disk H)(path \<mapsto> (config_header @ body (first_config (h_rnd H)), 384)), Serve L) \<and>
    su_cfg (la_setup L) = first_config (h_rnd H) \<and> length (AdminAPIKey (cfg_Auth (su_cfg (la_setup L)))) = 64 \<and>
    la_addr L = ''0.0.0.0:8080'' \<and> tickers_ok (la_runner L) \<and> ready_line \<in> set (la_banner L) \<and>
    full_schema (srv_store (la_server L)) \<and> st_nodes (srv_store (la_server L)) = [] \<and>
    db_inv (srv_store (la_server L)) \<and> cache_coherent (su_cfg (la_setup L)) (srv_store (la_server L), srv_cache (la_server L))"
proof -
  let ?fl = "default_flags path" and ?c = "first_config (h_rnd H)"
  let ?disk = "(h_disk H)(path \<mapsto> (config_header @ body ?c, 384))"
  note ok = first_config_ok [OF assms(5)]
  obtain r where r: "Resolve (h_toml H) (h_enc H) (h_env H) (h_rnd H) (h_fails H) (h_dflt H) (h_disk H) (resolve_options ?fl) =
      (?disk, Inr r)" and cfg: "res_Config r = ?c"
    using Resolve_first [OF assms(1-5)] by blast
  let ?st = "created_schema ((open_file H ''/var/lib/goy-coord/coord.db'')\<lparr>conn := OpenDB\<rparr>)"
  have "DB_Path (cfg_Database (res_Config r)) = ''/var/lib/goy-coord/coord.db''" by (simp add: cfg Defaults_def)
  then have init: "Init (h_faults H) (h_mkdir_fails H) (open_file H (DB_Path (cfg_Database (res_Config r)))) = (?st, None)"
    using Init_first [of H, OF assms(8)] assms(6,7) by simp
  have vpn: "NewVPNProvider (Some (cfg_VPN (res_Config r))) = Inr Noop"
    by (simp add: cfg NewVPNProvider_def Defaults_def)
  define L where "L = launch H (res_Config r) ?st Noop (fst (startup_checks H ?fl ?disk (res_Config r) ?st Noop))
         (PrintBanner ServerVersion (Bind (cfg_Server (res_Config r))) (snd (startup_checks H ?fl ?disk (res_Config r) ?st Noop)))
         (res_Warnings r)"
  have "main H ?fl = (?disk, Serve L)"
    unfolding main_Serve [OF assms(5)] using r init vpn assms(6) L_def by (simp del: fun_upd_apply)
  moreover have "ready_line \<in> set (la_banner L)"
    using assms(2,3) ok(2)
    by (simp add: L_def PrintBanner_ready startup_checks_def RunChecks_def Let_def case_prod_unfold TableCount_open
        created_schema_def cfg assms(6) Defaults_def)
  moreover have "full_schema ?st" by (simp add: full_schema_def created_schema_def has_column_def)
  moreover have "st_nodes ?st = []" "st_relays ?st = []"
    using assms(9,10) by (simp_all add: created_schema_def open_file_def Let_def)
  moreover from this have "db_inv ?st" by (simp add: db_inv_def relays_inv_def)
  moreover have "tickers_ok (la_runner L)" "la_addr L = ''0.0.0.0:8080''"
    by (simp_all add: L_def cfg tickers_ok_def NewRunner_def Defaults_def seconds_def Second_def)
  moreover have "length (AdminAPIKey (cfg_Auth ?c)) = 64"
    using assms(5) by simp
  ultimately show ?thesis
    by (intro exI [of _ L]) (simp add: L_def cfg cache_coherent_def NewRelayCache_def)
qed

theorem fresh_start_serves_witness:
  "\<exists>disk L. main (sample_host Map.empty Defaults) (default_flags ''/c'') = (disk, Serve L) \<and>
     ready_line \<in> set (la_banner L) \<and> db_inv (srv_store (la_server L))"
proof -
  let ?H = "sample_host Map.empty Defaults"
  have "h_db ?H p = NewSQLiteStore p" for p by (simp add: sample_host_def)
  then have "schema (h_db ?H p) = Map.empty" "st_nodes (h_db ?H p) = []" "st_relays (h_db ?H p) = []" for p
    by (simp_all add: NewSQLiteStore_def)
  then show ?thesis
    using fresh_start_serves [of ?H "''/c''" "\<lambda>_. ''b''"] by auto
qed

end
