(* ===== verification/System.thy ===== *)
theory System
  imports Access Boot
begin

text \<open>
  The running server as a transition system: requests, background jobs and the clean-up of the rate
  limiter as steps on the state of the server; and below them the single calls to the database,
  which concurrent requests interleave.  Each handler is a run of such calls, so what holds of every
  interleaving holds of the server.
\<close>

section \<open>Invariants and simulations\<close>

locale step_invariant =
  fixes step :: "'s \<Rightarrow> 's \<Rightarrow> bool" and ok :: "'s \<Rightarrow> bool"
  assumes preserved: "step s s' \<Longrightarrow> ok s \<Longrightarrow> ok s'"
begin

lemma run: "step\<^sup>*\<^sup>* s s' \<Longrightarrow> ok s \<Longrightarrow> ok s'"
  by (induction rule: rtranclp_induct) (auto intro: preserved)

end

locale step_simulation =
  fixes cstep :: "'c \<Rightarrow> 'c \<Rightarrow> bool" and astep :: "'a \<Rightarrow> 'a \<Rightarrow> bool" and abs :: "'c \<Rightarrow> 'a"
  assumes simulates: "cstep s s' \<Longrightarrow> astep\<^sup>*\<^sup>* (abs s) (abs s')"
begin

lemma run: "cstep\<^sup>*\<^sup>* s s' \<Longrightarrow> astep\<^sup>*\<^sup>* (abs s) (abs s')"
  by (induction rule: rtranclp_induct) (auto dest: simulates intro: rtranclp_trans)

end

section \<open>The calls to the database\<close>

text \<open>
  The state is the database and the announcements on their way: \<open>POST /relays\<close> looks the node up
  and inserts the relay in two separate statements, and anything can happen in between.  The
  clean-up of relays is two statements as well, each a step of its own.  Every other handler and job
  changes the database in one call.
\<close>

type_synonym db_state = "SQLiteStore \<times> Relay list"

inductive db_step :: "db_state \<Rightarrow> db_state \<Rightarrow> bool" where
  Check: "GetNodeByID F (rr_NodeID req) st = Inr n \<Longrightarrow> check_register_relay req = None \<Longrightarrow>
     db_step (st, P) (st, announced_relay t req n # P)"
| Commit: "r \<in> set P \<Longrightarrow> db_step (st, P) (fst (UpsertRelay F t r st), remove1 r P)"
| Create: "db_step (st, P) (fst (CreateNode F t (new_node clk i h req) st), P)"
| DeleteN: "db_step (st, P) (fst (DeleteNode F t i st), P)"
| Heartbeat: "db_step (st, P) (fst (UpdateRelayHeartbeat F t i gb st), P)"
| HeartbeatV1: "GetRelayByNodeID G i st0 = Inr old \<Longrightarrow>
     db_step (st, P) (fst (UpdateRelayFull F t (heartbeat_relay u req old) st), P)"
| DeleteR: "db_step (st, P) (fst (DeleteRelay F i st), P)"
| Mark: "db_step (st, P) (fst (mark_stale F t w st), P)"
| Sweep: "db_step (st, P) (fst (delete_expired F t w st), P)"
| CleanNodes: "db_step (st, P) (fst (CleanupInactiveNodes F t u h st), P)"

inductive_cases db_stepE: "db_step (st, P) (st', P')"

section \<open>The steps of the server\<close>

text \<open>
  \<open>S\<close> is what the router was given and \<open>R\<close> the runner: a request meets an arbitrary world, a job an
  arbitrary driver and clock; \<open>LimiterTick\<close> is a turn of \<open>startCleanupLoop\<close>.
\<close>

inductive server_step :: "Setup \<Rightarrow> Runner \<Rightarrow> Server \<Rightarrow> Server \<Rightarrow> bool" for S R where
  Request: "ServeHTTP S W r s = (s', resp) \<Longrightarrow> server_step S R s s'"
| Job: "loop_turn R ev F clk (srv_store s, srv_metrics s) = Some (st, m) \<Longrightarrow>
     server_step S R s (s\<lparr>srv_store := st, srv_metrics := m\<rparr>)"
| LimiterTick: "server_step S R s (s\<lparr>srv_limiter := cleanupStaleBuckets now (srv_limiter s)\<rparr>)"

inductive_cases server_stepE: "server_step S R s s'"

section \<open>Every handler is a run of calls\<close>

lemma db_step_star [intro]: "db_step (st, P) (st', P) \<Longrightarrow> db_step\<^sup>*\<^sup>* (st, P) (st', P)"
  by (rule r_into_rtranclp)

lemma announce_run:
  assumes "GetNodeByID G (rr_NodeID req) st = Inr n" "check_register_relay req = None"
  shows "db_step\<^sup>*\<^sup>* (st, P) (fst (UpsertRelay F t (announced_relay u req n) st), P)"
proof -
  let ?r = "announced_relay u req n"
  have "db_step (st, P) (st, ?r # P)" using assms by (rule Check)
  moreover have "db_step (st, ?r # P) (fst (UpsertRelay F t ?r st), remove1 ?r (?r # P))" by (rule Commit) simp
  ultimately show ?thesis by simp
qed

lemma CleanupStaleRelays_run: "db_step\<^sup>*\<^sup>* (st, P) (fst (CleanupStaleRelays F t ttl st), P)"
proof -
  let ?w = "ttl_window ttl"
  have "db_step (st, P) (fst (mark_stale F t ?w st), P)" by (rule Mark)
  moreover have "db_step (fst (mark_stale F t ?w st), P) (fst (delete_expired F t ?w (fst (mark_stale F t ?w st))), P)"
    by (rule Sweep)
  ultimately show ?thesis
    by (auto simp: fst_CleanupStaleRelays Let_def intro: converse_rtranclp_into_rtranclp)
qed

lemma RegisterRelayHandler_run:
  assumes "RegisterRelayHandler F clk J r (st, cache) = ((st', cache'), resp)"
  shows "db_step\<^sup>*\<^sup>* (st, P) (st', P)"
proof -
  obtain ok req where dec: "decode_register_relay J (RequestBody r) = (ok, req)" by fastforce
  have "st' = st \<or> (\<exists>n. GetNodeByID F (rr_NodeID req) st = Inr n \<and> check_register_relay req = None \<and>
      st' = fst (UpsertRelay F (clk 1) (announced_relay (clk 0) req n) st))"
    using assms dec by (auto simp: RegisterRelayHandler_def split: if_splits option.splits sum.splits prod.splits)
  then show ?thesis using announce_run by auto
qed

lemma RegisterNodeHandler_run:
  assumes "RegisterNodeHandler F clk rnd J W cfg vpn r (st, m) = ((st', m'), resp)"
  shows "db_step\<^sup>*\<^sup>* (st, P) (st', P)"
proof -
  obtain ok req where dec: "decode_register_node J (RequestBody r) = (ok, req)" by fastforce
  have "st' = st \<or> st' = fst (CreateNode F (clk 2) (new_node clk (GenerateNodeID rnd)
      (HashAuthKey (rn_AuthKey req) (HMACSecret (cfg_Auth cfg))) req) st)"
    using assms dec by (auto simp: RegisterNodeHandler_def Let_def split: if_splits option.splits sum.splits prod.splits)
  then show ?thesis using Create by auto
qed

lemma PutV1RelayHeartbeatHandler_run:
  assumes "PutV1RelayHeartbeatHandler F clk J cfg r i (st, cache) = ((st', cache'), resp)"
  shows "db_step\<^sup>*\<^sup>* (st, P) (st', P)"
proof -
  obtain ok req where dec: "decode_heartbeat_v1 J (RequestBody r) = (ok, req)" by fastforce
  have "st' = st \<or> (\<exists>old. GetRelayByNodeID F i st = Inr old \<and>
      st' = fst (UpdateRelayFull F (clk 1) (heartbeat_relay (clk 0) req old) st))"
    using assms dec by (auto simp: PutV1RelayHeartbeatHandler_def split: if_splits option.splits sum.splits prod.splits)
  then show ?thesis using HeartbeatV1 by auto
qed

lemma small_handlers_run:
  "HeartbeatRelayHandler F clk J r i (st, cache) = ((st', cache'), resp) \<Longrightarrow> db_step\<^sup>*\<^sup>* (st, P) (st', P)"
  "DeleteRelayHandler F i (st, cache) = ((st', cache'), resp) \<Longrightarrow> db_step\<^sup>*\<^sup>* (st, P) (st', P)"
  "DeleteNodeHandler F clk i st = (st', resp) \<Longrightarrow> db_step\<^sup>*\<^sup>* (st, P) (st', P)"
proof -
  show "DeleteNodeHandler F clk i st = (st', resp) \<Longrightarrow> db_step\<^sup>*\<^sup>* (st, P) (st', P)"
    using DeleteNodeHandler_outcome [of F clk i st st' resp] DeleteN by auto
  have del: "fst (fst (DeleteRelayHandler F i (st, cache))) \<in> {st, fst (DeleteRelay F i st)}"
    by (auto simp: DeleteRelayHandler_def split: option.split prod.split)
  show "DeleteRelayHandler F i (st, cache) = ((st', cache'), resp) \<Longrightarrow> db_step\<^sup>*\<^sup>* (st, P) (st', P)"
    using del DeleteR by auto
  show "HeartbeatRelayHandler F clk J r i (st, cache) = ((st', cache'), resp) \<Longrightarrow> db_step\<^sup>*\<^sup>* (st, P) (st', P)"
    using HeartbeatRelayHandler_outcome [of F st cache clk i J r] Heartbeat by (auto simp: relay_outcome_def)
qed

lemma with_relays_run:
  assumes "with_relays s x = (s1, resp)"
    and "\<And>st' cache' resp'. x = ((st', cache'), resp') \<Longrightarrow> db_step\<^sup>*\<^sup>* (srv_store s, P) (st', P)"
  shows "db_step\<^sup>*\<^sup>* (srv_store s, P) (srv_store s1, P)"
  using assms by (cases x) (auto simp: with_relays_def)

lemma handle_run:
  assumes "handle S W q rt s = (s1, resp)"
  shows "db_step\<^sup>*\<^sup>* (srv_store s, P) (srv_store s1, P)"
proof (cases rt)
  case R_RegisterNode
  with assms show ?thesis by (auto split: prod.splits dest: RegisterNodeHandler_run)
next
  case (R_DeleteNode i)
  with assms small_handlers_run(3) show ?thesis
    by (cases "DeleteNodeHandler (wf_faults W) (wf_clk W) i (srv_store s)") (auto simp: with_store_def)
next
  case (R_PutV1Relay i)
  with assms have "with_relays s (PutV1RelayHeartbeatHandler (wf_faults W) (wf_clk W) (wf_json W) (su_cfg S) q i
      (srv_store s, srv_cache s)) = (s1, resp)" by simp
  then show ?thesis by (rule with_relays_run) (rule PutV1RelayHeartbeatHandler_run)
next
  case R_PostRelay
  with assms have "with_relays s (RegisterRelayHandler (wf_faults W) (wf_clk W) (wf_json W) q
      (srv_store s, srv_cache s)) = (s1, resp)" by simp
  then show ?thesis by (rule with_relays_run) (rule RegisterRelayHandler_run)
next
  case (R_PutRelay i)
  with assms have "with_relays s (HeartbeatRelayHandler (wf_faults W) (wf_clk W) (wf_json W) q i
      (srv_store s, srv_cache s)) = (s1, resp)" by simp
  then show ?thesis by (rule with_relays_run) (rule small_handlers_run)
next
  case (R_DeleteRelay i)
  with assms have "with_relays s (DeleteRelayHandler (wf_faults W) i (srv_store s, srv_cache s)) = (s1, resp)" by simp
  then show ?thesis by (rule with_relays_run) (rule small_handlers_run)
qed (use assms in \<open>auto split: prod.splits\<close>)

lemma server_step_run:
  assumes "server_step S R s s'"
  shows "db_step\<^sup>*\<^sup>* (srv_store s, P) (srv_store s', P)"
  using assms
proof cases
  case (Request W r resp)
  from Request show ?thesis
  proof (cases rule: ServeHTTP_cases)
    case (handled q s0 s1)
    with handle_run [OF handled(4), of P] show ?thesis by simp
  qed simp
next
  case (Job ev F clk st m)
  with loop_turn_store [OF Job(2)] CleanupStaleRelays_run CleanNodes show ?thesis by auto
qed simp

interpretation server_db: step_simulation "server_step S R" db_step "\<lambda>s. (srv_store s, [])"
  by unfold_locales (rule server_step_run)

section \<open>Invariants of every interleaving\<close>

text \<open>Both tables are well formed, every relay belongs to a row of \<open>nodes\<close>, and so does every
  relay that is still to be inserted.\<close>

definition db_ok :: "db_state \<Rightarrow> bool" where
  "db_ok s \<longleftrightarrow> db_inv (fst s) \<and> Relay_NodeID ` set (snd s) \<subseteq> Node_ID ` set (st_nodes (fst s))"

lemma node_ids_kept:
  "db_step s s' \<Longrightarrow> Node_ID ` set (st_nodes (fst s)) \<subseteq> Node_ID ` set (st_nodes (fst s'))"
  by (induction rule: db_step.induct) (simp_all del: node_ids_ops(3) add: node_ids_ops(3))

lemma node_ids_run:
  assumes "db_step\<^sup>*\<^sup>* (st, P) (st', P')"
  shows "Node_ID ` set (st_nodes st) \<subseteq> Node_ID ` set (st_nodes st')"
proof -
  have "Node_ID ` set (st_nodes (fst s)) \<subseteq> Node_ID ` set (st_nodes (fst s'))" if "db_step\<^sup>*\<^sup>* s s'" for s s'
    using that by (induction rule: rtranclp_induct) (use node_ids_kept in blast)+
  from this [OF assms] show ?thesis by simp
qed

lemma db_ok_step:
  assumes "db_step s s'" "db_ok s"
  shows "db_ok s'"
proof -
  have inv: "db_inv (fst s)" and pend: "Relay_NodeID ` set (snd s) \<subseteq> Node_ID ` set (st_nodes (fst s))"
    using assms(2) by (simp_all add: db_ok_def)
  have "db_inv (fst s') \<and> Relay_NodeID ` set (snd s') \<subseteq> Node_ID ` set (st_nodes (fst s))"
    using assms(1) inv pend
  proof (induction rule: db_step.induct)
    case (Check F req st n P t)
    then show ?case using GetNodeByID_InrD [OF Check(1)] by (auto simp: announced_relay_def intro: rev_image_eqI)
  next
    case (Commit r P st F t)
    then have "Relay_NodeID r \<in> Node_ID ` set (st_nodes st)" by auto
    with Commit show ?case using set_remove1_subset [of r P] by (auto intro!: inv_intros)
  qed (auto intro: inv_intros)
  with node_ids_kept [OF assms(1)] show ?thesis unfolding db_ok_def by blast
qed

interpretation db_inv_steps: step_invariant db_step db_ok
  by unfold_locales (rule db_ok_step)

text \<open>\<open>TouchNode\<close> has no caller: no node is ever seen.\<close>

definition never_seen :: "db_state \<Rightarrow> bool" where
  "never_seen s \<longleftrightarrow> (\<forall>n\<in>set (st_nodes (fst s)). Node_LastSeenAt n = None)"

lemma never_seen_exec_update:
  "(\<And>n. Node_LastSeenAt (f n) = Node_LastSeenAt n) \<Longrightarrow> \<forall>n\<in>set ns. Node_LastSeenAt n = None \<Longrightarrow>
   n \<in> set (fst (exec_update F q p f ns)) \<Longrightarrow> Node_LastSeenAt n = None"
  by (auto simp: exec_update_def set_update_where split: if_splits)

lemma never_seen_DeleteNode:
  assumes "\<forall>n\<in>set (st_nodes st). Node_LastSeenAt n = None" "n \<in> set (st_nodes (fst (DeleteNode F t i st)))"
  shows "Node_LastSeenAt n = None"
proof -
  have "st_nodes (fst (DeleteNode F t i st)) = fst (exec_update F Q_DeleteNode (\<lambda>r. Node_ID r = i \<and> live r)
      (\<lambda>r. r\<lparr>Node_Status := ''deleted'', Node_DeletedAt := Some t, Node_UpdatedAt := t\<rparr>) (st_nodes st))"
    by (simp add: DeleteNode_def Let_def case_prod_unfold)
  from assms(2) [unfolded this] show ?thesis
    by (rule never_seen_exec_update [OF _ assms(1), rotated]) simp
qed

lemma never_seen_CleanupInactiveNodes:
  assumes "\<forall>n\<in>set (st_nodes st). Node_LastSeenAt n = None"
    "n \<in> set (st_nodes (fst (CleanupInactiveNodes F t u h st)))"
  shows "Node_LastSeenAt n = None"
proof -
  have "st_nodes (fst (CleanupInactiveNodes F t u h st)) = fst (exec_update F Q_CleanupInactiveNodes
      (inactive_rule (t + hours (- (if h \<le> 0 then 24 else h))))
      (\<lambda>r. r\<lparr>Node_Status := ''inactive'', Node_UpdatedAt := u\<rparr>) (st_nodes st))"
    by (simp add: CleanupInactiveNodes_def Let_def case_prod_unfold)
  from assms(2) [unfolded this] show ?thesis
    by (rule never_seen_exec_update [OF _ assms(1), rotated]) simp
qed

lemma never_seen_CreateNode:
  assumes "\<forall>n\<in>set (st_nodes st). Node_LastSeenAt n = None" "Node_LastSeenAt m = None"
    "n \<in> set (st_nodes (fst (CreateNode F t m st)))"
  shows "Node_LastSeenAt n = None"
proof -
  have "set (st_nodes (fst (CreateNode F t m st))) \<subseteq> insert (fill_node t m) (set (st_nodes st))"
    by (simp add: CreateNode_def Let_def subset_insertI)
  moreover have "Node_LastSeenAt (fill_node t m) = None" using assms(2) by (simp add: fill_node_def)
  ultimately show ?thesis using assms(1,3) by blast
qed

lemma new_node_LastSeenAt [simp]: "Node_LastSeenAt (new_node clk i h req) = None"
  by (simp add: new_node_def)

lemma never_seen_step:
  assumes "db_step s s'" "never_seen s"
  shows "never_seen s'"
  using assms
proof (induction rule: db_step.induct)
  case (Create st P F t clk i h req)
  then show ?case unfolding never_seen_def fst_conv
    using never_seen_CreateNode [OF _ new_node_LastSeenAt] by blast
next
  case (DeleteN st P F t i)
  then show ?case unfolding never_seen_def fst_conv using never_seen_DeleteNode by blast
next
  case (CleanNodes st P F t u h)
  then show ?case unfolding never_seen_def fst_conv using never_seen_CleanupInactiveNodes by blast
qed (simp_all add: never_seen_def)

interpretation unseen_steps: step_invariant db_step never_seen
  by unfold_locales (rule never_seen_step)

section \<open>Properties\<close>

text \<open>C2.  References survive every interleaving: however the database calls of concurrent requests
  and jobs are interleaved (an announcement's check and its insertion may be far apart, other calls
  in between, any of them failing), both tables stay well formed, every relay belongs to a row of
  \<open>nodes\<close>, every announcement still under way will too, and no row of \<open>nodes\<close> ever disappears.
  SQLite does not enforce the foreign key; that nodes are only marked as deleted does.\<close>

theorem interleavings_keep_references:
  assumes "db_inv st" and "db_step\<^sup>*\<^sup>* (st, []) (st', P)"
  shows "db_inv st' \<and> Relay_NodeID ` set (st_relays st') \<subseteq> Node_ID ` set (st_nodes st') \<and>
    Relay_NodeID ` set P \<subseteq> Node_ID ` set (st_nodes st') \<and>
    Node_ID ` set (st_nodes st) \<subseteq> Node_ID ` set (st_nodes st')"
proof -
  have "db_ok (st, [])" using assms(1) by (simp add: db_ok_def)
  with assms(2) have "db_ok (st', P)" by (rule db_inv_steps.run)
  moreover note node_ids_run [OF assms(2)]
  ultimately show ?thesis using db_invD(3) [of st'] unfolding db_ok_def fst_conv snd_conv by blast
qed

definition sample_announcement :: RegisterRelayRequest where
  "sample_announcement = \<lparr>rr_NodeID = ''a'', rr_URL = ''ws://h:1'', rr_Fingerprint = [],
     rr_Storage = None, rr_ReplicationFactor = 0, rr_Version = [], rr_Capabilities = None\<rparr>"

lemma sample_announcement_ok: "check_register_relay sample_announcement = None"
  by code_simp

text \<open>The race of an announcement with the deletion of its node.\<close>

lemma announce_race:
  assumes "GetNodeByID no_faults (rr_NodeID req) st = Inr n" "check_register_relay req = None"
  shows "db_step\<^sup>*\<^sup>* (st, []) (fst (UpsertRelay no_faults t (announced_relay u req n)
     (fst (DeleteNode no_faults d (rr_NodeID req) st))), [])"
proof -
  let ?r = "announced_relay u req n" and ?st1 = "fst (DeleteNode no_faults d (rr_NodeID req) st)"
  have "db_step (st, []) (st, [?r])" using assms by (rule Check)
  moreover have "db_step (st, [?r]) (?st1, [?r])" by (rule DeleteN)
  moreover have "db_step (?st1, [?r]) (fst (UpsertRelay no_faults t ?r ?st1), remove1 ?r [?r])" by (rule Commit) simp
  ultimately show ?thesis by (auto intro: converse_rtranclp_into_rtranclp)
qed

lemma announce_race_result:
  assumes "nodes_inv (st_nodes st)" "n \<in> set (st_nodes st)" "live n" "check_register_relay req = None" "rr_NodeID req = Node_ID n"
    and "DeleteNode no_faults d (Node_ID n) st = (st1, None)" "GetNodeByID no_faults (Node_ID n) st1 = Inl ErrNodeNotFound"
  shows "\<exists>st2 x. db_step\<^sup>*\<^sup>* (st, []) (st2, []) \<and> GetNodeByID no_faults (Node_ID n) st2 = Inl ErrNodeNotFound \<and>
         GetRelayByNodeID no_faults (Node_ID n) st2 = Inr x \<and> Relay_Status x = ''active''"
proof -
  have "GetNodeByID no_faults (rr_NodeID req) st = Inr n"
    using GetNodeByID_present [OF assms(1-3)] assms(5) by simp
  note race = announce_race [OF this assms(4), of 1 0 d]
  let ?new = "row_of (RelayNow 1 (announced_relay 0 req n))"
  let ?st2 = "fst (UpsertRelay no_faults 1 (announced_relay 0 req n) st1)"
  have st2: "?st2 = st1\<lparr>st_relays := upsert_row ?new (st_relays st1)\<rparr>"
    by (simp add: UpsertRelay_def Let_def)
  have key: "Relay_NodeID ?new = Node_ID n" by (simp add: announced_relay_def)
  have "GetRelayByNodeID no_faults (Node_ID n) ?st2 = Inr (scanRelay (merge_row (get_row (st_relays st1) (Node_ID n)) ?new))"
    using get_row_upsert [of ?new "st_relays st1" "Node_ID n"] key by (simp add: st2 GetRelayByNodeID_no_faults)
  moreover have "Relay_Status (scanRelay (merge_row (get_row (st_relays st1) (Node_ID n)) ?new)) = ''active''"
    by (auto simp: merge_row_def scanRelay_row_of RelayNow_def announced_relay_def RelayStatusActive_def
        scanRelay_def Relay.defs RelayRow.defs row_of_def split: option.split)
  moreover have "GetNodeByID no_faults (Node_ID n) ?st2 = Inl ErrNodeNotFound"
    using assms(7) by (simp add: GetNodeByID_no_faults st2)
  ultimately show ?thesis using race assms(5,6) by auto
qed

theorem interleavings_keep_references_witness:
  "let st = sample_store [sample_node ''a'' ''h'' 1] [];
       st' = fst (UpsertRelay no_faults 4 (announced_relay 2 sample_announcement (sample_node ''a'' ''h'' 1))
         (fst (DeleteNode no_faults 3 ''a'' st)))
   in db_inv st' \<and> Relay_NodeID ` set (st_relays st') \<subseteq> Node_ID ` set (st_nodes st')"
proof -
  let ?st = "sample_store [sample_node ''a'' ''h'' 1] []"
  have inv: "db_inv ?st"
    by (simp add: db_inv_def nodes_inv_def relays_inv_def sample_store_def sample_node_def)
  have id: "rr_NodeID sample_announcement = ''a''" by (simp add: sample_announcement_def)
  have "GetNodeByID no_faults (rr_NodeID sample_announcement) ?st = Inr (sample_node ''a'' ''h'' 1)"
    by (simp add: id GetNodeByID_no_faults sample_store_def sample_node_def live_def)
  from interleavings_keep_references [OF inv announce_race [OF this sample_announcement_ok]] show ?thesis
    unfolding Let_def id by blast
qed

text \<open>C3.  The server refines the calls: whatever requests arrive (any routes, clients, clocks,
  driver faults and VPN answers), whatever the jobs do and however often the limiter is cleaned,
  the database moves only by the calls above, so that every state the server reaches from a well
  formed database is well formed.\<close>

theorem server_refines_calls:
  assumes "(server_step S R)\<^sup>*\<^sup>* s s'"
  shows "db_step\<^sup>*\<^sup>* (srv_store s, []) (srv_store s', []) \<and>
    (db_inv (srv_store s) \<longrightarrow> db_inv (srv_store s'))"
  using server_db.run [OF assms] db_inv_steps.run by (fastforce simp: db_ok_def)

theorem server_refines_calls_witness:
  "let S = sample_setup (auth_cfg True ''secret''); R = NewRunner 60 300 300 48;
       s' = fst (ServeHTTP S (sample_world (R_DeleteNode ''a''))
         (sample_request ''DELETE'' ''/v1/nodes/a'' ''Bearer secret'') sample_server)
   in db_inv (srv_store s')"
proof -
  let ?S = "sample_setup (auth_cfg True ''secret'')" and ?R = "NewRunner 60 300 300 48"
  let ?s' = "fst (ServeHTTP ?S (sample_world (R_DeleteNode ''a''))
         (sample_request ''DELETE'' ''/v1/nodes/a'' ''Bearer secret'') sample_server)"
  have "server_step ?S ?R sample_server ?s'" by (rule Request) (rule surjective_pairing)
  from server_refines_calls [OF r_into_rtranclp, OF this] db_inv_sample_server show ?thesis by simp
qed

text \<open>C12.  No node stays active: no request ever records that a node was seen, so in every state
  the server reaches from a database without such records, each run of the clean-up of inactive
  nodes deactivates all active nodes, also those registered or announcing a relay at that very
  moment, whatever the threshold.\<close>

theorem cleanup_deactivates_all:
  assumes "(server_step S R)\<^sup>*\<^sup>* s s'" and "\<forall>n\<in>set (st_nodes (srv_store s)). Node_LastSeenAt n = None"
    and "\<not> F (Exec Q_CleanupInactiveNodes)"
  shows "\<forall>n\<in>set (st_nodes (fst (runCleanupInactiveNodes F clk R (srv_store s', m)))). Node_Status n \<noteq> ''active''"
proof -
  have "never_seen (srv_store s', [])"
    using unseen_steps.run [OF server_db.run [OF assms(1)]] assms(2) by (simp add: never_seen_def)
  then have "\<forall>n\<in>set (st_nodes (srv_store s')). Node_LastSeenAt n = None" by (simp add: never_seen_def)
  moreover have "st_nodes (fst (runCleanupInactiveNodes F clk R (srv_store s', m))) =
      update_where (inactive_rule (clk 0 + hours (- (if nodeInactiveThresholdHours R \<le> 0 then 24 else nodeInactiveThresholdHours R))))
      (\<lambda>r. r\<lparr>Node_Status := ''inactive'', Node_UpdatedAt := clk 1\<rparr>) (st_nodes (srv_store s'))"
    using assms(3) by (simp add: fst_runCleanupInactiveNodes CleanupInactiveNodes_def exec_update_def Let_def)
  ultimately show ?thesis by (auto simp: set_update_where inactive_rule_def)
qed

theorem cleanup_deactivates_all_witness:
  "let R = NewRunner 60 300 300 48 in
   map Node_Status (st_nodes (srv_store sample_server)) = [''active''] \<and>
   (\<forall>n\<in>set (st_nodes (fst (runCleanupInactiveNodes no_faults (\<lambda>_. 2) R (srv_store sample_server, initial_metrics)))).
      Node_Status n \<noteq> ''active'')"
proof -
  have "\<forall>n\<in>set (st_nodes (srv_store sample_server)). Node_LastSeenAt n = None"
    by (simp add: sample_store_def sample_node_def)
  from cleanup_deactivates_all [OF rtranclp.rtrancl_refl this, where F = no_faults and
      R = "NewRunner 60 300 300 48" and clk = "\<lambda>_. 2" and m = initial_metrics]
  show ?thesis by (simp add: sample_store_def sample_node_def)
qed



end
