(* ===== verification/Concurrent.thy ===== *)
theory Concurrent
  imports System
begin

text \<open>
  The relay cache under concurrency.  \<open>GET /relays\<close> asks the database and fills the cache in two
  steps, a handler that changes a relay calls the database and drops the cache in two steps, and
  the requests of many clients interleave; the locks of \<open>RelayCache\<close> and of the database make each
  single step atomic.  Whatever the interleaving, the age of what the cache serves is bounded.
\<close>

section \<open>The steps\<close>

text \<open>
  The database with the announcements on their way, the cache, and the answers of unfiltered
  queries that are not in the cache yet, each with the clock reading its query used.
\<close>

record conc_state =
  cc_db :: db_state
  cc_cache :: "RelayCache option"
  cc_flight :: "(time \<times> RelayDTO list \<times> int) list"

text \<open>
  Between a query and its fill at most \<open>D\<close> passes.  \<open>Drop\<close> may happen at any time, also without a
  change of the database, and a request may die between its query and its fill (\<open>Lost\<close>).
\<close>

inductive conc_step :: "Config \<Rightarrow> duration \<Rightarrow> conc_state \<Rightarrow> conc_state \<Rightarrow> bool" for cfg D where
  DB: "db_step (cc_db s) d \<Longrightarrow> conc_step cfg D s (s\<lparr>cc_db := d\<rparr>)"
| Drop: "conc_step cfg D s (s\<lparr>cc_cache := map_option Invalidate (cc_cache s)\<rparr>)"
| Ask: "GetRelays_query F clk cfg None 0 (fst (cc_db s)) = Inr res \<Longrightarrow>
     conc_step cfg D s (s\<lparr>cc_flight := (clk 2, res) # cc_flight s\<rparr>)"
| Fill: "(t, res) \<in> set (cc_flight s) \<Longrightarrow> clk 3 - t \<le> D \<Longrightarrow>
     conc_step cfg D s (s\<lparr>cc_cache := fst (GetRelays_finish clk None 0 res (cc_cache s)),
       cc_flight := remove1 (t, res) (cc_flight s)\<rparr>)"
| Lost: "conc_step cfg D s (s\<lparr>cc_flight := remove1 x (cc_flight s)\<rparr>)"

inductive_cases conc_stepE: "conc_step cfg D s s'"

abbreviation conc_run :: "Config \<Rightarrow> duration \<Rightarrow> conc_state \<Rightarrow> conc_state \<Rightarrow> bool" where
  "conc_run cfg D \<equiv> (conc_step cfg D)\<^sup>*\<^sup>*"

section \<open>Every answer has a source\<close>

text \<open>\<open>answered cfg s t x\<close>: the unfiltered query at the clock reading \<open>t\<close> on the database of \<open>s\<close>
  gives \<open>x\<close>.\<close>

definition answered :: "Config \<Rightarrow> conc_state \<Rightarrow> time \<Rightarrow> RelayDTO list \<times> int \<Rightarrow> bool" where
  "answered cfg s t x \<longleftrightarrow> GetRelays_query no_faults (\<lambda>_. t) cfg None 0 (fst (cc_db s)) = Inr x"

text \<open>The run from \<open>s0\<close> to \<open>s\<close> went through a state that gave this answer.\<close>

definition source :: "Config \<Rightarrow> duration \<Rightarrow> conc_state \<Rightarrow> conc_state \<Rightarrow> time \<Rightarrow> RelayDTO list \<times> int \<Rightarrow> bool" where
  "source cfg D s0 s t x \<longleftrightarrow> (\<exists>s1. conc_run cfg D s0 s1 \<and> conc_run cfg D s1 s \<and> answered cfg s1 t x)"

text \<open>What is in flight or in the cache has such a source, and the cache was filled at most \<open>D\<close> after
  that query.\<close>

definition sourced :: "Config \<Rightarrow> duration \<Rightarrow> duration \<Rightarrow> conc_state \<Rightarrow> conc_state \<Rightarrow> bool" where
  "sourced cfg D ttl s0 s \<longleftrightarrow> conc_run cfg D s0 s \<and>
     (\<forall>(t, x)\<in>set (cc_flight s). source cfg D s0 s t x) \<and>
     (\<forall>c. cc_cache s = Some c \<longrightarrow> cache_ttl c = ttl \<and>
        (hasCached c \<longrightarrow> (\<exists>t. source cfg D s0 s t (cached_relays c, cached_total c) \<and> cachedAt c - t \<le> D)))"

lemma answered_query:
  assumes "GetRelays_query F clk cfg None 0 (fst (cc_db s)) = Inr x"
  shows "answered cfg s (clk 2) x"
proof -
  have "GetRelays_query no_faults (\<lambda>_. clk 2) cfg None 0 (fst (cc_db s)) = Inr x"
    using GetRelays_query_faultless [OF assms] by (simp add: GetRelays_query_clk)
  then show ?thesis by (simp add: answered_def)
qed

lemma source_now: "conc_run cfg D s0 s \<Longrightarrow> answered cfg s t x \<Longrightarrow> source cfg D s0 s t x"
  unfolding source_def by blast

lemma source_later: "source cfg D s0 s t x \<Longrightarrow> conc_step cfg D s s' \<Longrightarrow> source cfg D s0 s' t x"
  unfolding source_def by (meson rtranclp.rtrancl_into_rtrancl)

lemma set_remove1_D: "a \<in> set (remove1 x xs) \<Longrightarrow> a \<in> set xs"
  using set_remove1_subset by fast

lemma sourced_step:
  assumes "conc_step cfg D s s'" "sourced cfg D ttl s0 s"
  shows "sourced cfg D ttl s0 s'"
proof -
  have run: "conc_run cfg D s0 s" and flight: "\<And>t x. (t, x) \<in> set (cc_flight s) \<Longrightarrow> source cfg D s0 s t x"
    and ttl: "\<And>c. cc_cache s = Some c \<Longrightarrow> cache_ttl c = ttl"
    and cached: "\<And>c. cc_cache s = Some c \<Longrightarrow> hasCached c \<Longrightarrow>
      \<exists>t. source cfg D s0 s t (cached_relays c, cached_total c) \<and> cachedAt c - t \<le> D"
    using assms(2) by (auto simp: sourced_def)
  have run': "conc_run cfg D s0 s'" using run assms(1) by (rule rtranclp.rtrancl_into_rtrancl)
  note later = source_later [OF _ assms(1)]
  have keep: "source cfg D s0 s t x \<Longrightarrow> source cfg D s0 s' t x" for t x by (rule later)
  have old: "sourced cfg D ttl s0 s'"
    if "\<And>t x. (t, x) \<in> set (cc_flight s') \<Longrightarrow> source cfg D s0 s' t x" "cc_cache s' = cc_cache s"
    using that run' ttl cached keep unfolding sourced_def by (metis (no_types, lifting) case_prodI2)
  from assms(1) show ?thesis
  proof cases
    case (DB d)
    with flight keep show ?thesis by (intro old) auto
  next
    case Drop
    have "hasCached c \<Longrightarrow> \<not> cc_cache s' = Some c" "cc_cache s' = Some c \<Longrightarrow> cache_ttl c = ttl" for c
      using Drop ttl by (auto simp: Invalidate_def)
    moreover have "source cfg D s0 s' t x" if "(t, x) \<in> set (cc_flight s')" for t x
      using that flight keep Drop by simp
    ultimately show ?thesis using run' unfolding sourced_def by blast
  next
    case (Ask F clk x)
    have "source cfg D s0 s (clk 2) x" using run answered_query [OF Ask(2)] by (rule source_now)
    with flight keep Ask(1) show ?thesis by (intro old) auto
  next
    case (Fill t x clk)
    have "source cfg D s0 s' t x" using flight Fill(2) keep by blast
    moreover have "source cfg D s0 s' u y" if "(u, y) \<in> set (cc_flight s')" for u y
    proof -
      have "(u, y) \<in> set (cc_flight s)" using that Fill(1) by (auto dest: set_remove1_D)
      then show ?thesis by (rule keep [OF flight])
    qed
    ultimately show ?thesis
      using run' ttl Fill(1,3) unfolding sourced_def
      by (auto simp: GetRelays_finish_def cache_Set_def split: prod.splits)
  next
    case (Lost x)
    with flight keep show ?thesis by (intro old) (auto dest: set_remove1_D)
  qed
qed

interpretation conc_sources: step_invariant "conc_step cfg D" "sourced cfg D ttl s0"
  by unfold_locales (rule sourced_step)

section \<open>The requests of the server are runs of these steps\<close>

text \<open>The state of the server between two requests: nothing in flight.\<close>

definition conc_of :: "Server \<Rightarrow> conc_state" where
  "conc_of s = \<lparr>cc_db = (srv_store s, []), cc_cache = srv_cache s, cc_flight = []\<rparr>"

lemma conc_run_DB:
  "db_step\<^sup>*\<^sup>* d d' \<Longrightarrow> conc_run cfg D \<lparr>cc_db = d, cc_cache = c, cc_flight = fl\<rparr> \<lparr>cc_db = d', cc_cache = c, cc_flight = fl\<rparr>"
proof (induction rule: rtranclp_induct)
  case (step d1 d2)
  from DB [of "\<lparr>cc_db = d1, cc_cache = c, cc_flight = fl\<rparr>" d2 cfg D] step show ?case
    by (simp add: rtranclp.rtrancl_into_rtrancl)
qed simp

lemma conc_run_change:
  assumes "db_step\<^sup>*\<^sup>* (srv_store s, []) (srv_store s', [])"
    and "srv_cache s' = srv_cache s \<or> srv_cache s' = map_option Invalidate (srv_cache s)"
  shows "conc_run cfg D (conc_of s) (conc_of s')"
proof -
  let ?m = "\<lparr>cc_db = (srv_store s', []), cc_cache = srv_cache s, cc_flight = []\<rparr>"
  have run: "conc_run cfg D (conc_of s) ?m" unfolding conc_of_def by (rule conc_run_DB [OF assms(1)])
  from assms(2) show ?thesis
  proof
    assume "srv_cache s' = srv_cache s"
    with run show ?thesis by (simp add: conc_of_def)
  next
    assume c: "srv_cache s' = map_option Invalidate (srv_cache s)"
    from Drop [of cfg D ?m] have "conc_step cfg D ?m (conc_of s')" by (simp add: conc_of_def c)
    with run show ?thesis by (rule rtranclp.rtrancl_into_rtrancl)
  qed
qed

lemma conc_run_GetRelays:
  assumes "GetRelaysHandler F clk tp cfg q (srv_store s) (srv_cache s) = (srv_cache s', resp)"
    and "srv_store s' = srv_store s" "clk 3 - clk 2 \<le> D"
  shows "conc_run cfg D (conc_of s) (conc_of s')"
proof (cases "srv_cache s' = srv_cache s")
  case True
  with conc_run_change [of s s'] assms(2) show ?thesis by simp
next
  case False
  then obtain x where ask: "GetRelays_query F clk cfg None 0 (srv_store s) = Inr x"
      and fill: "srv_cache s' = fst (GetRelays_finish clk None 0 x (srv_cache s))"
    using assms(1) by (auto simp: GetRelaysHandler_def GetRelays_finish_def
        split: relays_phase.splits sum.splits prod.splits if_splits)
  let ?m = "(conc_of s)\<lparr>cc_flight := [(clk 2, x)]\<rparr>"
  have "conc_step cfg D (conc_of s) ?m"
    using Ask [of F clk cfg "conc_of s" x D] ask by (simp add: conc_of_def)
  moreover have "conc_step cfg D ?m (conc_of s')"
    using Fill [of "clk 2" x ?m clk D cfg] fill assms(2,3) by (simp add: conc_of_def)
  ultimately show ?thesis by (meson r_into_rtranclp rtranclp.rtrancl_into_rtrancl)
qed

lemma ServeHTTP_conc:
  assumes "ServeHTTP S W r s = (s', resp)" "wf_clk W 3 - wf_clk W 2 \<le> D"
  shows "conc_run (su_cfg S) D (conc_of s) (conc_of s')"
  using assms(1)
proof (cases rule: ServeHTTP_cases)
  case blocked
  with conc_run_change [of s s'] show ?thesis by simp
next
  case (handled q s0 s1)
  have "conc_of s = conc_of s0" "conc_of s' = conc_of s1" using handled by (simp_all add: conc_of_def)
  moreover have "conc_run (su_cfg S) D (conc_of s0) (conc_of s1)"
    using handle_effect [OF handled(4)] conc_run_change [OF handle_run [OF handled(4)]]
      conc_run_GetRelays [OF _ _ assms(2)]
    by (auto simp: node_effect_def relay_effect_def relay_outcome_def)
  ultimately show ?thesis by simp
qed

section \<open>What an answer from the cache is\<close>

lemma cache_hit:
  assumes "GetRelays_begin clk tp r cache = Answered resp" "Status resp = 200"
  obtains c where "cache = Some c" "hasCached c" "clk 0 - cachedAt c \<le> cache_ttl c"
    "resp = relays_response (cached_relays c) (cached_total c) (clk 1)"
  using assms parse_filters_400 [of tp r resp]
  by (auto simp: GetRelays_begin_def cache_Get_def split: if_splits option.splits sum.splits)

lemma listed_rows:
  assumes "GetRelays_query F clk cfg since gb st = Inr (dtos, cnt)" "d \<in> set dtos"
  shows "\<exists>x\<in>set (st_relays st). d = toRelayDTO (scanRelay x) \<and> Relay_Status x = ''active''"
proof -
  obtain rs where "ListActiveRelays F (clk 2) (RelayTTLSeconds (cfg_Registry cfg)) since gb
      (MaxRelaysPerResponse (cfg_Registry cfg)) st = Inr (rs, cnt)" and dtos: "dtos = map toRelayDTO rs"
    using assms(1) by (cases "ListActiveRelays F (clk 2) (RelayTTLSeconds (cfg_Registry cfg)) since gb
      (MaxRelaysPerResponse (cfg_Registry cfg)) st") (auto simp: GetRelays_query_def)
  from ListActiveRelays_Inr [OF this(1)] assms(2) show ?thesis
    by (auto simp: dtos Let_def listed_def dest!: in_set_takeD)
qed

section \<open>Properties\<close>

text \<open>C10.  How old an answer from the cache can be: start with an empty cache and nothing in flight,
  and let database calls, cache drops, queries and fills interleave in any way.  If an unfiltered
  \<open>GET /relays\<close> is answered from the cache at \<open>clk 0\<close>, then the answer is what the query gave on the
  database as it was at some moment of the run, by a clock reading at most the time to live plus
  the delay of a fill earlier, and each relay listed was in the table then, active.  So a relay that
  was deleted can be served for that long (\<open>cache_race\<close>) and not longer.\<close>

theorem served_relays_are_recent:
  assumes "conc_run cfg D s0 s" and "cc_flight s0 = []" and "cc_cache s0 = Some c0" and "\<not> hasCached c0"
    and "GetRelays_begin clk tp r (cc_cache s) = Answered resp" and "Status resp = 200"
  shows "\<exists>s1 t dtos cnt. conc_run cfg D s0 s1 \<and> conc_run cfg D s1 s \<and> clk 0 - t \<le> cache_ttl c0 + D \<and>
    GetRelays_query no_faults (\<lambda>_. t) cfg None 0 (fst (cc_db s1)) = Inr (dtos, cnt) \<and>
    resp = relays_response dtos cnt (clk 1) \<and>
    (\<forall>d\<in>set dtos. \<exists>x\<in>set (st_relays (fst (cc_db s1))). d = toRelayDTO (scanRelay x) \<and> Relay_Status x = ''active'')"
proof -
  have "sourced cfg D (cache_ttl c0) s0 s0" using assms(2-4) by (simp add: sourced_def)
  with assms(1) have src: "sourced cfg D (cache_ttl c0) s0 s" by (rule conc_sources.run)
  from assms(5,6) obtain c where c: "cc_cache s = Some c" "hasCached c" "clk 0 - cachedAt c \<le> cache_ttl c"
      "resp = relays_response (cached_relays c) (cached_total c) (clk 1)" by (rule cache_hit)
  with src obtain s1 t where s1: "conc_run cfg D s0 s1" "conc_run cfg D s1 s" "cachedAt c - t \<le> D"
      "answered cfg s1 t (cached_relays c, cached_total c)" and "cache_ttl c = cache_ttl c0"
    by (auto simp: sourced_def source_def)
  then have "clk 0 - t \<le> cache_ttl c0 + D" using c(3) by simp
  with c(4) s1 listed_rows [OF s1(4) [unfolded answered_def]] show ?thesis unfolding answered_def by blast
qed

text \<open>The race: the relay is deleted, and the cache dropped, between the query and the fill.\<close>

definition race_start :: conc_state where
  "race_start = \<lparr>cc_db = (sample_store [] [sample_row ''a'' (500 * Second)], []),
     cc_cache = Some (NewRelayCache 15), cc_flight = []\<rparr>"

definition race_dto :: RelayDTO where
  "race_dto = toRelayDTO (scanRelay (sample_row ''a'' (500 * Second)))"

definition race_end :: conc_state where
  "race_end = \<lparr>cc_db = (sample_store [] [], []),
     cc_cache = Some (cache_Set (600 * Second) [race_dto] 1 (Invalidate (NewRelayCache 15))), cc_flight = []\<rparr>"

lemma race_run: "conc_run Defaults 0 race_start race_end"
proof -
  let ?clk = "\<lambda>_::nat. 600 * Second" and ?x = "([race_dto], 1)"
  have q: "GetRelays_query no_faults ?clk Defaults None 0 (fst (cc_db race_start)) = Inr ?x"
    by (simp add: race_start_def race_dto_def GetRelays_query_def ListActiveRelays_def query_count_def count_where_def
        listed_def sample_store_def sample_row_def Defaults_def ttl_window_def seconds_def Second_def order_by_desc_def)
  have del: "fst (DeleteRelay no_faults ''a'' (fst (cc_db race_start))) = sample_store [] []"
    by (simp add: race_start_def DeleteRelay_def exec_delete_def Let_def sample_store_def sample_row_def)
  let ?s1 = "race_start\<lparr>cc_flight := [(600 * Second, ?x)]\<rparr>"
  let ?s2 = "?s1\<lparr>cc_db := (sample_store [] [], [])\<rparr>"
  let ?s3 = "?s2\<lparr>cc_cache := Some (Invalidate (NewRelayCache 15))\<rparr>"
  have "conc_step Defaults 0 race_start ?s1" using Ask [OF q, of 0] by (simp add: race_start_def)
  moreover have "db_step (cc_db ?s1) (sample_store [] [], [])"
    using DeleteR [of "fst (cc_db race_start)" "[]" no_faults "''a''"] by (simp add: del) (simp add: race_start_def)
  then have "conc_step Defaults 0 ?s1 ?s2" by (rule DB)
  moreover have "conc_step Defaults 0 ?s2 ?s3" using Drop [of Defaults 0 ?s2] by (simp add: race_start_def)
  moreover have "conc_step Defaults 0 ?s3 race_end"
    using Fill [of "600 * Second" ?x ?s3 ?clk 0 Defaults] by (simp add: race_start_def race_end_def GetRelays_finish_def)
  ultimately show ?thesis by (meson converse_rtranclp_into_rtranclp rtranclp.rtrancl_refl)
qed

theorem served_relays_are_recent_witness:
  "\<exists>s1 t dtos cnt. conc_run Defaults 0 race_start s1 \<and> conc_run Defaults 0 s1 race_end \<and>
     610 * Second - t \<le> 15 * Second \<and> st_relays (fst (cc_db race_end)) = [] \<and>
     relays_response [race_dto] 1 (610 * Second) = relays_response dtos cnt (610 * Second) \<and>
     (\<forall>d\<in>set dtos. \<exists>x\<in>set (st_relays (fst (cc_db s1))). d = toRelayDTO (scanRelay x))"
proof -
  let ?clk = "\<lambda>_::nat. 610 * Second" and ?r = "sample_request ''GET'' ''/relays'' []"
  have start: "cc_flight race_start = []" "cc_cache race_start = Some (NewRelayCache 15)" "\<not> hasCached (NewRelayCache 15)"
    by (simp_all add: race_start_def NewRelayCache_def)
  have "GetRelays_begin ?clk (\<lambda>_. None) ?r (cc_cache race_end) = Answered (relays_response [race_dto] 1 (610 * Second))"
    by (simp add: race_end_def GetRelays_begin_def parse_filters_def sample_request_def cache_Get_def cache_Set_def
        Invalidate_def NewRelayCache_def seconds_def Second_def)
  from served_relays_are_recent [OF race_run start this] have "\<exists>s1 t dtos cnt. conc_run Defaults 0 race_start s1 \<and>
      conc_run Defaults 0 s1 race_end \<and> 610 * Second - t \<le> cache_ttl (NewRelayCache 15) + 0 \<and>
      relays_response [race_dto] 1 (610 * Second) = relays_response dtos cnt (610 * Second) \<and>
      (\<forall>d\<in>set dtos. \<exists>x\<in>set (st_relays (fst (cc_db s1))). d = toRelayDTO (scanRelay x))"
    by (simp add: relays_response_def) blast
  moreover have "cache_ttl (NewRelayCache 15) + 0 = 15 * Second" "st_relays (fst (cc_db race_end)) = []"
    by (simp_all add: NewRelayCache_def seconds_def Second_def race_end_def sample_store_def)
  ultimately show ?thesis by simp
qed

end
