(* ===== verification/Spec2Isabelle.thy ===== *)
theory Spec2Isabelle
  imports Logging Concurrent
begin

text \<open>
  A model of coord-server (package paths below are under \<open>src/internal\<close>, the program's entry is
  \<open>src/cmd/server/main.go\<close>): the coordination server of a relay network.  Nodes register with a key
  they choose, announce a relay, and keep it alive by heartbeats; clients ask for the list of active
  relays; background jobs mark and delete what has gone silent; a VPN provider (Headscale or
  Tailscale) gives new nodes a key.

  THEORIES, in the order they build on each other.

  \<^item> Prelude, Go_Std.  Machine integers and durations (\<open>wrap64\<close>, \<open>seconds\<close>, \<open>hours\<close>), rows of a
    table as a list (\<open>update_where\<close>, \<open>delete_where\<close>, \<open>row_with\<close>, \<open>order_by_desc\<close>), and what the code
    uses of Go's \<open>strings\<close>, \<open>strconv\<close>, \<open>net\<close>, \<open>path/filepath\<close> and \<open>encoding/hex\<close>, on strings of bytes.
  \<^item> Config (config/schema.go, config.go, loader.go): the records, \<open>Defaults\<close>, \<open>Validate\<close>,
    \<open>applyDefaults\<close>, \<open>applyEnvOverrides\<close>, \<open>Load\<close>, \<open>GenerateDefault\<close>, \<open>WriteConfig\<close>; the file system
    is a map from paths to contents and modes.  Resolver (config/resolver.go): the cascade of
    file, environment, flags and generated key, with the source of every field.
  \<^item> Store_Base, Node_Store, Relay_Store (store/*.go): the SQLite store.  Its state is the record
    \<open>SQLiteStore\<close> (path, handle, columns, the rows of the two tables); a method is a function of it,
    one SQL statement one step; \<open>faults\<close> says which calls to the driver fail.
  \<^item> Metrics (metrics/metrics.go, middleware/metrics.go), Vpn (vpn/*.go), Http (api/errors.go,
    health.go and the bodies), Auth (api/auth.go, middleware/auth.go, the two checks in handlers;
    SHA-256 and HMAC in full), Rate_Limit (middleware/ratelimit.go), Validation (api/validation.go
    with the part of \<open>net/url\<close> it needs).
  \<^item> Node_Handlers (api/nodes.go), Relay_Handlers (api/relays.go, with the cache), Router
    (api/router.go): a request as one step \<open>ServeHTTP\<close> on the record \<open>Server\<close> (store, cache, limiter,
    metrics), through the middlewares in the order of the code.  Access: who may change what.
    Logging (middleware/logging.go and the \<open>slog\<close> calls of middlewares and handlers): the lines a
    request writes, as a second function with the branches of the first.
  \<^item> Jobs (jobs/runner.go): the runner, its jobs and its loop over the channels that \<open>select\<close> takes.
    Startup (startup/banner.go): the checks and the banner.  Boot (cmd/server/main.go): from the
    parsed flags to what the process serves with, and the shutdown.
  \<^item> System: the server as a transition system (\<open>server_step\<close>: requests, jobs, limiter clean-ups) over
    the single database calls (\<open>db_step\<close>), which concurrent requests interleave.  Concurrent: these
    calls together with the queries, fills and drops of the relay cache (\<open>conc_step\<close>).  This theory
    puts \<open>main\<close> and the system together.

  INTERFACES.  \<open>node_registry\<close> (what registration needs of a store), \<open>keyed_store\<close> (a table with one
  row per key), \<open>preauth_client\<close> (one attempt at a VPN key), \<open>step_invariant\<close> and \<open>step_simulation\<close>
  (reachability) are locales; each is interpreted on the definitions of the code, and the properties
  use the interpreted facts.

  WHAT IS SHOWN.  Configuration: what \<open>Validate\<close> accepts, that flags win, that the environment has no
  effect, what the first run writes, that warnings leak.  Store: invariants of both tables, each
  query and clean-up as a function of the rows, finality of deletion, isolation of relays, the gap in
  the schema upgrade.  Requests: exactly which tokens pass, who changes which rows, that errors change
  nothing, that the cache is coherent when requests are sequential, the race when they are not and how
  old a cached answer can be then, that counters and log lines agree, the bound of the rate limiter, idempotent registration, independence from the VPN.  Jobs and start:
  when the loop ends, gauges, intervals that panic, when the process serves, that a first start works.
  System: every interleaving keeps the references, the server refines the calls, nodes never stay
  active, a deleted node keeps its relay.

  PARAMETERS, for code that is not in the repository: the TOML and JSON codecs, chi's route matching
  and its RealIP, the SQLite driver's failures, \<open>time.Parse\<close>, \<open>os\<close> calls, the random source, the
  clock (\<open>clk n\<close> is the n-th reading of an operation), the answers of the VPN APIs, the texts of
  foreign errors, and the rounding of floating-point operations (\<open>float_round\<close>; the theorems ask only
  for \<open>rounding\<close>, or use exact arithmetic and say so).

  BOUNDS.  There is no fuel: every loop of the code is structural recursion here, the job loop over the
  list of events taken.  Durations wrap at 64 bits; theorems that need more say how much.  Strings are
  byte strings, \<open>EqualFold\<close> folds the two non-ASCII letters Go folds to ASCII.

  NOT MODELLED.  The log lines of the jobs and of the start and the texts of errors in lines, the
  buckets of the histograms, locks (each operation under a mutex is one step), \<open>select\<close>'s choice among
  ready channels (any order is allowed), the sockets, signals and timeouts of \<open>net/http\<close>, panics inside
  handlers (chi recovers).  A request is one step of \<open>server_step\<close>; its database calls interleave with
  others in \<open>db_step\<close>, and its cache accesses in \<open>conc_step\<close>.
\<close>

section \<open>From the command line to every reachable state\<close>

lemma dispatch_refuses:
  assumes "protected (match W (Method r) (URLPath r))" "RequireAuth (cfg_Auth (su_cfg S))"
    and "\<not> is_public (PublicPaths (cfg_Auth (su_cfg S))) (URLPath r)"
    and "\<And>t. bearer_token (Authorization r) = Some t \<Longrightarrow> t \<noteq> [] \<Longrightarrow>
           t \<noteq> AdminAPIKey (cfg_Auth (su_cfg S)) \<and> \<not> (prefix ''gc_'' t \<and> 20 \<le> length t)"
  shows "Status (snd (dispatch S W r s)) = 401 \<and> srv_store (fst (dispatch S W r s)) = srv_store s"
proof -
  have "\<exists>resp. AuthMiddleware (su_cfg S) r (srv_metrics s) = (inc_AuthFailures (srv_metrics s), Some resp) \<and> Status resp = 401"
  proof (cases "bearer_token (Authorization r)")
    case (Some t)
    then show ?thesis
      using assms(2,3) assms(4) [of t] by (cases "t = []") (auto simp: AuthMiddleware_def Let_def writeUnauthorized_def)
  qed (use assms(2,3) in \<open>auto simp: AuthMiddleware_def Let_def writeUnauthorized_def\<close>)
  then show ?thesis using assms(1) by (auto simp: dispatch_def Let_def)
qed

text \<open>C1.  The whole process: if \<open>main\<close> comes to serve, on any host, with any flags and any database
  file whose rows are well formed, then in every state the server reaches by requests, jobs and
  limiter clean-ups, with any faults of the driver and any answers of the VPN, both tables are well
  formed, every relay belongs to a node, and no node that the file knew has disappeared; and in
  each of these states, with authentication on, a request to a protected route whose path is not
  public is answered 401 and changes nothing unless its bearer token is the administrator key,
  which is never blank, or at least has the form of a node key.\<close>

theorem started_server_safe:
  assumes "main H fl = (disk, Serve L)" and "length (h_rnd H) = 32"
    and "db_inv (h_db H (DB_Path (cfg_Database (su_cfg (la_setup L)))))"
    and "(server_step (la_setup L) (la_runner L))\<^sup>*\<^sup>* (la_server L) s"
  defines "a \<equiv> cfg_Auth (su_cfg (la_setup L))"
  shows "db_inv (srv_store s) \<and>
    Node_ID ` set (st_nodes (h_db H (DB_Path (cfg_Database (su_cfg (la_setup L)))))) \<subseteq> Node_ID ` set (st_nodes (srv_store s)) \<and>
    \<not> blank (AdminAPIKey a) \<and>
    (\<forall>W r. protected (match W (Method r) (URLPath r)) \<and> RequireAuth a \<and> \<not> is_public (PublicPaths a) (URLPath r) \<and>
       (\<forall>t. bearer_token (Authorization r) = Some t \<longrightarrow> t \<noteq> AdminAPIKey a \<and> \<not> (prefix ''gc_'' t \<and> 20 \<le> length t)) \<longrightarrow>
       Status (snd (dispatch (la_setup L) W r s)) = 401 \<and> srv_store (fst (dispatch (la_setup L) W r s)) = srv_store s)"
proof -
  let ?file = "h_db H (DB_Path (cfg_Database (su_cfg (la_setup L))))"
  note rows = main_store [OF assms(1,2)]
  have ok: "db_ok (srv_store (la_server L), [])" using assms(3) rows by (simp add: db_ok_def db_inv_def)
  note run = server_db.run [OF assms(4)]
  have "db_ok (srv_store s, [])" using db_inv_steps.run [OF run ok] .
  moreover have "Node_ID ` set (st_nodes ?file) \<subseteq> Node_ID ` set (st_nodes (srv_store s))"
    using node_ids_run [OF run] rows by simp
  ultimately show ?thesis
    using main_cfg [OF assms(1,2)] dispatch_refuses [of _ _ "la_setup L"] unfolding db_ok_def a_def by auto
qed

theorem started_server_safe_witness:
  "\<exists>disk L. main (sample_host test_disk test_cfg) (default_flags ''/c'') = (disk, Serve L) \<and>
     db_inv (srv_store (fst (ServeHTTP (la_setup L) (sample_world R_PostRelay)
       (sample_request ''POST'' ''/relays'' ''Bearer k'') (la_server L))))"
proof -
  let ?H = "sample_host test_disk test_cfg" and ?fl = "default_flags ''/c''"
  have w: "well_configured (fst (cascade_plain (replicate 32 CHR 0x01) (resolve_options ?fl) test_cfg
      (markAllFieldsAsSource SourceConfigFile Map.empty)))"
    unfolding cascade_plain_config by code_simp
  have rnd: "length (h_rnd ?H) = 32" by simp
  obtain r where r: "Resolve (h_toml ?H) (h_enc ?H) (h_env ?H) (h_rnd ?H) (h_fails ?H) (h_dflt ?H) (h_disk ?H)
      (resolve_options ?fl) = (test_disk, Inr r)"
    using Resolve_sample [OF w] by auto
  obtain p where "NewVPNProvider (Some (cfg_VPN (res_Config r))) = Inr p"
    using NewVPNProvider_valid Resolve_valid_config [OF r rnd] by blast
  then obtain L where L: "main ?H ?fl = (test_disk, Serve L)"
    unfolding main_Serve [OF rnd] using r Init_new by fastforce
  let ?s = "fst (ServeHTTP (la_setup L) (sample_world R_PostRelay) (sample_request ''POST'' ''/relays'' ''Bearer k'') (la_server L))"
  have "h_db ?H q = NewSQLiteStore q" for q by (simp add: sample_host_def)
  then have empty: "db_inv (h_db ?H q)" for q by (simp add: NewSQLiteStore_def db_inv_def relays_inv_def)
  have "server_step (la_setup L) (la_runner L) (la_server L) ?s" by (rule Request) (rule surjective_pairing)
  from started_server_safe [OF L rnd empty r_into_rtranclp, OF this] L show ?thesis by blast
qed

end
